(* ===== verification/Go_Prelude.thy ===== *)
theory Go_Prelude
  imports Main "HOL-Library.Word"
begin

text \<open>
  The part of Go that every component of the token handler uses: error values and how they
  wrap one another, results, instants and durations, dynamic values with their type
  assertion, and the collections of facts the component theories add to.

  \<^item> Package-level errors (\<open>var ErrX = errors.New(..)\<close>) are \<open>ErrVar name text\<close>: two of them
    are equal exactly when they are the same variable, as Go compares the pointers.
  \<^item> \<open>fmt.Errorf\<close> makes a fresh error; it is kept as its format, the error given to \<open>%w\<close> and
    its other operands, so that \<open>==\<close> and \<open>errors.Is\<close> can be told apart.
  \<^item> An instant is an integer number of nanoseconds since the Unix epoch, a duration an
    integer number of nanoseconds.
\<close>

named_theorems err_defs \<open>definitions of the package-level error variables\<close>
named_theorems http_defs \<open>definitions of the calls a handler makes on its response and its logger\<close>

section \<open>Errors\<close>

text \<open>Why the database engine refused a statement, as far as the tables of the code say.\<close>

datatype stmt_failure =
    UniqueViolation
  | CheckViolation
  | IntegerOutOfRange
  | ValueTooLong

datatype go_error =
    ErrVar string string
      \<comment> \<open>qualified name and text of a package-level error\<close>
  | StmtErr stmt_failure
      \<comment> \<open>a statement refused by the engine\<close>
  | Foreign string
      \<comment> \<open>any other error of a library or of the system\<close>
  | Errorf string "string list"
      \<comment> \<open>\<open>fmt.Errorf\<close> without an error operand\<close>
  | Wrapf string go_error "string list"
      \<comment> \<open>\<open>fmt.Errorf\<close> with a \<open>%w\<close> operand and string operands\<close>
  | WrapfErr string go_error "string list" go_error
      \<comment> \<open>the same, the last operand being the text of a further error\<close>

text \<open>\<open>errors.Is(err, target)\<close>: the chain is followed through \<open>%w\<close> operands only.\<close>

primrec errors_is :: "go_error \<Rightarrow> go_error \<Rightarrow> bool" where
  "errors_is (ErrVar n t) target = (ErrVar n t = target)"
| "errors_is (StmtErr f) target = (StmtErr f = target)"
| "errors_is (Foreign s) target = (Foreign s = target)"
| "errors_is (Errorf f ss) target = (Errorf f ss = target)"
| "errors_is (Wrapf f e ss) target = (Wrapf f e ss = target \<or> errors_is e target)"
| "errors_is (WrapfErr f e ss e') target = (WrapfErr f e ss e' = target \<or> errors_is e target)"

lemma errors_is_refl [simp]: "errors_is e e"
  by (cases e) auto

text \<open>
  A freshly wrapped error is never \<open>==\<close> to a package-level variable, although \<open>errors.Is\<close>
  finds the variable in it.
\<close>

definition is_err_var :: "go_error \<Rightarrow> bool" where
  "is_err_var e = (case e of ErrVar _ _ \<Rightarrow> True | _ \<Rightarrow> False)"

lemma is_err_var_simps [simp]:
  "is_err_var (ErrVar n t)"
  "\<not> is_err_var (StmtErr f)"
  "\<not> is_err_var (Foreign s)"
  "\<not> is_err_var (Errorf f' ss)"
  "\<not> is_err_var (Wrapf f' e ss)"
  "\<not> is_err_var (WrapfErr f' e ss e')"
  by (simp_all add: is_err_var_def)

section \<open>Results\<close>

type_synonym 'a result = "go_error + 'a"

text \<open>\<open>if err != nil { return err }\<close>\<close>

definition and_then :: "'a result \<Rightarrow> ('a \<Rightarrow> 'b result) \<Rightarrow> 'b result" where
  "and_then r f = (case r of Inl e \<Rightarrow> Inl e | Inr x \<Rightarrow> f x)"

lemma and_then_simps [simp]:
  "and_then (Inl e) f = Inl e"
  "and_then (Inr x) f = f x"
  by (simp_all add: and_then_def)

lemma and_then_Inr_iff: "and_then r f = Inr y \<longleftrightarrow> (\<exists>x. r = Inr x \<and> f x = Inr y)"
  by (cases r) auto

lemma and_then_Inl_iff:
  "and_then r f = Inl e \<longleftrightarrow> r = Inl e \<or> (\<exists>x. r = Inr x \<and> f x = Inl e)"
  by (cases r) auto

text \<open>The same with the error rewritten on the way, \<open>return fmt.Errorf(.., err)\<close>.\<close>

definition map_err :: "(go_error \<Rightarrow> go_error) \<Rightarrow> 'a result \<Rightarrow> 'a result" where
  "map_err g r = (case r of Inl e \<Rightarrow> Inl (g e) | Inr x \<Rightarrow> Inr x)"

lemma map_err_simps [simp]:
  "map_err g (Inl e) = Inl (g e)"
  "map_err g (Inr x) = Inr x"
  by (simp_all add: map_err_def)

lemma map_err_Inr_iff [simp]: "map_err g r = Inr x \<longleftrightarrow> r = Inr x"
  by (cases r) auto

lemma map_err_Inl_iff: "map_err g r = Inl e \<longleftrightarrow> (\<exists>e'. r = Inl e' \<and> e = g e')"
  by (cases r) auto

section \<open>Time\<close>

type_synonym time = int
type_synonym duration = int

abbreviation ns_per_second :: int where
  "ns_per_second \<equiv> 1000000000"

definition second :: duration where "second = ns_per_second"
definition minute :: duration where "minute = 60 * second"

text \<open>
  \<open>Time.Unix\<close> and \<open>time.Unix(sec, 0)\<close>: an instant keeps its nanoseconds as a
  non-negative offset from its second, so the second is rounded downwards.
\<close>

definition unix :: "time \<Rightarrow> int" where
  "unix t = t div ns_per_second"

definition from_unix :: "int \<Rightarrow> time" where
  "from_unix s = s * ns_per_second"

definition truncate_second :: "time \<Rightarrow> time" where
  "truncate_second t = from_unix (unix t)"

text \<open>The zero \<open>time.Time\<close>, 1 January of year 1.\<close>

definition zero_time :: time where
  "zero_time = from_unix (- 62135596800)"

lemma unix_from_unix [simp]: "unix (from_unix s) = s"
  by (simp add: unix_def from_unix_def)

lemma truncate_second_idem [simp]: "truncate_second (truncate_second t) = truncate_second t"
  by (simp add: truncate_second_def)

lemma truncate_second_le: "truncate_second t \<le> t"
proof -
  have "t = t div ns_per_second * ns_per_second + t mod ns_per_second" by simp
  moreover have "0 \<le> t mod ns_per_second" by simp
  ultimately show ?thesis unfolding truncate_second_def from_unix_def unix_def by linarith
qed

lemma truncate_second_gt: "t - ns_per_second < truncate_second t"
proof -
  have "t = t div ns_per_second * ns_per_second + t mod ns_per_second" by simp
  moreover have "t mod ns_per_second < ns_per_second" by simp
  ultimately show ?thesis unfolding truncate_second_def from_unix_def unix_def by linarith
qed

lemma from_unix_less_iff: "from_unix s < t \<longleftrightarrow> s < unix t \<or> s = unix t \<and> from_unix s < t"
proof -
  have "from_unix s < t" if "s < unix t"
  proof -
    from that have "from_unix s + ns_per_second \<le> truncate_second t"
      by (simp add: from_unix_def truncate_second_def)
    with truncate_second_le [of t] show ?thesis by linarith
  qed
  moreover have "s \<le> unix t" if "from_unix s < t"
  proof (rule ccontr)
    assume "\<not> s \<le> unix t"
    then have "truncate_second t + ns_per_second \<le> from_unix s"
      by (simp add: from_unix_def truncate_second_def)
    with truncate_second_gt [of t] that show False by linarith
  qed
  ultimately show ?thesis by fastforce
qed

text \<open>Go's integer division rounds towards zero.\<close>

definition go_div :: "int \<Rightarrow> int \<Rightarrow> int" where
  "go_div a b = sgn a * sgn b * (\<bar>a\<bar> div \<bar>b\<bar>)"

section \<open>Dynamic values\<close>

text \<open>
  An \<open>interface{}\<close> taken from a map or a context: a string, or a value of another type.
  \<open>v, ok := x.(string)\<close> is \<open>as_string\<close>, with \<open>None\<close> for \<open>!ok\<close> (also when the key is missing).
\<close>

datatype gvalue = VString string | VOther

definition as_string :: "gvalue option \<Rightarrow> string option" where
  "as_string v = (case v of Some (VString s) \<Rightarrow> Some s | _ \<Rightarrow> None)"

lemma as_string_simps [simp]:
  "as_string None = None"
  "as_string (Some (VString s)) = Some s"
  "as_string (Some VOther) = None"
  by (simp_all add: as_string_def)

lemma as_string_Some_iff: "as_string v = Some s \<longleftrightarrow> v = Some (VString s)"
  by (auto simp: as_string_def split: option.splits gvalue.splits)

end
