(* ===== verification/Go_Encoding.thy ===== *)
theory Go_Encoding
  imports Go_Prelude
begin

text \<open>
  The two encodings of the standard library the handlers put into URLs and cookies:
  \<open>base64.URLEncoding.EncodeToString\<close> (the login state) and \<open>url.QueryEscape\<close> (the logout
  redirect), with the query parser of \<open>net/url\<close> that reads them back. Strings are lists of
  bytes, as in Go.
\<close>

section \<open>base64.URLEncoding\<close>

definition b64_alphabet :: string where
  "b64_alphabet = ''ABCDEFGHIJKLMNOPQRSTUVWXYZabcdefghijklmnopqrstuvwxyz0123456789-_''"

definition b64_char :: "nat \<Rightarrow> char" where
  "b64_char n = b64_alphabet ! (n mod 64)"

text \<open>Three bytes make four characters; a rest of one or two bytes is padded with \<open>=\<close>.\<close>

fun b64_encode :: "8 word list \<Rightarrow> string" where
  "b64_encode [] = []"
| "b64_encode [x] =
     (let v = unat x * 65536
      in [b64_char (v div 262144), b64_char (v div 4096), CHR ''='', CHR ''=''])"
| "b64_encode [x, y] =
     (let v = unat x * 65536 + unat y * 256
      in [b64_char (v div 262144), b64_char (v div 4096), b64_char (v div 64), CHR ''=''])"
| "b64_encode (x # y # z # rest) =
     (let v = unat x * 65536 + unat y * 256 + unat z
      in [b64_char (v div 262144), b64_char (v div 4096), b64_char (v div 64), b64_char v]
         @ b64_encode rest)"

text \<open>The decoder is the specification of the encoder: it shows that no two inputs collide.\<close>

definition b64_index :: "char \<Rightarrow> nat" where
  "b64_index c = length (takeWhile (\<lambda>d. d \<noteq> c) b64_alphabet)"

definition b64_quad :: "char \<Rightarrow> char \<Rightarrow> char \<Rightarrow> char \<Rightarrow> nat" where
  "b64_quad a b c d = b64_index a * 262144 + b64_index b * 4096 + b64_index c * 64 + b64_index d"

fun b64_decode :: "string \<Rightarrow> 8 word list" where
  "b64_decode (a # b # c # d # rest) =
     (if c = CHR ''='' then [of_nat ((b64_index a * 262144 + b64_index b * 4096) div 65536)]
      else if d = CHR ''='' then
        (let v = b64_index a * 262144 + b64_index b * 4096 + b64_index c * 64
         in [of_nat (v div 65536), of_nat (v div 256 mod 256)])
      else
        (let v = b64_quad a b c d
         in [of_nat (v div 65536), of_nat (v div 256 mod 256), of_nat (v mod 256)])
          @ b64_decode rest)"
| "b64_decode _ = []"

lemma b64_table: "\<forall>n\<in>set [0..<64]. b64_index (b64_char n) = n \<and> b64_char n \<noteq> CHR ''=''"
  by code_simp

lemma b64_char_mod [simp]: "b64_char (n mod 64) = b64_char n"
  by (simp add: b64_char_def)

lemma b64_index_char [simp]: "b64_index (b64_char n) = n mod 64"
  using b64_table [rule_format, of "n mod 64"] by simp

lemma b64_char_not_pad [simp]: "b64_char n \<noteq> CHR ''=''"
  using b64_table [rule_format, of "n mod 64"] by simp

lemma b64_digits:
  fixes v :: nat
  assumes "v < 16777216"
  shows "v div 262144 mod 64 * 262144 + v div 4096 mod 64 * 4096 + v div 64 mod 64 * 64 + v mod 64 = v"
proof -
  have "v div 262144 mod 64 = v div 262144" using assms by (simp add: less_mult_imp_div_less)
  moreover have "v div 4096 = v div 262144 * 64 + v div 4096 mod 64"
    using div_mult_mod_eq [of "v div 4096" 64] by (simp add: div_mult2_eq [symmetric])
  moreover have "v div 64 = v div 4096 * 64 + v div 64 mod 64"
    using div_mult_mod_eq [of "v div 64" 64] by (simp add: div_mult2_eq [symmetric])
  moreover have "v = v div 64 * 64 + v mod 64" by simp
  ultimately show ?thesis by linarith
qed

lemma unat_byte_less [simp]: "unat (x :: 8 word) < 256"
  using unsigned_less [of x] by simp

lemma bytes3:
  fixes x y z :: nat
  assumes "x < 256" "y < 256" "z < 256"
  shows "(x * 65536 + y * 256 + z) div 65536 = x"
    and "(x * 65536 + y * 256 + z) div 256 mod 256 = y"
    and "(x * 65536 + y * 256 + z) mod 256 = z"
    and "x * 65536 + y * 256 + z < 16777216"
proof -
  define r where "r = y * 256 + z"
  have r: "r < 65536" using assms by (simp add: r_def)
  have "(x * 65536 + r) div 65536 = x" using r by simp
  then show "(x * 65536 + y * 256 + z) div 65536 = x" by (simp add: r_def add.assoc)
  have split: "x * 65536 + y * 256 + z = (x * 256 + y) * 256 + z" by simp
  have "((x * 256 + y) * 256 + z) div 256 = x * 256 + y"
    using assms(3) by simp
  then show "(x * 65536 + y * 256 + z) div 256 mod 256 = y"
    using assms(2) by (simp add: split)
  show "(x * 65536 + y * 256 + z) mod 256 = z"
    using assms(3) by (simp only: split mod_mult_self3 mod_less)
  show "x * 65536 + y * 256 + z < 16777216" using assms by linarith
qed

lemma b64_low_zero:
  fixes n m :: nat
  shows "n * 65536 div 64 mod 64 = 0" "n * 65536 mod 64 = 0" "(n * 65536 + m * 256) mod 64 = 0"
proof -
  have e: "n * 65536 = n * 16 * 64 * 64" "n * 65536 + m * 256 = (n * 1024 + m * 4) * 64" by simp_all
  show "n * 65536 div 64 mod 64 = 0" by (simp only: e(1)) simp
  show "n * 65536 mod 64 = 0" by (simp only: e(1)) simp
  show "(n * 65536 + m * 256) mod 64 = 0" by (simp only: e(2)) simp
qed

theorem b64_decode_encode: "b64_decode (b64_encode bs) = bs"
proof (induction bs rule: b64_encode.induct)
  case (2 x)
  define v where "v = unat x * 65536"
  have v: "v < 16777216" "v div 65536 = unat x" "v div 64 mod 64 = 0" "v mod 64 = 0"
    using bytes3 [of "unat x" 0 0] b64_low_zero(1,2) [of "unat x"] by (simp_all add: v_def)
  show ?case unfolding b64_encode.simps Let_def v_def [symmetric]
    using b64_digits [OF v(1)] v by simp
next
  case (3 x y)
  define v where "v = unat x * 65536 + unat y * 256"
  have v: "v < 16777216" "v div 65536 = unat x" "v div 256 mod 256 = unat y" "v mod 64 = 0"
    using bytes3 [of "unat x" "unat y" 0] b64_low_zero(3) [of "unat x" "unat y"]
    by (simp_all add: v_def)
  have d: "v div 262144 mod 64 * 262144 + v div 4096 mod 64 * 4096 + v div 64 mod 64 * 64 = v"
    using b64_digits [OF v(1)] v(4) by linarith
  show ?case unfolding b64_encode.simps Let_def v_def [symmetric]
    by (simp only: b64_decode.simps b64_char_not_pad b64_index_char d v Let_def)
       simp
next
  case (4 x y z rest)
  define v where "v = unat x * 65536 + unat y * 256 + unat z"
  have v: "v < 16777216" "v div 65536 = unat x" "v div 256 mod 256 = unat y" "v mod 256 = unat z"
    using bytes3 [of "unat x" "unat y" "unat z"] by (simp_all add: v_def)
  show ?case unfolding b64_encode.simps Let_def v_def [symmetric]
    by (simp only: b64_decode.simps b64_char_not_pad b64_index_char b64_quad_def append.simps
          b64_digits [OF v(1)] v Let_def 4)
       simp
qed simp

lemma b64_encode_inject [simp]: "b64_encode xs = b64_encode ys \<longleftrightarrow> xs = ys"
  by (metis b64_decode_encode)

lemma length_b64_encode: "length (b64_encode bs) = 4 * ((length bs + 2) div 3)"
proof (induction bs rule: b64_encode.induct)
  case (4 x y z rest)
  have "(length (x # y # z # rest) + 2) div 3 = Suc ((length rest + 2) div 3)"
    using div_add_self1 [of 3 "length rest + 2"] by simp
  with 4 show ?case by (simp add: Let_def)
qed (simp_all add: Let_def)

lemma b64_char_in_alphabet: "b64_char n \<in> set b64_alphabet"
proof -
  have "n mod 64 < length b64_alphabet" by (simp add: b64_alphabet_def)
  then show ?thesis unfolding b64_char_def by (rule nth_mem)
qed

lemma set_b64_encode: "set (b64_encode bs) \<subseteq> insert (CHR ''='') (set b64_alphabet)"
  by (induction bs rule: b64_encode.induct) (auto simp: Let_def b64_char_in_alphabet)

end
