(* ===== verification/Go_Query.thy ===== *)
theory Go_Query
  imports Go_Prelude
begin

text \<open>
  \<open>url.QueryEscape\<close> and the query parser behind \<open>r.URL.Query()\<close> of \<open>net/url\<close>. The logout
  handler builds its redirect from two escaped values; the callback handler reads \<open>state\<close>
  from the parsed query.
\<close>

section \<open>url.QueryEscape\<close>

definition unreserved :: "char \<Rightarrow> bool" where
  "unreserved c \<longleftrightarrow> c \<in> set ''ABCDEFGHIJKLMNOPQRSTUVWXYZabcdefghijklmnopqrstuvwxyz0123456789-_.~''"

definition upper_hex :: string where
  "upper_hex = ''0123456789ABCDEF''"

definition escape_char :: "char \<Rightarrow> string" where
  "escape_char c =
     (if c = CHR '' '' then ''+''
      else if unreserved c then [c]
      else [CHR ''%'', upper_hex ! (of_char c div 16), upper_hex ! (of_char c mod 16)])"

definition query_escape :: "string \<Rightarrow> string" where
  "query_escape s = concat (map escape_char s)"

text \<open>The inverse, with both cases of hexadecimal digits; \<open>None\<close> is an \<open>EscapeError\<close>.\<close>

definition unhex :: "char \<Rightarrow> nat option" where
  "unhex c = map_of (zip ''0123456789ABCDEFabcdef'' ([0..<16] @ [10..<16])) c"

fun query_unescape :: "string \<Rightarrow> string option" where
  "query_unescape [] = Some []"
| "query_unescape (c # s) =
     (if c = CHR ''%'' then
        (case s of
           a # b # rest \<Rightarrow>
             (case (unhex a, unhex b) of
                (Some h, Some l) \<Rightarrow> map_option ((#) (char_of (h * 16 + l))) (query_unescape rest)
              | _ \<Rightarrow> None)
         | _ \<Rightarrow> None)
      else if c = CHR ''+'' then map_option ((#) (CHR '' '')) (query_unescape s)
      else map_option ((#) c) (query_unescape s))"

section \<open>url.ParseQuery\<close>

text \<open>The pieces between the separators; \<open>strings.Cut\<close> takes a piece apart at its first \<open>=\<close>.\<close>

definition before :: "char \<Rightarrow> string \<Rightarrow> string" where
  "before sep s = takeWhile (\<lambda>c. c \<noteq> sep) s"

definition after :: "char \<Rightarrow> string \<Rightarrow> string" where
  "after sep s = tl (dropWhile (\<lambda>c. c \<noteq> sep) s)"

fun split_on :: "char \<Rightarrow> string \<Rightarrow> string list" where
  "split_on sep [] = [[]]"
| "split_on sep (c # s) =
     (if c = sep then [] # split_on sep s
      else case split_on sep s of [] \<Rightarrow> [[c]] | p # ps \<Rightarrow> (c # p) # ps)"

definition parse_pair :: "string \<Rightarrow> (string \<times> string) option" where
  "parse_pair p =
     (if CHR '';'' \<in> set p \<or> p = [] then None
      else case (query_unescape (before (CHR ''='') p), query_unescape (after (CHR ''='') p)) of
             (Some k, Some v) \<Rightarrow> Some (k, v)
           | _ \<Rightarrow> None)"

text \<open>Pieces that do not parse are left out, as \<open>URL.Query\<close> drops the error.\<close>

definition parse_query :: "string \<Rightarrow> (string \<times> string) list" where
  "parse_query q = List.map_filter parse_pair (split_on (CHR ''&'') q)"

text \<open>\<open>Values.Get\<close>: the first value, the empty string when there is none.\<close>

definition values_get :: "(string \<times> string) list \<Rightarrow> string \<Rightarrow> string" where
  "values_get vs k = (case map_of vs k of None \<Rightarrow> [] | Some v \<Rightarrow> v)"

section \<open>Round trips\<close>

lemma hex_table: "\<forall>n\<in>set [0..<16]. unhex (upper_hex ! n) = Some n \<and> unreserved (upper_hex ! n)"
  by code_simp

lemma unhex_upper [simp]: "n < 16 \<Longrightarrow> unhex (upper_hex ! n) = Some n"
  using hex_table by simp

lemma unreserved_upper_hex [simp]: "n < 16 \<Longrightarrow> unreserved (upper_hex ! n)"
  using hex_table by simp

lemma of_char_div_less [simp]: "(of_char c div 16 :: nat) < 16"
  by (rule less_mult_imp_div_less) simp

lemma unreserved_special [simp]:
  "\<not> unreserved (CHR ''%'')" "\<not> unreserved (CHR ''+'')" "\<not> unreserved (CHR ''&'')"
  "\<not> unreserved (CHR ''='')" "\<not> unreserved (CHR '';'')" "\<not> unreserved (CHR ''#'')"
  by (simp_all add: unreserved_def)

lemma query_unescape_escape_char:
  "query_unescape (escape_char c @ s) = map_option ((#) c) (query_unescape s)"
proof -
  have "of_char c div 16 * 16 + of_char c mod 16 = (of_char c :: nat)" by simp
  then show ?thesis by (auto simp: escape_char_def)
qed

theorem query_unescape_escape: "query_unescape (query_escape s) = Some s"
  by (induction s) (simp_all add: query_escape_def query_unescape_escape_char)

lemma query_escape_inject [simp]: "query_escape s = query_escape t \<longleftrightarrow> s = t"
  by (metis option.inject query_unescape_escape)

text \<open>An escaped value holds none of the separators of a query.\<close>

lemma query_escape_chars: "c \<in> set (query_escape s) \<Longrightarrow> unreserved c \<or> c = CHR ''%'' \<or> c = CHR ''+''"
  by (auto simp: query_escape_def escape_char_def split: if_splits)

lemma query_escape_no_separator:
  "CHR ''&'' \<notin> set (query_escape s)" "CHR ''='' \<notin> set (query_escape s)"
  "CHR '';'' \<notin> set (query_escape s)" "CHR ''#'' \<notin> set (query_escape s)"
  using query_escape_chars [of _ s] by fastforce+

lemma split_on_none: "sep \<notin> set p \<Longrightarrow> split_on sep p = [p]"
  by (induction p) auto

lemma split_on_append: "sep \<notin> set p \<Longrightarrow> split_on sep (p @ sep # s) = p # split_on sep s"
  by (induction p) auto

lemma before_append: "sep \<notin> set k \<Longrightarrow> before sep (k @ sep # v) = k"
  by (induction k) (auto simp: before_def)

lemma after_append: "sep \<notin> set k \<Longrightarrow> after sep (k @ sep # v) = v"
  by (induction k) (auto simp: after_def)

lemma query_unescape_plain:
  "(\<forall>c\<in>set k. c \<noteq> CHR ''%'' \<and> c \<noteq> CHR ''+'') \<Longrightarrow> query_unescape k = Some k"
  by (induction k) auto

text \<open>A pair built as \<open>key=escaped value\<close> parses back to the key and the value.\<close>

lemma parse_pair_escaped:
  assumes "\<forall>c\<in>set k. c \<notin> set ''%+;=''"
  shows "parse_pair (k @ CHR ''='' # query_escape v) = Some (k, v)"
proof -
  have "CHR '';'' \<notin> set (k @ CHR ''='' # query_escape v)"
    using assms query_escape_no_separator(3) [of v] by auto
  moreover have "CHR ''='' \<notin> set k" using assms by auto
  moreover have "query_unescape k = Some k" using assms by (auto intro: query_unescape_plain)
  ultimately show ?thesis
    by (simp add: parse_pair_def before_append after_append query_unescape_escape)
qed

lemma parse_query_one:
  assumes "\<forall>c\<in>set k. c \<notin> set ''%+;=&''"
  shows "parse_query (k @ CHR ''='' # query_escape v) = [(k, v)]"
proof -
  have "CHR ''&'' \<notin> set (k @ CHR ''='' # query_escape v)"
    using assms by (auto simp: query_escape_no_separator)
  then have "split_on (CHR ''&'') (k @ CHR ''='' # query_escape v) = [k @ CHR ''='' # query_escape v]"
    by (rule split_on_none)
  moreover have "parse_pair (k @ CHR ''='' # query_escape v) = Some (k, v)"
    using assms by (simp add: parse_pair_escaped)
  ultimately show ?thesis by (simp add: parse_query_def List.map_filter_simps)
qed

lemma parse_query_two:
  assumes "\<forall>c\<in>set k1. c \<notin> set ''%+;=&''" and "\<forall>c\<in>set k2. c \<notin> set ''%+;=&''"
  shows "parse_query (k1 @ CHR ''='' # query_escape v1 @ CHR ''&'' # k2 @ CHR ''='' # query_escape v2)
           = [(k1, v1), (k2, v2)]"
proof -
  let ?p1 = "k1 @ CHR ''='' # query_escape v1" and ?p2 = "k2 @ CHR ''='' # query_escape v2"
  have "CHR ''&'' \<notin> set k1" using assms(1) by auto
  then have p1: "CHR ''&'' \<notin> set ?p1" by (simp add: query_escape_no_separator)
  have "CHR ''&'' \<notin> set k2" using assms(2) by auto
  then have p2: "CHR ''&'' \<notin> set ?p2" by (simp add: query_escape_no_separator)
  have "split_on (CHR ''&'') (?p1 @ CHR ''&'' # ?p2) = [?p1, ?p2]"
    by (simp only: split_on_append [OF p1] split_on_none [OF p2])
  moreover have "parse_pair ?p1 = Some (k1, v1)" "parse_pair ?p2 = Some (k2, v2)"
    using assms by (simp_all add: parse_pair_escaped)
  ultimately show ?thesis by (simp add: parse_query_def List.map_filter_simps)
qed

end
