(* ===== verification/Go_Http.thy ===== *)
theory Go_Http
  imports Go_Prelude
begin

text \<open>
  \<open>net/http\<close> as the handlers use it. A handler is modelled by the list of the calls it
  makes, in order: on its \<open>http.ResponseWriter\<close> (\<open>SetHeader\<close>, \<open>AddHeader\<close>, \<open>AddCookie\<close>,
  \<open>WriteHeader\<close>, \<open>Write\<close>), on the request logger (\<open>FromCtx\<close>, \<open>SetErr\<close>) and a nil
  dereference (\<open>Panic\<close>, always the last). Two readers interpret the list: \<open>client_view\<close>
  below, the response \<open>net/http\<close> puts on the wire, and the status recorder of the logger.
\<close>

section \<open>Cookies and calls\<close>

datatype same_site = SameSiteDefaultMode | SameSiteLaxMode | SameSiteStrictMode | SameSiteNoneMode

record cookie_options =
  Path :: string
  Domain :: string
  MaxAge :: int
  Secure :: bool
  HttpOnly :: bool
  SameSite :: same_site

record set_cookie =
  cookie_name :: string
  cookie_value :: string
  cookie_options :: cookie_options

datatype hop =
    SetHeader string string
  | AddHeader string string
  | AddCookie set_cookie
  | WriteHeader nat
  | Write string
  | FromCtx string string
      \<comment> \<open>\<open>zlogger.FromContext\<close>, with the trace and span id of the context (empty if invalid)\<close>
  | SetErr string "go_error option"
  | Panic

section \<open>The response on the wire\<close>

text \<open>
  The first \<open>WriteHeader\<close> fixes the status and takes a snapshot of the headers; a \<open>Write\<close>
  before it sends status 200. Later calls of \<open>WriteHeader\<close> are ignored (\<open>net/http\<close> logs
  them as superfluous), later bytes are appended to the body. A handler that writes nothing
  answers 200, one that panics leaves the client without a response.
\<close>

record response =
  res_header :: "(string \<times> string) list"
  res_cookies :: "set_cookie list"
  res_sent :: "(nat \<times> (string \<times> string) list \<times> set_cookie list) option"
  res_body :: string
  res_panic :: bool

definition fresh_response :: response where
  "fresh_response = \<lparr>res_header = [], res_cookies = [], res_sent = None, res_body = [], res_panic = False\<rparr>"

definition set_header :: "string \<Rightarrow> string \<Rightarrow> (string \<times> string) list \<Rightarrow> (string \<times> string) list" where
  "set_header k v hs = (k, v) # filter (\<lambda>h. fst h \<noteq> k) hs"

definition send_header :: "nat \<Rightarrow> response \<Rightarrow> response" where
  "send_header c r =
     (case res_sent r of
        None \<Rightarrow> r\<lparr>res_sent := Some (c, res_header r, res_cookies r)\<rparr>
      | Some _ \<Rightarrow> r)"

fun resp_step :: "hop \<Rightarrow> response \<Rightarrow> response" where
  "resp_step (SetHeader k v) r = r\<lparr>res_header := set_header k v (res_header r)\<rparr>"
| "resp_step (AddHeader k v) r = r\<lparr>res_header := res_header r @ [(k, v)]\<rparr>"
| "resp_step (AddCookie c) r = r\<lparr>res_cookies := res_cookies r @ [c]\<rparr>"
| "resp_step (WriteHeader c) r = send_header c r"
| "resp_step (Write b) r = (send_header 200 r)\<lparr>res_body := res_body r @ b\<rparr>"
| "resp_step (FromCtx _ _) r = r"
| "resp_step (SetErr _ _) r = r"
| "resp_step Panic r = r\<lparr>res_panic := True\<rparr>"

definition client_view :: "hop list \<Rightarrow> response" where
  "client_view hops = send_header 200 (fold resp_step hops fresh_response)"

definition client_status :: "hop list \<Rightarrow> nat option" where
  "client_status hops =
     (if res_panic (client_view hops) then None else map_option fst (res_sent (client_view hops)))"

definition client_cookies :: "hop list \<Rightarrow> set_cookie list" where
  "client_cookies hops =
     (case res_sent (client_view hops) of None \<Rightarrow> [] | Some (_, _, cs) \<Rightarrow> cs)"

definition client_header :: "hop list \<Rightarrow> string \<Rightarrow> string option" where
  "client_header hops k =
     (case res_sent (client_view hops) of None \<Rightarrow> None | Some (_, hs, _) \<Rightarrow> map_of hs k)"

section \<open>Status texts and redirects\<close>

definition status_table :: "(nat \<times> string) list" where
  "status_table =
    [(100, ''Continue''), (101, ''Switching Protocols''), (102, ''Processing''),
     (103, ''Early Hints''), (200, ''OK''), (201, ''Created''), (202, ''Accepted''),
     (203, ''Non-Authoritative Information''), (204, ''No Content''), (205, ''Reset Content''),
     (206, ''Partial Content''), (207, ''Multi-Status''), (208, ''Already Reported''),
     (226, ''IM Used''), (300, ''Multiple Choices''), (301, ''Moved Permanently''),
     (302, ''Found''), (303, ''See Other''), (304, ''Not Modified''), (305, ''Use Proxy''),
     (307, ''Temporary Redirect''), (308, ''Permanent Redirect''), (400, ''Bad Request''),
     (401, ''Unauthorized''), (402, ''Payment Required''), (403, ''Forbidden''),
     (404, ''Not Found''), (405, ''Method Not Allowed''), (406, ''Not Acceptable''),
     (407, ''Proxy Authentication Required''), (408, ''Request Timeout''), (409, ''Conflict''),
     (410, ''Gone''), (411, ''Length Required''), (412, ''Precondition Failed''),
     (413, ''Request Entity Too Large''), (414, ''Request URI Too Long''),
     (415, ''Unsupported Media Type''), (416, ''Requested Range Not Satisfiable''),
     (417, ''Expectation Failed''),
     (418, ''I'' @ [CHR 0x27] @ ''m a teapot''), (421, ''Misdirected Request''),
     (422, ''Unprocessable Entity''), (423, ''Locked''), (424, ''Failed Dependency''),
     (425, ''Too Early''), (426, ''Upgrade Required''), (428, ''Precondition Required''),
     (429, ''Too Many Requests''), (431, ''Request Header Fields Too Large''),
     (451, ''Unavailable For Legal Reasons''), (500, ''Internal Server Error''),
     (501, ''Not Implemented''), (502, ''Bad Gateway''), (503, ''Service Unavailable''),
     (504, ''Gateway Timeout''), (505, ''HTTP Version Not Supported''),
     (506, ''Variant Also Negotiates''), (507, ''Insufficient Storage''),
     (508, ''Loop Detected''), (510, ''Not Extended''), (511, ''Network Authentication Required'')]"

text \<open>\<open>http.StatusText\<close>; the empty string for an unknown code.\<close>

definition StatusText :: "nat \<Rightarrow> string" where
  "StatusText code = (case map_of status_table code of None \<Rightarrow> [] | Some t \<Rightarrow> t)"

definition html_escape_char :: "char \<Rightarrow> string" where
  "html_escape_char c =
     (if c = CHR ''&'' then ''&amp;''
      else if c = CHR ''<'' then ''&lt;''
      else if c = CHR ''>'' then ''&gt;''
      else if c = CHR 0x22 then ''&#34;''
      else if c = CHR 0x27 then ''&#39;''
      else [c])"

text \<open>
  \<open>http.Redirect\<close> to an absolute URL: the \<open>Location\<close> header, then for GET and HEAD a content
  type, the status line, and for GET a short body. (For a URL without scheme \<open>net/http\<close>
  first resolves it against the path of the request; the code redirects to configured
  absolute URLs and to URLs of the provider.)
\<close>

definition http_redirect :: "string \<Rightarrow> string \<Rightarrow> nat \<Rightarrow> hop list" where
  "http_redirect meth url code =
     [SetHeader ''Location'' url]
     @ (if meth \<in> {''GET'', ''HEAD''} then [SetHeader ''Content-Type'' ''text/html; charset=utf-8''] else [])
     @ [WriteHeader code]
     @ (if meth = ''GET''
        then [Write (''<a href='' @ [CHR 0x22] @ concat (map html_escape_char url) @ [CHR 0x22, CHR ''>'']
                     @ StatusText code @ ''</a>.'' @ [CHR 0x0A, CHR 0x0A])]
        else [])"

section \<open>What the interpreters keep\<close>

text \<open>Calls that neither send the header nor panic: the status line is still open after them.\<close>

primrec quiet :: "hop \<Rightarrow> bool" where
  "quiet (SetHeader _ _) = True"
| "quiet (AddHeader _ _) = True"
| "quiet (AddCookie _) = True"
| "quiet (WriteHeader _) = False"
| "quiet (Write _) = False"
| "quiet (FromCtx _ _) = True"
| "quiet (SetErr _ _) = True"
| "quiet Panic = False"

definition cookies_of :: "hop list \<Rightarrow> set_cookie list" where
  "cookies_of hops = concat (map (\<lambda>h. case h of AddCookie c \<Rightarrow> [c] | _ \<Rightarrow> []) hops)"

lemma cookies_of_simps [simp]:
  "cookies_of [] = []"
  "cookies_of (AddCookie c # hs) = c # cookies_of hs"
  "cookies_of (SetHeader k v # hs) = cookies_of hs"
  "cookies_of (AddHeader k v # hs) = cookies_of hs"
  "cookies_of (WriteHeader n # hs) = cookies_of hs"
  "cookies_of (Write b # hs) = cookies_of hs"
  "cookies_of (FromCtx t s # hs) = cookies_of hs"
  "cookies_of (SetErr d e # hs) = cookies_of hs"
  "cookies_of (Panic # hs) = cookies_of hs"
  "cookies_of (hs @ hs') = cookies_of hs @ cookies_of hs'"
  by (simp_all add: cookies_of_def)

lemma send_header_simps [simp]:
  "res_sent r = Some x \<Longrightarrow> send_header c r = r"
  "res_sent r = None \<Longrightarrow> send_header c r = r\<lparr>res_sent := Some (c, res_header r, res_cookies r)\<rparr>"
  "res_sent (send_header c r) = (case res_sent r of None \<Rightarrow> Some (c, res_header r, res_cookies r) | Some x \<Rightarrow> Some x)"
  "res_panic (send_header c r) = res_panic r"
  by (auto simp: send_header_def split: option.splits)

lemma sent_stays: "res_sent r = Some x \<Longrightarrow> res_sent (fold resp_step hops r) = Some x"
proof (induction hops arbitrary: r)
  case (Cons h hops)
  then have "res_sent (resp_step h r) = Some x" by (cases h) auto
  then show ?case by (simp add: Cons.IH)
qed simp

lemma quiet_fold:
  assumes "list_all quiet hops"
  shows "res_sent (fold resp_step hops r) = res_sent r"
    and "res_panic (fold resp_step hops r) = res_panic r"
    and "res_cookies (fold resp_step hops r) = res_cookies r @ cookies_of hops"
  using assms
proof (induction hops arbitrary: r)
  case (Cons h hops)
  {
    case 1
    then show ?case using Cons.IH(1) by (cases h) auto
  next
    case 2
    then show ?case using Cons.IH(2) by (cases h) auto
  next
    case 3
    then show ?case using Cons.IH(3) by (cases h) auto
  }
qed simp_all

lemma panic_fold: "res_panic (fold resp_step hops r) \<longleftrightarrow> res_panic r \<or> Panic \<in> set hops"
proof (induction hops arbitrary: r)
  case (Cons h hops)
  then show ?case by (cases h) auto
qed simp

text \<open>
  After calls that leave the header open, the next \<open>WriteHeader\<close> decides the status and
  sends exactly the cookies added so far, whatever follows.
\<close>

lemma client_status_decided:
  assumes "list_all quiet pre" and "Panic \<notin> set post"
  shows "client_status (pre @ WriteHeader c # post) = Some c"
    and "client_cookies (pre @ WriteHeader c # post) = cookies_of pre"
proof -
  let ?r = "fold resp_step pre fresh_response"
  have r: "res_sent ?r = None" "res_panic ?r = False" "res_cookies ?r = cookies_of pre"
    by (simp_all add: quiet_fold [OF assms(1)] fresh_response_def)
  then have s: "res_sent (fold resp_step post (send_header c ?r)) = Some (c, res_header ?r, cookies_of pre)"
    by (intro sent_stays) simp
  have "\<not> res_panic (fold resp_step post (send_header c ?r))"
    using r(2) assms(2) by (simp add: panic_fold)
  with s show "client_status (pre @ WriteHeader c # post) = Some c"
    by (simp add: client_status_def client_view_def)
  from s show "client_cookies (pre @ WriteHeader c # post) = cookies_of pre"
    by (simp add: client_cookies_def client_view_def)
qed

lemma client_status_panic: "Panic \<in> set hops \<Longrightarrow> client_status hops = None"
  by (simp add: client_status_def client_view_def panic_fold)

lemma map_of_filter_key: "k' \<noteq> k \<Longrightarrow> map_of (filter (\<lambda>h. fst h \<noteq> k) hs) k' = map_of hs k'"
  by (induction hs) auto

lemma map_of_set_header [simp]: "map_of (set_header k v hs) k' = (if k' = k then Some v else map_of hs k')"
  by (auto simp: set_header_def map_of_filter_key)

lemma client_header_decided:
  assumes "list_all quiet pre"
  shows "client_header (pre @ WriteHeader c # post) k = map_of (res_header (fold resp_step pre fresh_response)) k"
proof -
  let ?r = "fold resp_step pre fresh_response"
  have "res_sent ?r = None" by (simp add: quiet_fold [OF assms] fresh_response_def)
  then have "res_sent (fold resp_step post (send_header c ?r)) = Some (c, res_header ?r, res_cookies ?r)"
    by (intro sent_stays) simp
  then show ?thesis by (simp add: client_header_def client_view_def)
qed

text \<open>A redirect after calls that left the header open.\<close>

lemma redirect_client:
  assumes "list_all quiet pre"
  shows "client_status (pre @ http_redirect meth url code) = Some code"
    and "client_cookies (pre @ http_redirect meth url code) = cookies_of pre"
    and "client_header (pre @ http_redirect meth url code) ''Location'' = Some url"
proof -
  define ct where "ct = (if meth \<in> {''GET'', ''HEAD''}
    then [SetHeader ''Content-Type'' ''text/html; charset=utf-8''] else [])"
  obtain post where post: "Panic \<notin> set post"
    and eq: "http_redirect meth url code = (SetHeader ''Location'' url # ct) @ WriteHeader code # post"
    by (fastforce simp: http_redirect_def ct_def)
  let ?pre = "pre @ SetHeader ''Location'' url # ct"
  have q: "list_all quiet ?pre" and ck: "cookies_of ?pre = cookies_of pre"
    using assms by (auto simp: ct_def)
  have split: "pre @ http_redirect meth url code = ?pre @ WriteHeader code # post"
    by (simp add: eq)
  show "client_status (pre @ http_redirect meth url code) = Some code"
    unfolding split by (rule client_status_decided(1) [OF q post])
  show "client_cookies (pre @ http_redirect meth url code) = cookies_of pre"
    unfolding split client_status_decided(2) [OF q post] by (rule ck)
  show "client_header (pre @ http_redirect meth url code) ''Location'' = Some url"
    unfolding split client_header_decided [OF q] by (simp add: ct_def)
qed

end
