(* ===== verification/Zlogger.thy ===== *)
theory Zlogger
  imports Go_Http
begin

text \<open>
  Package \<open>zlogger\<close> (\<open>zlogger/logger.go\<close>, \<open>zlogger/status.go\<close>): the logger that is shared by
  all requests, the error replies, the status recorder and the logging middleware.

  The embedded \<open>zap.Logger\<close> is a sink: what the model keeps of it is its level and the entries
  handed to it. The instant of a reply and the latency enter as strings already formatted.
\<close>

section \<open>Levels\<close>

text \<open>The levels of the comment of \<open>NewLogger\<close>, in increasing order of severity.\<close>

datatype log_level = Debug | Info | Warn | Error | DPanic | PanicLevel | Fatal

fun severity :: "log_level \<Rightarrow> nat" where
  "severity Debug = 0"
| "severity Info = 1"
| "severity Warn = 2"
| "severity Error = 3"
| "severity DPanic = 4"
| "severity PanicLevel = 5"
| "severity Fatal = 6"

lemma severity_inject [simp]: "severity a = severity b \<longleftrightarrow> a = b"
  by (cases a; cases b) simp_all

instantiation log_level :: linorder
begin

definition less_eq_log_level :: "log_level \<Rightarrow> log_level \<Rightarrow> bool" where
  "a \<le> b \<longleftrightarrow> severity a \<le> severity b"

definition less_log_level :: "log_level \<Rightarrow> log_level \<Rightarrow> bool" where
  "a < b \<longleftrightarrow> severity a < severity b"

instance
  by standard (auto simp: less_eq_log_level_def less_log_level_def)

end

section \<open>The logger and its context\<close>

record logger =
  lastErr :: "go_error option"
  lastErrDescription :: string
  traceID :: string
  spanID :: string

definition new_logger :: logger where
  "new_logger = \<lparr>lastErr = None, lastErrDescription = [], traceID = [], spanID = []\<rparr>"

text \<open>Of a context the model has the logger stored in it; \<open>NewContext\<close> hides what the parent had.\<close>

definition NewContext :: "logger option \<Rightarrow> logger \<Rightarrow> logger option" where
  "NewContext parent z = Some z"

text \<open>
  \<open>FromContext\<close>: the logger stored in the context by \<open>NewContext\<close> or by the middleware, its
  trace fields overwritten with those of the context's span. Without a logger in the context
  the type assertion leaves a nil pointer, and both branches that follow write through it:
  \<open>None\<close> is that panic.
\<close>

definition FromContext :: "logger option \<Rightarrow> string \<Rightarrow> string \<Rightarrow> logger option" where [http_defs]:
  "FromContext stored tid sid =
     (case stored of
        None \<Rightarrow> None
      | Some l \<Rightarrow> Some (l\<lparr>traceID := tid, spanID := sid\<rparr>))"

definition SetError :: "string \<Rightarrow> go_error option \<Rightarrow> logger \<Rightarrow> logger" where [http_defs]:
  "SetError description err l = l\<lparr>lastErrDescription := description, lastErr := err\<rparr>"

datatype field_value = FInt nat | FStr string | FErr go_error

record log_entry =
  entry_level :: log_level
  entry_message :: string
  entry_fields :: "(string \<times> field_value) list"

section \<open>NewLogger\<close>

text \<open>
  What \<open>NewLogger\<close> sets up of \<open>zap\<close>. The two default encoder configurations and the parser of level
  names (\<open>zapcore.Level.Set\<close>) belong to that library and are parameters; of an encoder configuration
  the model has the fields the code overwrites and the name of the default the rest comes from.
\<close>

datatype time_encoder = ISO8601TimeEncoder | OtherTimeEncoder string
datatype level_encoder = LowercaseLevelEncoder | OtherLevelEncoder string
datatype encoder_kind = JSONEncoder | ConsoleEncoder

record encoder_config =
  EncodeTime :: time_encoder
  EncodeLevel :: level_encoder
  MessageKey :: string
  CallerKey :: string
  other_fields :: string

record zap_lib =
  NewProductionEncoderConfig :: encoder_config
  NewDevelopmentEncoderConfig :: encoder_config
  level_Set :: "string \<Rightarrow> log_level result"

record zap_logger =
  zap_encoder :: encoder_kind
  zap_config :: encoder_config
  zap_level :: log_level
  zap_caller_skip :: nat
  zap_stacktrace :: log_level
  zap_development :: bool

definition NewLogger :: "zap_lib \<Rightarrow> string \<Rightarrow> bool \<Rightarrow> (zap_logger \<times> logger) result" where
  "NewLogger lib level production =
     (let encoderConfig = (if production then NewProductionEncoderConfig lib else NewDevelopmentEncoderConfig lib)
            \<lparr>EncodeTime := ISO8601TimeEncoder, EncodeLevel := LowercaseLevelEncoder,
             MessageKey := ''message'', CallerKey := []\<rparr>;
          encoder = (if production then JSONEncoder else ConsoleEncoder)
      in and_then (level_Set lib level) (\<lambda>l.
           Inr (\<lparr>zap_encoder = encoder, zap_config = encoderConfig, zap_level = l, zap_caller_skip = 1,
                 zap_stacktrace = Error, zap_development = \<not> production\<rparr>, new_logger)))"

text \<open>Entries below the level of the logger are dropped.\<close>

definition zap_write :: "zap_logger \<Rightarrow> log_entry \<Rightarrow> log_entry list" where
  "zap_write z e = (if zap_level z \<le> entry_level e then [e] else [])"

text \<open>What \<open>Sync\<close> writes before it flushes.\<close>

definition Sync :: "zap_logger \<Rightarrow> log_entry list" where
  "Sync z = zap_write z \<lparr>entry_level = Debug, entry_message = ''shutting down the logger'', entry_fields = []\<rparr>"

section \<open>JsonError\<close>

fun show_nat :: "nat \<Rightarrow> string" where
  "show_nat n = (if n < 10 then [char_of (48 + n)] else show_nat (n div 10) @ [char_of (48 + n mod 10)])"

declare show_nat.simps [simp del]

definition lower_hex :: string where
  "lower_hex = ''0123456789abcdef''"

text \<open>
  A string of \<open>encoding/json\<close> with HTML escaping, for ASCII text (the descriptions and status
  texts of the code).
\<close>

definition json_char :: "char \<Rightarrow> string" where
  "json_char c =
     (if c = CHR 0x22 \<or> c = CHR 0x5C then [CHR 0x5C, c]
      else if c = CHR 0x0A then [CHR 0x5C, CHR ''n'']
      else if c = CHR 0x0D then [CHR 0x5C, CHR ''r'']
      else if c = CHR 0x09 then [CHR 0x5C, CHR ''t'']
      else if of_char c < (32::nat) \<or> c \<in> set ''<>&'' then
        CHR 0x5C # ''u00'' @ [lower_hex ! (of_char c div 16), lower_hex ! (of_char c mod 16)]
      else [c])"

definition json_string :: "string \<Rightarrow> string" where
  "json_string s = [CHR 0x22] @ concat (map json_char s) @ [CHR 0x22]"

text \<open>The reply body; \<open>message\<close> is left out when it is empty (\<open>omitempty\<close>).\<close>

definition error_body :: "nat \<Rightarrow> string \<Rightarrow> string \<Rightarrow> string" where
  "error_body code description timestamp =
     ''{'' @ json_string ''code'' @ '':'' @ show_nat code
     @ '','' @ json_string ''status'' @ '':'' @ json_string (StatusText code)
     @ (if description = [] then []
        else '','' @ json_string ''message'' @ '':'' @ json_string description)
     @ '','' @ json_string ''timestamp'' @ '':'' @ json_string timestamp
     @ ''}'' @ [CHR 0x0A]"

definition JsonError :: "string \<Rightarrow> nat \<Rightarrow> string \<Rightarrow> go_error option \<Rightarrow> hop list" where [http_defs]:
  "JsonError timestamp code description err =
     [SetErr description err,
      SetHeader ''Content-Type'' ''application/json; charset=utf-8'',
      SetHeader ''X-Content-Type-Options'' ''nosniff'',
      WriteHeader code,
      Write (error_body code description timestamp)]"

section \<open>The status recorder\<close>

record status_recorder =
  Status :: nat
  Written :: nat

definition recorder_WriteHeader :: "nat \<Rightarrow> status_recorder \<Rightarrow> status_recorder" where [http_defs]:
  "recorder_WriteHeader status r = r\<lparr>Status := status\<rparr>"

text \<open>The count of the last call replaces the one before it.\<close>

definition recorder_Write :: "string \<Rightarrow> status_recorder \<Rightarrow> status_recorder" where [http_defs]:
  "recorder_Write b r = r\<lparr>Written := length b\<rparr>"

section \<open>The middleware\<close>

text \<open>What one call of a handler does to the shared logger and to its own recorder.\<close>

fun logger_step :: "hop \<Rightarrow> logger \<Rightarrow> logger" where
  "logger_step (FromCtx tid sid) l =
     (case FromContext (Some l) tid sid of None \<Rightarrow> l | Some l' \<Rightarrow> l')"
| "logger_step (SetErr d e) l = SetError d e l"
| "logger_step _ l = l"

fun recorder_step :: "hop \<Rightarrow> status_recorder \<Rightarrow> status_recorder" where
  "recorder_step (WriteHeader c) r = recorder_WriteHeader c r"
| "recorder_step (Write b) r = recorder_Write b r"
| "recorder_step _ r = r"

record request_info =
  info_method :: string
  info_uri :: string
  info_host :: string
  info_referer :: string
  info_real_ip :: "string option"
  info_proto :: string
  info_user_agent :: string

definition log_fields :: "request_info \<Rightarrow> string \<Rightarrow> status_recorder \<Rightarrow> logger \<Rightarrow> (string \<times> field_value) list" where
  "log_fields q latency r l =
     [(''status'', FInt (Status r)), (''size'', FInt (Written r)), (''latency'', FStr latency),
      (''method'', FStr (info_method q)), (''uri'', FStr (info_uri q)), (''host'', FStr (info_host q))]
     @ (if traceID l \<noteq> [] then [(''trace-id'', FStr (traceID l))] else [])
     @ (if spanID l \<noteq> [] then [(''trace-id'', FStr (spanID l))] else [])
     @ (if info_referer q \<noteq> [] then [(''referer'', FStr (info_referer q))] else [])
     @ (case info_real_ip q of Some ip \<Rightarrow> [(''remote_ip'', FStr ip)] | None \<Rightarrow> [])
     @ [(''protocol'', FStr (info_proto q)), (''user_agent'', FStr (info_user_agent q))]
     @ (case lastErr l of Some e \<Rightarrow> [(''error'', FErr e)] | None \<Rightarrow> [])"

definition log_message :: "status_recorder \<Rightarrow> logger \<Rightarrow> string" where
  "log_message r l =
     (if lastErrDescription l \<noteq> [] then StatusText (Status r) @ '': '' @ lastErrDescription l
      else StatusText (Status r))"

definition status_level :: "nat \<Rightarrow> log_level" where
  "status_level status =
     (if status \<ge> 500 then Error
      else if status \<ge> 400 then Warn
      else if status \<ge> 300 then Info
      else Info)"

definition log_request :: "request_info \<Rightarrow> string \<Rightarrow> status_recorder \<Rightarrow> logger \<Rightarrow> log_entry" where
  "log_request q latency r l =
     \<lparr>entry_level = status_level (Status r), entry_message = log_message r l,
      entry_fields = log_fields q latency r l\<rparr>"

text \<open>The deferred function.\<close>

definition clean_logger :: "logger \<Rightarrow> logger" where
  "clean_logger l = l\<lparr>lastErrDescription := [], lastErr := None\<rparr>"

text \<open>
  One request served alone: the handler's calls run on the logger and on a recorder that
  starts at status 200, then the entry is written (unless the handler panicked) and the
  deferred function cleans the logger.
\<close>

definition Middleware :: "request_info \<Rightarrow> string \<Rightarrow> hop list \<Rightarrow> logger \<Rightarrow> log_entry option \<times> logger" where
  "Middleware q latency hops l =
     (let l' = fold logger_step hops l;
          r = fold recorder_step hops \<lparr>Status = 200, Written = 0\<rparr>
      in (if Panic \<in> set hops then None else Some (log_request q latency r l'), clean_logger l'))"

end
