(* ===== verification/Session_Data.thy ===== *)
theory Session_Data
  imports Go_Prelude
begin

text \<open>
  \<open>database/database.go\<close>: the data of a session, its expiry test, and the encryption of its
  tokens. The cipher is the third-party interface \<open>encryption.HexCipher\<close>: it is a parameter,
  a record of its two methods (encryption draws a fresh nonce, so its result depends on one);
  \<open>None\<close> is the nil interface. What is assumed of a cipher is \<open>cipher_correct\<close>.
\<close>

definition ErrSessionsMismatch :: go_error where [err_defs]:
  "ErrSessionsMismatch = ErrVar ''database.ErrSessionsMismatch'' ''the old and new session do not match''"

record session_data =
  Subject :: string
  AccessToken :: string
  RefreshToken :: string
  IDToken :: string
  ExpiresAt :: time

text \<open>The zero value \<open>SessionData{}\<close>.\<close>

definition empty_session_data :: session_data where
  "empty_session_data =
     \<lparr>Subject = [], AccessToken = [], RefreshToken = [], IDToken = [], ExpiresAt = zero_time\<rparr>"

text \<open>\<open>now.After(d.ExpiresAt)\<close>\<close>

definition IsExpired :: "time \<Rightarrow> session_data \<Rightarrow> bool" where
  "IsExpired now d \<longleftrightarrow> ExpiresAt d < now"

section \<open>Encryption\<close>

type_synonym nonce = string

record cipher =
  EncryptToHexString :: "nonce \<Rightarrow> string \<Rightarrow> string result"
  DecryptFromHexString :: "string \<Rightarrow> string result"

definition cipher_correct :: "cipher option \<Rightarrow> bool" where
  "cipher_correct c \<longleftrightarrow>
     (case c of
        None \<Rightarrow> True
      | Some k \<Rightarrow> (\<forall>n p x. EncryptToHexString k n p = Inr x \<longrightarrow> DecryptFromHexString k x = Inr p))"

record nonces =
  nonce_access :: nonce
  nonce_refresh :: nonce
  nonce_id :: nonce

definition encryptArgs :: "cipher option \<Rightarrow> nonces \<Rightarrow> session_data \<Rightarrow> session_data result" where
  "encryptArgs cipher ns s =
     (case cipher of
        None \<Rightarrow> Inr s
      | Some c \<Rightarrow>
          and_then
            (map_err (\<lambda>e. Wrapf ''cannot encrypt access token: %w'' e [])
               (EncryptToHexString c (nonce_access ns) (AccessToken s)))
            (\<lambda>encAccessToken.
          and_then
            (map_err (\<lambda>e. Wrapf ''cannot encrypt refresh token: %w'' e [])
               (EncryptToHexString c (nonce_refresh ns) (RefreshToken s)))
            (\<lambda>encRefreshToken.
          and_then
            (map_err (\<lambda>e. Wrapf ''cannot encrypt id token: %w'' e [])
               (EncryptToHexString c (nonce_id ns) (IDToken s)))
            (\<lambda>encIDToken.
          Inr \<lparr>Subject = Subject s, AccessToken = encAccessToken, RefreshToken = encRefreshToken,
               IDToken = encIDToken, ExpiresAt = ExpiresAt s\<rparr>))))"

definition decryptArgs :: "cipher option \<Rightarrow> session_data \<Rightarrow> session_data result" where
  "decryptArgs cipher s =
     (case cipher of
        None \<Rightarrow> Inr s
      | Some c \<Rightarrow>
          and_then
            (map_err (\<lambda>e. Wrapf ''cannot decrypt access token: %w'' e [])
               (DecryptFromHexString c (AccessToken s)))
            (\<lambda>decAccessToken.
          and_then
            (map_err (\<lambda>e. Wrapf ''cannot decrypt refresh token: %w'' e [])
               (DecryptFromHexString c (RefreshToken s)))
            (\<lambda>decRefreshToken.
          and_then
            (map_err (\<lambda>e. Wrapf ''cannot decrypt id token: %w'' e [])
               (DecryptFromHexString c (IDToken s)))
            (\<lambda>decIDToken.
          Inr \<lparr>Subject = Subject s, AccessToken = decAccessToken, RefreshToken = decRefreshToken,
               IDToken = decIDToken, ExpiresAt = ExpiresAt s\<rparr>))))"

section \<open>Lemmas\<close>

lemma encryptArgs_keeps:
  "encryptArgs c ns s = Inr s' \<Longrightarrow> Subject s' = Subject s \<and> ExpiresAt s' = ExpiresAt s"
  by (auto simp: encryptArgs_def and_then_Inr_iff split: option.splits)

lemma decryptArgs_keeps:
  "decryptArgs c s = Inr s' \<Longrightarrow> Subject s' = Subject s \<and> ExpiresAt s' = ExpiresAt s"
  by (auto simp: decryptArgs_def and_then_Inr_iff split: option.splits)

text \<open>The expiry is not encrypted, so a row may be decrypted before or after it is rounded.\<close>

lemma decryptArgs_ExpiresAt:
  "decryptArgs c (s\<lparr>ExpiresAt := t\<rparr>) = map_sum id (\<lambda>d. d\<lparr>ExpiresAt := t\<rparr>) (decryptArgs c s)"
  by (auto simp: decryptArgs_def and_then_def map_err_def split: option.splits sum.splits)

lemma decrypt_encrypt:
  assumes "cipher_correct c" and "encryptArgs c ns s = Inr s'"
  shows "decryptArgs c s' = Inr s"
proof (cases c)
  case None
  with assms show ?thesis by (simp add: encryptArgs_def decryptArgs_def)
next
  case (Some k)
  with assms(2) obtain a r i where
    enc: "EncryptToHexString k (nonce_access ns) (AccessToken s) = Inr a"
      "EncryptToHexString k (nonce_refresh ns) (RefreshToken s) = Inr r"
      "EncryptToHexString k (nonce_id ns) (IDToken s) = Inr i"
    and s': "s' = \<lparr>Subject = Subject s, AccessToken = a, RefreshToken = r, IDToken = i, ExpiresAt = ExpiresAt s\<rparr>"
    by (auto simp: encryptArgs_def and_then_Inr_iff)
  from assms(1) Some have "\<And>n p x. EncryptToHexString k n p = Inr x \<Longrightarrow> DecryptFromHexString k x = Inr p"
    by (simp add: cipher_correct_def)
  with enc have "DecryptFromHexString k a = Inr (AccessToken s)"
    "DecryptFromHexString k r = Inr (RefreshToken s)" "DecryptFromHexString k i = Inr (IDToken s)"
    by blast+
  then show ?thesis by (simp add: Some s' decryptArgs_def)
qed

end
