(* ===== verification/Sql_Sessions.thy ===== *)
theory Sql_Sessions
  imports Session_Data
begin

text \<open>
  The table \<open>sessions\<close> and the statements the two back ends send to it, read off the SQL text
  of \<open>database/sqlite.go\<close> and \<open>database/postgresql.go\<close>. The statements are the same in both;
  the \<open>CREATE TABLE\<close> statements are not, so what a row must satisfy (\<open>row_check\<close>) is an
  argument of \<open>INSERT\<close> and \<open>UPDATE\<close>.

  Besides refusing a row, a statement can fail for reasons outside the code (lost connection,
  full disk, cancelled context): its environment gives that error as a \<open>fault\<close>. A statement
  that fails has no effect, as both engines run a single statement atomically.
\<close>

record sql_row =
  row_subject :: string
  row_access_token :: string
  row_refresh_token :: string
  row_id_token :: string
  row_expires_at :: int

type_synonym sessions_table = "string \<rightharpoonup> sql_row"

text \<open>A connection to the database: the table, and whether the connection is still open.\<close>

record store =
  table :: sessions_table
  conn_open :: bool

type_synonym row_check = "string \<Rightarrow> sql_row \<Rightarrow> stmt_failure option"

type_synonym fault = "go_error option"

section \<open>The statements\<close>

definition sql_insert :: "row_check \<Rightarrow> string \<Rightarrow> sql_row \<Rightarrow> sessions_table \<Rightarrow> sessions_table result" where
  "sql_insert check sid row t =
     (case check sid row of
        Some f \<Rightarrow> Inl (StmtErr f)
      | None \<Rightarrow> if t sid \<noteq> None then Inl (StmtErr UniqueViolation) else Inr (t(sid \<mapsto> row)))"

definition sql_delete :: "string \<Rightarrow> sessions_table \<Rightarrow> sessions_table result" where
  "sql_delete sid t = Inr (t(sid := None))"

definition sql_select :: "string \<Rightarrow> sessions_table \<Rightarrow> sql_row option" where
  "sql_select sid t = t sid"

text \<open>An \<open>UPDATE\<close> whose \<open>WHERE\<close> matches no row changes nothing and is no error.\<close>

definition sql_update :: "row_check \<Rightarrow> string \<Rightarrow> sql_row \<Rightarrow> sessions_table \<Rightarrow> sessions_table result" where
  "sql_update check sid row t =
     (case t sid of
        None \<Rightarrow> Inr t
      | Some _ \<Rightarrow> (case check sid row of
                    Some f \<Rightarrow> Inl (StmtErr f)
                  | None \<Rightarrow> Inr (t(sid \<mapsto> row))))"

definition sql_purge :: "int \<Rightarrow> sessions_table \<Rightarrow> sessions_table result" where
  "sql_purge now t =
     Inr (\<lambda>sid. case t sid of
                 None \<Rightarrow> None
               | Some row \<Rightarrow> if row_expires_at row < now then None else Some row)"

text \<open>Running a statement on a connection.\<close>

definition exec :: "go_error \<Rightarrow> fault \<Rightarrow> (sessions_table \<Rightarrow> sessions_table result) \<Rightarrow> store \<Rightarrow> unit result \<times> store" where
  "exec closed_error fault stmt s =
     (if \<not> conn_open s then (Inl closed_error, s)
      else case fault of
        Some e \<Rightarrow> (Inl e, s)
      | None \<Rightarrow> (case stmt (table s) of
                   Inl e \<Rightarrow> (Inl e, s)
                 | Inr t \<Rightarrow> (Inr (), s\<lparr>table := t\<rparr>)))"

definition query_row :: "go_error \<Rightarrow> go_error \<Rightarrow> fault \<Rightarrow> string \<Rightarrow> store \<Rightarrow> sql_row result" where
  "query_row closed_error no_rows fault sid s =
     (if \<not> conn_open s then Inl closed_error
      else case fault of
        Some e \<Rightarrow> Inl e
      | None \<Rightarrow> (case sql_select sid (table s) of None \<Rightarrow> Inl no_rows | Some row \<Rightarrow> Inr row))"

section \<open>Rows and session data\<close>

definition row_of :: "session_data \<Rightarrow> sql_row" where
  "row_of d =
     \<lparr>row_subject = Subject d, row_access_token = AccessToken d, row_refresh_token = RefreshToken d,
      row_id_token = IDToken d, row_expires_at = unix (ExpiresAt d)\<rparr>"

definition data_of :: "sql_row \<Rightarrow> session_data" where
  "data_of r =
     \<lparr>Subject = row_subject r, AccessToken = row_access_token r, RefreshToken = row_refresh_token r,
      IDToken = row_id_token r, ExpiresAt = from_unix (row_expires_at r)\<rparr>"

definition store_precision :: "session_data \<Rightarrow> session_data" where
  "store_precision d = d\<lparr>ExpiresAt := truncate_second (ExpiresAt d)\<rparr>"

text \<open>The sessions a store holds, decrypted: the abstract value of a store.\<close>

definition stored :: "cipher option \<Rightarrow> store \<Rightarrow> string \<Rightarrow> session_data option" where
  "stored c s sid =
     (case table s sid of
        None \<Rightarrow> None
      | Some row \<Rightarrow> (case decryptArgs c (data_of row) of Inl _ \<Rightarrow> None | Inr d \<Rightarrow> Some d))"

definition ids :: "store \<Rightarrow> string set" where
  "ids s = dom (table s)"

section \<open>Lemmas\<close>

lemma data_of_row_of: "data_of (row_of d) = store_precision d"
  by (simp add: data_of_def row_of_def store_precision_def truncate_second_def)

lemma decrypt_row_of_encrypted:
  assumes "cipher_correct c" and "encryptArgs c ns d = Inr e"
  shows "decryptArgs c (data_of (row_of e)) = Inr (store_precision d)"
  using decrypt_encrypt [OF assms] encryptArgs_keeps [OF assms(2)]
  by (simp add: data_of_row_of store_precision_def decryptArgs_ExpiresAt)

lemma stored_ids: "stored c s sid = Some d \<Longrightarrow> sid \<in> ids s"
  by (auto simp: stored_def ids_def split: option.splits)

lemma stored_update [simp]:
  "stored c (s\<lparr>table := (table s)(sid \<mapsto> row)\<rparr>) =
     (stored c s)(sid := (case decryptArgs c (data_of row) of Inl _ \<Rightarrow> None | Inr d \<Rightarrow> Some d))"
  "stored c (s\<lparr>table := (table s)(sid := None)\<rparr>) = (stored c s)(sid := None)"
  by (auto simp: stored_def fun_eq_iff)

lemma stored_keep [simp]: "stored c (s\<lparr>table := table s\<rparr>) = stored c s"
  by simp

lemma exec_cases:
  assumes "exec ce f stmt s = (r, s')"
  obtains (failed) e where "r = Inl e" "s' = s"
    | (ok) t where "r = Inr ()" "conn_open s" "f = None" "stmt (table s) = Inr t" "s' = s\<lparr>table := t\<rparr>"
  using assms by (auto simp: exec_def split: if_splits option.splits sum.splits)

lemma exec_Inr_iff:
  "exec ce f stmt s = (Inr u, s') \<longleftrightarrow>
     conn_open s \<and> f = None \<and> (\<exists>t. stmt (table s) = Inr t \<and> s' = s\<lparr>table := t\<rparr>)"
  by (auto simp: exec_def split: if_splits option.splits sum.splits)

lemma exec_Inl_state: "exec ce f stmt s = (Inl e, s') \<Longrightarrow> s' = s"
  by (auto simp: exec_def split: if_splits option.splits sum.splits)

lemma query_row_Inr_iff:
  "query_row ce nr f sid s = Inr row \<longleftrightarrow> conn_open s \<and> f = None \<and> table s sid = Some row"
  by (auto simp: query_row_def sql_select_def split: option.splits)

lemma stored_expiry:
  "stored c s sid = Some d \<Longrightarrow> \<exists>row. table s sid = Some row \<and> ExpiresAt d = from_unix (row_expires_at row)"
  by (auto simp: stored_def data_of_def dest: decryptArgs_keeps split: option.splits sum.splits)

lemma ids_simps [simp]:
  "ids (s\<lparr>table := (table s)(sid \<mapsto> row)\<rparr>) = insert sid (ids s)"
  "ids (s\<lparr>table := (table s)(sid := None)\<rparr>) = ids s - {sid}"
  by (auto simp: ids_def)

lemma stored_new_row:
  assumes "cipher_correct c" "encryptArgs c ns d = Inr enc"
  shows "stored c (st\<lparr>table := (table st)(sid \<mapsto> row_of enc)\<rparr>) sid = Some (store_precision d)"
  using decrypt_row_of_encrypted [OF assms] by simp

lemma stored_new_row_subject:
  assumes "encryptArgs c ns d = Inr enc"
    and "stored c (st\<lparr>table := (table st)(sid \<mapsto> row_of enc)\<rparr>) sid = Some d'"
  shows "Subject d' = Subject d"
  using assms encryptArgs_keeps [OF assms(1)]
  by (auto simp: data_of_row_of store_precision_def dest!: decryptArgs_keeps split: sum.splits)

lemma stored_purge_at:
  assumes "sql_purge now t = Inr t'"
  shows "stored c (st\<lparr>table := t'\<rparr>) sid =
     (case stored c (st\<lparr>table := t\<rparr>) sid of
        None \<Rightarrow> None
      | Some d \<Rightarrow> if unix (ExpiresAt d) < now then None else Some d)"
proof -
  have "t' sid = (case t sid of None \<Rightarrow> None
      | Some row \<Rightarrow> if row_expires_at row < now then None else Some row)"
    using assms by (auto simp: sql_purge_def)
  then show ?thesis
    by (auto simp: stored_def data_of_def dest: decryptArgs_keeps split: option.splits sum.splits)
qed

lemma ids_purge: "sql_purge now t = Inr t' \<Longrightarrow> ids (st\<lparr>table := t'\<rparr>) \<subseteq> ids (st\<lparr>table := t\<rparr>)"
  by (auto simp: sql_purge_def ids_def split: option.splits)

end
