(* ===== verification/Session_Impl.thy ===== *)
theory Session_Impl
  imports Sql_Sessions
begin

text \<open>
  The interface \<open>database.SessionImpl\<close> of \<open>database/database.go\<close> as a record of its methods,
  and the contract its users rely on, as the locale \<open>session_store\<close>. The two back ends
  interpret the locale in their own theories.

  The contract is stated over two abstractions of a back end's state: \<open>view\<close>, the sessions it
  can give back, and \<open>known\<close>, the session ids it holds a row for (a row whose tokens no longer
  decrypt is known but not in the view). \<open>reliable\<close> is what must hold of the back end's
  parameters for a session to be read back as it was written: a correct cipher.
\<close>

section \<open>The interface\<close>

text \<open>What one call draws from its surroundings: a UUID, nonces, the clock, failures.\<close>

record db_env =
  env_uuid :: string
  env_nonces :: nonces
  env_now :: time
  env_get_fault :: fault
  env_fault :: fault

record 's session_impl =
  CloseConnection :: "db_env \<Rightarrow> 's \<Rightarrow> unit result \<times> 's"
  Add :: "db_env \<Rightarrow> session_data \<Rightarrow> 's \<Rightarrow> string result \<times> 's"
  Delete :: "db_env \<Rightarrow> string \<Rightarrow> 's \<Rightarrow> unit result \<times> 's"
  Get :: "db_env \<Rightarrow> string \<Rightarrow> 's \<Rightarrow> session_data result"
  Update :: "db_env \<Rightarrow> string \<Rightarrow> session_data \<Rightarrow> 's \<Rightarrow> unit result \<times> 's"
  Purge :: "db_env \<Rightarrow> 's \<Rightarrow> unit result \<times> 's"

section \<open>Histories of calls\<close>

datatype db_call =
    CallAdd db_env session_data
  | CallDelete db_env string
  | CallGet db_env string
  | CallUpdate db_env string session_data
  | CallPurge db_env

fun run_call :: "'s session_impl \<Rightarrow> db_call \<Rightarrow> 's \<Rightarrow> 's" where
  "run_call I (CallAdd env d) s = snd (Add I env d s)"
| "run_call I (CallDelete env sid) s = snd (Delete I env sid s)"
| "run_call I (CallGet env sid) s = s"
| "run_call I (CallUpdate env sid d) s = snd (Update I env sid d s)"
| "run_call I (CallPurge env) s = snd (Purge I env s)"

definition run_calls :: "'s session_impl \<Rightarrow> db_call list \<Rightarrow> 's \<Rightarrow> 's" where
  "run_calls I cs s = fold (run_call I) cs s"

fun uuid_of_call :: "db_call \<Rightarrow> string option" where
  "uuid_of_call (CallAdd env d) = Some (env_uuid env)"
| "uuid_of_call _ = None"

lemma run_calls_simps [simp]:
  "run_calls I [] s = s"
  "run_calls I (c # cs) s = run_calls I cs (run_call I c s)"
  by (simp_all add: run_calls_def)

section \<open>The abstract session map\<close>

text \<open>What each operation does to the map of sessions when it succeeds.\<close>

type_synonym session_map = "string \<Rightarrow> session_data option"

definition spec_purge :: "time \<Rightarrow> session_map \<Rightarrow> session_map" where
  "spec_purge now m =
     (\<lambda>sid. case m sid of
              None \<Rightarrow> None
            | Some d \<Rightarrow> if unix (ExpiresAt d) < unix now then None else Some d)"

lemma stored_purge:
  "sql_purge (unix now) (table st) = Inr t' \<Longrightarrow>
     stored c (st\<lparr>table := t'\<rparr>) = spec_purge now (stored c st)"
  by (simp add: fun_eq_iff spec_purge_def stored_purge_at)

section \<open>The contract\<close>

locale session_store =
  fixes I :: "'s session_impl"
    and view :: "'s \<Rightarrow> session_map"
    and known :: "'s \<Rightarrow> string set"
    and ready :: "'s \<Rightarrow> bool"
    and no_rows :: go_error
    and reliable :: bool
  assumes view_known: "view s sid = Some d \<Longrightarrow> sid \<in> known s"
    and Get_Inr: "Get I env sid s = Inr d \<Longrightarrow> view s sid = Some d"
    and Get_view: "ready s \<Longrightarrow> env_fault env = None \<Longrightarrow> view s sid = Some d \<Longrightarrow> Get I env sid s = Inr d"
    and Get_unknown: "ready s \<Longrightarrow> env_fault env = None \<Longrightarrow> sid \<notin> known s \<Longrightarrow> Get I env sid s = Inl no_rows"
    and Add_Inr: "Add I env d s = (Inr sid, s') \<Longrightarrow>
          sid = env_uuid env \<and> sid \<notin> known s \<and> known s' = insert sid (known s) \<and>
          (\<forall>x. x \<noteq> sid \<longrightarrow> view s' x = view s x)"
    and Add_view: "reliable \<Longrightarrow> Add I env d s = (Inr sid, s') \<Longrightarrow> view s' sid = Some (store_precision d)"
    and Add_Inl: "Add I env d s = (Inl e, s') \<Longrightarrow> s' = s"
    and Update_Inr: "Update I env sid d s = (Inr (), s') \<Longrightarrow>
          (\<exists>old. view s sid = Some old \<and> Subject old = Subject d) \<and> known s' = known s \<and>
          (\<forall>x. x \<noteq> sid \<longrightarrow> view s' x = view s x)"
    and Update_view: "reliable \<Longrightarrow> Update I env sid d s = (Inr (), s') \<Longrightarrow> view s' sid = Some (store_precision d)"
    and Update_subject: "Update I env sid d s = (Inr (), s') \<Longrightarrow> view s' sid = Some d' \<Longrightarrow> Subject d' = Subject d"
    and Update_Inl: "Update I env sid d s = (Inl e, s') \<Longrightarrow> s' = s"
    and Delete_Inr: "Delete I env sid s = (Inr (), s') \<Longrightarrow>
          known s' = known s - {sid} \<and> view s' = (view s)(sid := None)"
    and Delete_Inl: "Delete I env sid s = (Inl e, s') \<Longrightarrow> s' = s"
    and Purge_Inr: "Purge I env s = (Inr (), s') \<Longrightarrow>
          known s' \<subseteq> known s \<and> view s' = spec_purge (env_now env) (view s)"
    and Purge_Inl: "Purge I env s = (Inl e, s') \<Longrightarrow> s' = s"
begin

lemma failed_call_keeps_state:
  "fst (Add I env d s) = Inl e \<Longrightarrow> snd (Add I env d s) = s"
  "fst (Update I env sid d s) = Inl e \<Longrightarrow> snd (Update I env sid d s) = s"
  "fst (Delete I env sid s) = Inl e \<Longrightarrow> snd (Delete I env sid s) = s"
  "fst (Purge I env s) = Inl e \<Longrightarrow> snd (Purge I env s) = s"
  by (metis prod.collapse Add_Inl, metis prod.collapse Update_Inl,
      metis prod.collapse Delete_Inl, metis prod.collapse Purge_Inl)

text \<open>Each call either leaves the state alone or succeeded with the effect of its law.\<close>

lemma call_cases:
  obtains (unchanged) "run_call I c s = s"
    | (added) env d sid where "c = CallAdd env d" "Add I env d s = (Inr sid, run_call I c s)"
    | (deleted) env sid where "c = CallDelete env sid" "Delete I env sid s = (Inr (), run_call I c s)"
    | (updated) env sid d where "c = CallUpdate env sid d" "Update I env sid d s = (Inr (), run_call I c s)"
    | (purged) env where "c = CallPurge env" "Purge I env s = (Inr (), run_call I c s)"
proof (cases c)
  case (CallAdd env d)
  show thesis
  proof (cases "fst (Add I env d s)")
    case Inl
    then show thesis using unchanged CallAdd by (simp add: failed_call_keeps_state)
  next
    case (Inr sid)
    then show thesis using added CallAdd by (metis prod.collapse run_call.simps(1))
  qed
next
  case (CallDelete env sid)
  show thesis
  proof (cases "fst (Delete I env sid s)")
    case Inl
    then show thesis using unchanged CallDelete by (simp add: failed_call_keeps_state)
  next
    case (Inr u)
    then show thesis using deleted CallDelete by (metis prod.collapse run_call.simps(2) unit.exhaust)
  qed
next
  case (CallGet env sid)
  then show thesis using unchanged by simp
next
  case (CallUpdate env sid d)
  show thesis
  proof (cases "fst (Update I env sid d s)")
    case Inl
    then show thesis using unchanged CallUpdate by (simp add: failed_call_keeps_state)
  next
    case (Inr u)
    then show thesis using updated CallUpdate by (metis prod.collapse run_call.simps(4) unit.exhaust)
  qed
next
  case (CallPurge env)
  show thesis
  proof (cases "fst (Purge I env s)")
    case Inl
    then show thesis using unchanged CallPurge by (simp add: failed_call_keeps_state)
  next
    case (Inr u)
    then show thesis using purged CallPurge by (metis prod.collapse run_call.simps(5) unit.exhaust)
  qed
qed

lemma run_call_known:
  assumes "sid \<notin> known s" and "uuid_of_call c \<noteq> Some sid"
  shows "sid \<notin> known (run_call I c s)"
proof (cases c s rule: call_cases)
  case unchanged
  with assms show ?thesis by simp
next
  case (added env d sid')
  with assms show ?thesis using Add_Inr [OF added(2)] by auto
next
  case (deleted env sid')
  show ?thesis using assms Delete_Inr [OF deleted(2)] by auto
next
  case (updated env sid' d)
  show ?thesis using assms Update_Inr [OF updated(2)] by auto
next
  case (purged env)
  show ?thesis using assms Purge_Inr [OF purged(2)] by auto
qed

text \<open>A session that is gone stays gone: no call but an \<open>Add\<close> that draws its id brings it back.\<close>

lemma unknown_stays:
  assumes "sid \<notin> known s" and "Some sid \<notin> uuid_of_call ` set cs"
  shows "sid \<notin> known (run_calls I cs s)"
  using assms by (induction cs arbitrary: s) (auto simp: run_call_known)

lemma deleted_stays_deleted:
  assumes "Delete I env sid s = (Inr (), s')" and "Some sid \<notin> uuid_of_call ` set cs"
  shows "view (run_calls I cs s') sid = None"
proof -
  have "sid \<notin> known s'" using Delete_Inr [OF assms(1)] by simp
  then have "sid \<notin> known (run_calls I cs s')" using assms(2) by (rule unknown_stays)
  then show ?thesis using view_known by (metis not_None_eq)
qed

text \<open>While a session exists, nothing changes the subject it belongs to.\<close>

lemma run_call_subject:
  assumes "view s sid = Some d" and "view (run_call I c s) sid = Some d'"
  shows "Subject d' = Subject d"
proof (cases c s rule: call_cases)
  case unchanged
  with assms show ?thesis by simp
next
  case (added env x sid')
  have "sid \<noteq> sid'" using Add_Inr [OF added(2)] view_known [OF assms(1)] by auto
  with assms show ?thesis using Add_Inr [OF added(2)] by simp
next
  case (deleted env sid')
  show ?thesis using assms Delete_Inr [OF deleted(2)] by (auto split: if_splits)
next
  case (updated env sid' x)
  show ?thesis
  proof (cases "sid = sid'")
    case True
    have "view (run_call I c s) sid' = Some d'" using assms(2) True by simp
    then have "Subject d' = Subject x" by (rule Update_subject [OF updated(2)])
    moreover obtain old where "view s sid' = Some old" "Subject old = Subject x"
      using Update_Inr [OF updated(2)] by blast
    ultimately show ?thesis using assms(1) True by simp
  next
    case False
    then show ?thesis using assms Update_Inr [OF updated(2)] by simp
  qed
next
  case (purged env)
  show ?thesis using assms Purge_Inr [OF purged(2)]
    by (auto simp: spec_purge_def split: option.splits if_splits)
qed

lemma run_call_view_None:
  assumes "view s sid = None" and "uuid_of_call c \<noteq> Some sid"
  shows "view (run_call I c s) sid = None"
proof (cases c s rule: call_cases)
  case unchanged
  with assms show ?thesis by simp
next
  case (added env d sid')
  with assms show ?thesis using Add_Inr [OF added(2)] by auto
next
  case (deleted env sid')
  show ?thesis using assms Delete_Inr [OF deleted(2)] by auto
next
  case (updated env sid' d)
  then have "sid \<noteq> sid'" using Update_Inr [OF updated(2)] assms(1) by auto
  then show ?thesis using assms Update_Inr [OF updated(2)] by simp
next
  case (purged env)
  show ?thesis using assms Purge_Inr [OF purged(2)] by (simp add: spec_purge_def)
qed

lemma view_None_stays:
  assumes "view s sid = None" and "Some sid \<notin> uuid_of_call ` set cs"
  shows "view (run_calls I cs s) sid = None"
  using assms by (induction cs arbitrary: s) (auto simp: run_call_view_None)

lemma subject_stable:
  assumes "view s sid = Some d" and "Some sid \<notin> uuid_of_call ` set cs"
    and "view (run_calls I cs s) sid = Some d'"
  shows "Subject d' = Subject d"
  using assms
proof (induction cs arbitrary: s d)
  case (Cons c cs)
  show ?case
  proof (cases "view (run_call I c s) sid")
    case None
    then have "view (run_calls I cs (run_call I c s)) sid = None"
      using Cons.prems(2) by (intro view_None_stays) auto
    with Cons.prems(3) show ?thesis by simp
  next
    case (Some d1)
    have "Subject d' = Subject d1"
      using Cons.IH [OF Some] Cons.prems(2,3) by simp
    with run_call_subject [OF Cons.prems(1) Some] show ?thesis by simp
  qed
qed simp

end

end
