(* ===== verification/Sqlite.thy ===== *)
theory Sqlite
  imports Session_Impl
begin

text \<open>
  \<open>database/sqlite.go\<close>: the SQLite back end, its constructor with the package-level singleton,
  and the interpretation of the contract \<open>session_store\<close>. The span calls of OpenTelemetry only
  record what happens and are left out.
\<close>

definition SqlErrNoRows :: go_error where [err_defs]:
  "SqlErrNoRows = ErrVar ''sql.ErrNoRows'' ''sql: no rows in result set''"

definition SqlErrDBClosed :: go_error where [err_defs]:
  "SqlErrDBClosed = ErrVar ''sql.errDBClosed'' ''sql: database is closed''"

text \<open>The \<open>CHECK\<close> constraints of \<open>querySQLiteCreate\<close>; \<open>INTEGER\<close> holds any 64-bit value.\<close>

definition sqlite_row_check :: row_check where
  "sqlite_row_check sid row =
     (if row_subject row = [] \<or> row_access_token row = [] \<or> row_refresh_token row = [] \<or> row_id_token row = []
      then Some CheckViolation else None)"

section \<open>The operations\<close>

definition sqlite_CloseConnection :: "db_env \<Rightarrow> store \<Rightarrow> unit result \<times> store" where
  "sqlite_CloseConnection env st =
     (case env_fault env of
        Some e \<Rightarrow> (Inl e, st\<lparr>conn_open := False\<rparr>)
      | None \<Rightarrow> (Inr (), st\<lparr>conn_open := False\<rparr>))"

definition sqlite_Add :: "cipher option \<Rightarrow> db_env \<Rightarrow> session_data \<Rightarrow> store \<Rightarrow> string result \<times> store" where
  "sqlite_Add cipher env s st =
     (let sid = env_uuid env in
      case encryptArgs cipher (env_nonces env) s of
        Inl err \<Rightarrow> (Inl err, st)
      | Inr enc \<Rightarrow>
          (case exec SqlErrDBClosed (env_fault env) (sql_insert sqlite_row_check sid (row_of enc)) st of
             (Inl err, st') \<Rightarrow> (Inl err, st')
           | (Inr _, st') \<Rightarrow> (Inr sid, st')))"

definition sqlite_Delete :: "db_env \<Rightarrow> string \<Rightarrow> store \<Rightarrow> unit result \<times> store" where
  "sqlite_Delete env sid st =
     (case exec SqlErrDBClosed (env_fault env) (sql_delete sid) st of
        (Inl err, st') \<Rightarrow> (Inl err, st')
      | (Inr _, st') \<Rightarrow> (Inr (), st'))"

definition sqlite_Get :: "cipher option \<Rightarrow> fault \<Rightarrow> string \<Rightarrow> store \<Rightarrow> session_data result" where
  "sqlite_Get cipher fault sid st =
     (case query_row SqlErrDBClosed SqlErrNoRows fault sid st of
        Inl err \<Rightarrow> Inl err
      | Inr row \<Rightarrow> decryptArgs cipher (data_of row))"

text \<open>
  \<open>Update\<close> is not one statement: it reads and compares the subject, encrypts, and then writes.
  Other requests may run between its two halves.
\<close>

definition sqlite_Update_read :: "cipher option \<Rightarrow> db_env \<Rightarrow> string \<Rightarrow> session_data \<Rightarrow> store \<Rightarrow> session_data result" where
  "sqlite_Update_read cipher env sid s st =
     and_then (sqlite_Get cipher (env_get_fault env) sid st) (\<lambda>oldSession.
       if Subject s \<noteq> Subject oldSession then Inl ErrSessionsMismatch
       else encryptArgs cipher (env_nonces env) s)"

definition sqlite_Update_write :: "db_env \<Rightarrow> string \<Rightarrow> session_data \<Rightarrow> store \<Rightarrow> unit result \<times> store" where
  "sqlite_Update_write env sid enc st =
     (case exec SqlErrDBClosed (env_fault env) (sql_update sqlite_row_check sid (row_of enc)) st of
        (Inl err, st') \<Rightarrow> (Inl err, st')
      | (Inr _, st') \<Rightarrow> (Inr (), st'))"

definition sqlite_Update :: "cipher option \<Rightarrow> db_env \<Rightarrow> string \<Rightarrow> session_data \<Rightarrow> store \<Rightarrow> unit result \<times> store" where
  "sqlite_Update cipher env sid s st =
     (case sqlite_Update_read cipher env sid s st of
        Inl err \<Rightarrow> (Inl err, st)
      | Inr enc \<Rightarrow> sqlite_Update_write env sid enc st)"

definition sqlite_Purge :: "db_env \<Rightarrow> store \<Rightarrow> unit result \<times> store" where
  "sqlite_Purge env st =
     (let now = unix (env_now env) in
      case exec SqlErrDBClosed (env_fault env) (sql_purge now) st of
        (Inl err, st') \<Rightarrow> (Inl err, st')
      | (Inr _, st') \<Rightarrow> (Inr (), st'))"

definition sqlite_impl :: "cipher option \<Rightarrow> store session_impl" where
  "sqlite_impl cipher =
     \<lparr>CloseConnection = sqlite_CloseConnection,
      Add = sqlite_Add cipher,
      Delete = sqlite_Delete,
      Get = (\<lambda>env. sqlite_Get cipher (env_fault env)),
      Update = sqlite_Update cipher,
      Purge = sqlite_Purge\<rparr>"

section \<open>The contract\<close>

lemma sqlite_impl_sel [simp]:
  "CloseConnection (sqlite_impl c) = sqlite_CloseConnection"
  "Add (sqlite_impl c) = sqlite_Add c"
  "Delete (sqlite_impl c) = sqlite_Delete"
  "Get (sqlite_impl c) env = sqlite_Get c (env_fault env)"
  "Update (sqlite_impl c) = sqlite_Update c"
  "Purge (sqlite_impl c) = sqlite_Purge"
  by (simp_all add: sqlite_impl_def)

lemma sqlite_Get_Inr_iff:
  "sqlite_Get c f sid st = Inr d \<longleftrightarrow> conn_open st \<and> f = None \<and> stored c st sid = Some d"
  by (auto simp: sqlite_Get_def stored_def query_row_def sql_select_def split: option.splits sum.splits)

lemma sqlite_Get_unknown:
  "conn_open st \<Longrightarrow> sid \<notin> ids st \<Longrightarrow> sqlite_Get c None sid st = Inl SqlErrNoRows"
  by (auto simp: sqlite_Get_def query_row_def sql_select_def ids_def split: option.splits)

lemma sqlite_Add_Inr_iff:
  "sqlite_Add c env d st = (Inr sid, st') \<longleftrightarrow>
     (\<exists>enc. encryptArgs c (env_nonces env) d = Inr enc \<and> sid = env_uuid env \<and> conn_open st \<and>
        env_fault env = None \<and> sqlite_row_check sid (row_of enc) = None \<and> sid \<notin> ids st \<and>
        st' = st\<lparr>table := (table st)(sid \<mapsto> row_of enc)\<rparr>)"
  by (auto simp: sqlite_Add_def Let_def exec_def sql_insert_def ids_def domIff
        split: sum.splits option.splits if_splits prod.splits)

lemma sqlite_Add_Inl: "sqlite_Add c env d st = (Inl e, st') \<Longrightarrow> st' = st"
  by (auto simp: sqlite_Add_def Let_def dest!: exec_Inl_state split: sum.splits prod.splits)

lemma sqlite_Delete_Inr_iff:
  "sqlite_Delete env sid st = (Inr u, st') \<longleftrightarrow>
     conn_open st \<and> env_fault env = None \<and> st' = st\<lparr>table := (table st)(sid := None)\<rparr>"
  by (auto simp: sqlite_Delete_def exec_def sql_delete_def split: sum.splits option.splits if_splits prod.splits)

lemma sqlite_Delete_Inl: "sqlite_Delete env sid st = (Inl e, st') \<Longrightarrow> st' = st"
  by (auto simp: sqlite_Delete_def dest!: exec_Inl_state split: sum.splits prod.splits)

lemma sqlite_Update_read_Inr_iff:
  "sqlite_Update_read c env sid d st = Inr enc \<longleftrightarrow>
     (\<exists>old. conn_open st \<and> env_get_fault env = None \<and> stored c st sid = Some old \<and>
        Subject d = Subject old \<and> encryptArgs c (env_nonces env) d = Inr enc)"
  by (auto simp: sqlite_Update_read_def and_then_Inr_iff sqlite_Get_Inr_iff)

lemma sqlite_Update_write_Inr_iff:
  "sqlite_Update_write env sid enc st = (Inr u, st') \<longleftrightarrow>
     conn_open st \<and> env_fault env = None \<and>
     (if sid \<in> ids st
      then sqlite_row_check sid (row_of enc) = None \<and> st' = st\<lparr>table := (table st)(sid \<mapsto> row_of enc)\<rparr>
      else st' = st)"
  by (auto simp: sqlite_Update_write_def exec_def sql_update_def ids_def domIff
        split: sum.splits option.splits if_splits prod.splits)

lemma sqlite_Update_Inr_iff:
  "sqlite_Update c env sid d st = (Inr u, st') \<longleftrightarrow>
     (\<exists>enc old. env_get_fault env = None \<and> env_fault env = None \<and> conn_open st \<and>
        stored c st sid = Some old \<and> Subject d = Subject old \<and>
        encryptArgs c (env_nonces env) d = Inr enc \<and> sqlite_row_check sid (row_of enc) = None \<and>
        st' = st\<lparr>table := (table st)(sid \<mapsto> row_of enc)\<rparr>)"
proof -
  have "sqlite_Update c env sid d st = (Inr u, st') \<longleftrightarrow>
      (\<exists>enc. sqlite_Update_read c env sid d st = Inr enc \<and> sqlite_Update_write env sid enc st = (Inr u, st'))"
    by (auto simp: sqlite_Update_def split: sum.splits)
  then show ?thesis
    unfolding sqlite_Update_read_Inr_iff sqlite_Update_write_Inr_iff
    by (auto dest: stored_ids)
qed

lemma sqlite_Update_Inl: "sqlite_Update c env sid d st = (Inl e, st') \<Longrightarrow> st' = st"
  by (auto simp: sqlite_Update_def sqlite_Update_write_def dest!: exec_Inl_state split: sum.splits prod.splits)

lemma sqlite_Purge_Inr_iff:
  "sqlite_Purge env st = (Inr u, st') \<longleftrightarrow>
     conn_open st \<and> env_fault env = None \<and>
     (\<exists>t. sql_purge (unix (env_now env)) (table st) = Inr t \<and> st' = st\<lparr>table := t\<rparr>)"
  by (auto simp: sqlite_Purge_def Let_def exec_def split: sum.splits option.splits if_splits prod.splits)

lemma sqlite_Purge_Inl: "sqlite_Purge env st = (Inl e, st') \<Longrightarrow> st' = st"
  by (auto simp: sqlite_Purge_def Let_def dest!: exec_Inl_state split: sum.splits prod.splits)

lemmas sqlite_iffs = sqlite_Get_Inr_iff sqlite_Add_Inr_iff sqlite_Delete_Inr_iff
  sqlite_Update_Inr_iff sqlite_Purge_Inr_iff

interpretation sqlite: session_store "sqlite_impl c" "stored c" ids conn_open SqlErrNoRows "cipher_correct c"
  for c :: "cipher option"
proof (unfold_locales, goal_cases)
  case 1 then show ?case by (rule stored_ids)
next
  case 2 then show ?case by (simp add: sqlite_Get_Inr_iff)
next
  case 3 then show ?case by (simp add: sqlite_Get_Inr_iff)
next
  case 4 then show ?case by (simp add: sqlite_Get_unknown)
next
  case 5 then show ?case by (auto simp: sqlite_Add_Inr_iff)
next
  case 6 then show ?case by (auto simp: sqlite_Add_Inr_iff simp del: stored_update intro: stored_new_row)
next
  case 7 then show ?case by (auto dest: sqlite_Add_Inl)
next
  case 8 then show ?case by (auto simp: sqlite_Update_Inr_iff dest: stored_ids)
next
  case 9 then show ?case by (auto simp: sqlite_Update_Inr_iff simp del: stored_update intro: stored_new_row)
next
  case 10 then show ?case
    by (auto simp: sqlite_Update_Inr_iff simp del: stored_update dest: stored_new_row_subject)
next
  case 11 then show ?case by (auto dest: sqlite_Update_Inl)
next
  case 12 then show ?case by (simp add: sqlite_Delete_Inr_iff)
next
  case 13 then show ?case by (auto dest: sqlite_Delete_Inl)
next
  case 14 then show ?case using ids_purge by (fastforce simp: sqlite_Purge_Inr_iff stored_purge)
next
  case 15 then show ?case by (auto dest: sqlite_Purge_Inl)
qed

end
