(* ===== verification/Postgresql.thy ===== *)
theory Postgresql
  imports Session_Impl
begin

text \<open>
  \<open>database/postgresql.go\<close>: the PostgreSQL back end on a \<open>pgx\<close> connection and its
  interpretation of the contract \<open>session_store\<close>. The operations follow those of SQLite; what
  differs is the table (\<open>expires_at\<close> is a 32-bit \<open>integer\<close>, \<open>session_id\<close> a \<open>varchar(36)\<close>) and
  the errors: a missing row is \<open>pgx.ErrNoRows\<close>, a variable other than \<open>sql.ErrNoRows\<close>.
\<close>

definition PgxErrNoRows :: go_error where [err_defs]:
  "PgxErrNoRows = ErrVar ''pgx.ErrNoRows'' ''no rows in result set''"

definition PgxErrClosed :: go_error where [err_defs]:
  "PgxErrClosed = ErrVar ''pgx.ErrConnClosed'' ''conn closed''"

text \<open>The constraints and column types of \<open>queryPostgresqlCreate\<close>.\<close>

definition postgresql_row_check :: row_check where
  "postgresql_row_check sid row =
     (if row_subject row = [] \<or> row_access_token row = [] \<or> row_refresh_token row = [] \<or> row_id_token row = []
      then Some CheckViolation
      else if length sid > 36 then Some ValueTooLong
      else None)"

text \<open>
  A parameter bound to the column \<open>expires_at\<close>, of type \<open>integer\<close>, must be a 32-bit value;
  another one is refused before the statement runs.
\<close>

definition int4 :: "int \<Rightarrow> bool" where
  "int4 n \<longleftrightarrow> - (2 ^ 31) \<le> n \<and> n < 2 ^ 31"

definition bind_int4 :: "int \<Rightarrow> (sessions_table \<Rightarrow> sessions_table result) \<Rightarrow> sessions_table \<Rightarrow> sessions_table result" where
  "bind_int4 n stmt t = (if int4 n then stmt t else Inl (StmtErr IntegerOutOfRange))"

lemma bind_int4_Inr_iff: "bind_int4 n stmt t = Inr t' \<longleftrightarrow> int4 n \<and> stmt t = Inr t'"
  by (simp add: bind_int4_def)

lemma row_of_expires_at [simp]: "row_expires_at (row_of d) = unix (ExpiresAt d)"
  by (simp add: row_of_def)

section \<open>The operations\<close>

definition postgresql_CloseConnection :: "db_env \<Rightarrow> store \<Rightarrow> unit result \<times> store" where
  "postgresql_CloseConnection env st =
     (case env_fault env of
        Some e \<Rightarrow> (Inl e, st\<lparr>conn_open := False\<rparr>)
      | None \<Rightarrow> (Inr (), st\<lparr>conn_open := False\<rparr>))"

definition postgresql_Add :: "cipher option \<Rightarrow> db_env \<Rightarrow> session_data \<Rightarrow> store \<Rightarrow> string result \<times> store" where
  "postgresql_Add cipher env s st =
     (let sid = env_uuid env in
      case encryptArgs cipher (env_nonces env) s of
        Inl err \<Rightarrow> (Inl err, st)
      | Inr enc \<Rightarrow>
          (case exec PgxErrClosed (env_fault env) (bind_int4 (unix (ExpiresAt enc)) (sql_insert postgresql_row_check sid (row_of enc))) st of
             (Inl err, st') \<Rightarrow> (Inl err, st')
           | (Inr _, st') \<Rightarrow> (Inr sid, st')))"

definition postgresql_Delete :: "db_env \<Rightarrow> string \<Rightarrow> store \<Rightarrow> unit result \<times> store" where
  "postgresql_Delete env sid st =
     (case exec PgxErrClosed (env_fault env) (sql_delete sid) st of
        (Inl err, st') \<Rightarrow> (Inl err, st')
      | (Inr _, st') \<Rightarrow> (Inr (), st'))"

definition postgresql_Get :: "cipher option \<Rightarrow> fault \<Rightarrow> string \<Rightarrow> store \<Rightarrow> session_data result" where
  "postgresql_Get cipher fault sid st =
     (case query_row PgxErrClosed PgxErrNoRows fault sid st of
        Inl err \<Rightarrow> Inl err
      | Inr row \<Rightarrow> decryptArgs cipher (data_of row))"

text \<open>
  \<open>Update\<close> is not one statement: it reads and compares the subject, encrypts, and then writes.
  Other requests may run between its two halves.
\<close>

definition postgresql_Update_read :: "cipher option \<Rightarrow> db_env \<Rightarrow> string \<Rightarrow> session_data \<Rightarrow> store \<Rightarrow> session_data result" where
  "postgresql_Update_read cipher env sid s st =
     and_then (postgresql_Get cipher (env_get_fault env) sid st) (\<lambda>oldSession.
       if Subject s \<noteq> Subject oldSession then Inl ErrSessionsMismatch
       else encryptArgs cipher (env_nonces env) s)"

definition postgresql_Update_write :: "db_env \<Rightarrow> string \<Rightarrow> session_data \<Rightarrow> store \<Rightarrow> unit result \<times> store" where
  "postgresql_Update_write env sid enc st =
     (case exec PgxErrClosed (env_fault env) (bind_int4 (unix (ExpiresAt enc)) (sql_update postgresql_row_check sid (row_of enc))) st of
        (Inl err, st') \<Rightarrow> (Inl err, st')
      | (Inr _, st') \<Rightarrow> (Inr (), st'))"

definition postgresql_Update :: "cipher option \<Rightarrow> db_env \<Rightarrow> string \<Rightarrow> session_data \<Rightarrow> store \<Rightarrow> unit result \<times> store" where
  "postgresql_Update cipher env sid s st =
     (case postgresql_Update_read cipher env sid s st of
        Inl err \<Rightarrow> (Inl err, st)
      | Inr enc \<Rightarrow> postgresql_Update_write env sid enc st)"

definition postgresql_Purge :: "db_env \<Rightarrow> store \<Rightarrow> unit result \<times> store" where
  "postgresql_Purge env st =
     (let now = unix (env_now env) in
      case exec PgxErrClosed (env_fault env) (bind_int4 now (sql_purge now)) st of
        (Inl err, st') \<Rightarrow> (Inl err, st')
      | (Inr _, st') \<Rightarrow> (Inr (), st'))"

definition postgresql_impl :: "cipher option \<Rightarrow> store session_impl" where
  "postgresql_impl cipher =
     \<lparr>CloseConnection = postgresql_CloseConnection,
      Add = postgresql_Add cipher,
      Delete = postgresql_Delete,
      Get = (\<lambda>env. postgresql_Get cipher (env_fault env)),
      Update = postgresql_Update cipher,
      Purge = postgresql_Purge\<rparr>"

section \<open>The contract\<close>

lemma postgresql_impl_sel [simp]:
  "CloseConnection (postgresql_impl c) = postgresql_CloseConnection"
  "Add (postgresql_impl c) = postgresql_Add c"
  "Delete (postgresql_impl c) = postgresql_Delete"
  "Get (postgresql_impl c) env = postgresql_Get c (env_fault env)"
  "Update (postgresql_impl c) = postgresql_Update c"
  "Purge (postgresql_impl c) = postgresql_Purge"
  by (simp_all add: postgresql_impl_def)

lemma postgresql_Get_Inr_iff:
  "postgresql_Get c f sid st = Inr d \<longleftrightarrow> conn_open st \<and> f = None \<and> stored c st sid = Some d"
  by (auto simp: postgresql_Get_def stored_def query_row_def sql_select_def split: option.splits sum.splits)

lemma postgresql_Get_unknown:
  "conn_open st \<Longrightarrow> sid \<notin> ids st \<Longrightarrow> postgresql_Get c None sid st = Inl PgxErrNoRows"
  by (auto simp: postgresql_Get_def query_row_def sql_select_def ids_def split: option.splits)

lemma postgresql_Add_Inr_iff:
  "postgresql_Add c env d st = (Inr sid, st') \<longleftrightarrow>
     (\<exists>enc. encryptArgs c (env_nonces env) d = Inr enc \<and> sid = env_uuid env \<and> conn_open st \<and>
        env_fault env = None \<and> int4 (unix (ExpiresAt enc)) \<and>
        postgresql_row_check sid (row_of enc) = None \<and> sid \<notin> ids st \<and>
        st' = st\<lparr>table := (table st)(sid \<mapsto> row_of enc)\<rparr>)"
  by (auto simp: postgresql_Add_def Let_def exec_def bind_int4_def sql_insert_def ids_def domIff
        split: sum.splits option.splits if_splits prod.splits)

lemma postgresql_Add_Inl: "postgresql_Add c env d st = (Inl e, st') \<Longrightarrow> st' = st"
  by (auto simp: postgresql_Add_def Let_def dest!: exec_Inl_state split: sum.splits prod.splits)

lemma postgresql_Delete_Inr_iff:
  "postgresql_Delete env sid st = (Inr u, st') \<longleftrightarrow>
     conn_open st \<and> env_fault env = None \<and> st' = st\<lparr>table := (table st)(sid := None)\<rparr>"
  by (auto simp: postgresql_Delete_def exec_def sql_delete_def split: sum.splits option.splits if_splits prod.splits)

lemma postgresql_Delete_Inl: "postgresql_Delete env sid st = (Inl e, st') \<Longrightarrow> st' = st"
  by (auto simp: postgresql_Delete_def dest!: exec_Inl_state split: sum.splits prod.splits)

lemma postgresql_Update_read_Inr_iff:
  "postgresql_Update_read c env sid d st = Inr enc \<longleftrightarrow>
     (\<exists>old. conn_open st \<and> env_get_fault env = None \<and> stored c st sid = Some old \<and>
        Subject d = Subject old \<and> encryptArgs c (env_nonces env) d = Inr enc)"
  by (auto simp: postgresql_Update_read_def and_then_Inr_iff postgresql_Get_Inr_iff)

lemma postgresql_Update_write_Inr_iff:
  "postgresql_Update_write env sid enc st = (Inr u, st') \<longleftrightarrow>
     conn_open st \<and> env_fault env = None \<and> int4 (unix (ExpiresAt enc)) \<and>
     (if sid \<in> ids st
      then postgresql_row_check sid (row_of enc) = None \<and> st' = st\<lparr>table := (table st)(sid \<mapsto> row_of enc)\<rparr>
      else st' = st)"
  by (auto simp: postgresql_Update_write_def exec_def bind_int4_def sql_update_def ids_def domIff
        split: sum.splits option.splits if_splits prod.splits)

lemma postgresql_Update_Inr_iff:
  "postgresql_Update c env sid d st = (Inr u, st') \<longleftrightarrow>
     (\<exists>enc old. env_get_fault env = None \<and> env_fault env = None \<and> conn_open st \<and>
        stored c st sid = Some old \<and> Subject d = Subject old \<and>
        encryptArgs c (env_nonces env) d = Inr enc \<and> int4 (unix (ExpiresAt enc)) \<and>
        postgresql_row_check sid (row_of enc) = None \<and>
        st' = st\<lparr>table := (table st)(sid \<mapsto> row_of enc)\<rparr>)"
proof -
  have "postgresql_Update c env sid d st = (Inr u, st') \<longleftrightarrow>
      (\<exists>enc. postgresql_Update_read c env sid d st = Inr enc \<and> postgresql_Update_write env sid enc st = (Inr u, st'))"
    by (auto simp: postgresql_Update_def split: sum.splits)
  then show ?thesis
    unfolding postgresql_Update_read_Inr_iff postgresql_Update_write_Inr_iff
    by (auto dest: stored_ids)
qed

lemma postgresql_Update_Inl: "postgresql_Update c env sid d st = (Inl e, st') \<Longrightarrow> st' = st"
  by (auto simp: postgresql_Update_def postgresql_Update_write_def dest!: exec_Inl_state split: sum.splits prod.splits)

lemma postgresql_Purge_Inr_iff:
  "postgresql_Purge env st = (Inr u, st') \<longleftrightarrow>
     conn_open st \<and> env_fault env = None \<and> int4 (unix (env_now env)) \<and>
     (\<exists>t. sql_purge (unix (env_now env)) (table st) = Inr t \<and> st' = st\<lparr>table := t\<rparr>)"
  by (auto simp: postgresql_Purge_def Let_def exec_def bind_int4_def split: sum.splits option.splits if_splits prod.splits)

lemma postgresql_Purge_Inl: "postgresql_Purge env st = (Inl e, st') \<Longrightarrow> st' = st"
  by (auto simp: postgresql_Purge_def Let_def dest!: exec_Inl_state split: sum.splits prod.splits)

lemmas postgresql_iffs = postgresql_Get_Inr_iff postgresql_Add_Inr_iff postgresql_Delete_Inr_iff
  postgresql_Update_Inr_iff postgresql_Purge_Inr_iff

interpretation postgresql: session_store "postgresql_impl c" "stored c" ids conn_open PgxErrNoRows "cipher_correct c"
  for c :: "cipher option"
proof (unfold_locales, goal_cases)
  case 1 then show ?case by (rule stored_ids)
next
  case 2 then show ?case by (simp add: postgresql_Get_Inr_iff)
next
  case 3 then show ?case by (simp add: postgresql_Get_Inr_iff)
next
  case 4 then show ?case by (simp add: postgresql_Get_unknown)
next
  case 5 then show ?case by (auto simp: postgresql_Add_Inr_iff)
next
  case 6 then show ?case by (auto simp: postgresql_Add_Inr_iff simp del: stored_update intro: stored_new_row)
next
  case 7 then show ?case by (auto dest: postgresql_Add_Inl)
next
  case 8 then show ?case by (auto simp: postgresql_Update_Inr_iff dest: stored_ids)
next
  case 9 then show ?case by (auto simp: postgresql_Update_Inr_iff simp del: stored_update intro: stored_new_row)
next
  case 10 then show ?case
    by (auto simp: postgresql_Update_Inr_iff simp del: stored_update dest: stored_new_row_subject)
next
  case 11 then show ?case by (auto dest: postgresql_Update_Inl)
next
  case 12 then show ?case by (simp add: postgresql_Delete_Inr_iff)
next
  case 13 then show ?case by (auto dest: postgresql_Delete_Inl)
next
  case 14 then show ?case using ids_purge by (fastforce simp: postgresql_Purge_Inr_iff stored_purge)
next
  case 15 then show ?case by (auto dest: postgresql_Purge_Inl)
qed

end
