(* ===== verification/Backends.thy ===== *)
theory Backends
  imports Sqlite Postgresql
begin

text \<open>
  The constructors \<open>NewSQLiteSessionImpl\<close> and \<open>NewPostgresqlSessionImpl\<close> with the package-level
  variables behind their \<open>sync.Once\<close>. Opening a database and creating its table are calls of
  the drivers, so their outcomes are arguments. A result of type \<open>SessionImpl\<close> is an interface
  value: nil, or a concrete type with a pointer, which may itself be nil.
\<close>

record sqlite_db =
  sqlite_file :: string
  sqlite_cipher :: "cipher option"

record postgresql_db =
  postgresql_conn_str :: string
  postgresql_cipher :: "cipher option"

datatype session_iface =
    NilIface
  | SqliteIface "sqlite_db option"
  | PostgresqlIface "postgresql_db option"

record db_globals =
  sqliteOnce :: bool
  sqliteInstance :: "sqlite_db option"
  pgOnce :: bool
  pgInstance :: "postgresql_db option"

definition initial_db_globals :: db_globals where
  "initial_db_globals = \<lparr>sqliteOnce = False, sqliteInstance = None, pgOnce = False, pgInstance = None\<rparr>"

text \<open>Opening the connection and creating the table, each failing or not.\<close>

record open_env =
  open_result :: "string \<Rightarrow> unit result"
  create_result :: "string \<Rightarrow> unit result"

definition NewSQLiteSessionImpl ::
    "open_env \<Rightarrow> cipher option \<Rightarrow> string \<Rightarrow> db_globals \<Rightarrow> (session_iface \<times> go_error option) \<times> db_globals" where
  "NewSQLiteSessionImpl env cipher database g =
     (let (err, g') =
        (if sqliteOnce g then (None, g)
         else let g1 = g\<lparr>sqliteOnce := True\<rparr>; dsn = ''file:'' @ database in
           (case open_result env dsn of
              Inl e \<Rightarrow> (Some e, g1)
            | Inr _ \<Rightarrow> (case create_result env dsn of
                Inl e \<Rightarrow> (Some e, g1)
              | Inr _ \<Rightarrow> (None, g1\<lparr>sqliteInstance := Some \<lparr>sqlite_file = dsn, sqlite_cipher = cipher\<rparr>\<rparr>))))
      in (case err of
            Some e \<Rightarrow> ((NilIface, Some e), g')
          | None \<Rightarrow> ((SqliteIface (sqliteInstance g'), None), g')))"

definition postgresql_dsn :: "string \<Rightarrow> string \<Rightarrow> string \<Rightarrow> string \<Rightarrow> string" where
  "postgresql_dsn host database username password =
     ''postgresql://'' @ username @ '':'' @ password @ ''@'' @ host @ ''/'' @ database @ ''?sslmode=disable''"

definition NewPostgresqlSessionImpl ::
    "open_env \<Rightarrow> cipher option \<Rightarrow> string \<Rightarrow> string \<Rightarrow> string \<Rightarrow> string \<Rightarrow> db_globals
       \<Rightarrow> (session_iface \<times> go_error option) \<times> db_globals" where
  "NewPostgresqlSessionImpl env cipher host database username password g =
     (let (err, g') =
        (if pgOnce g then (None, g)
         else let g1 = g\<lparr>pgOnce := True\<rparr>; connStr = postgresql_dsn host database username password in
           (case open_result env connStr of
              Inl e \<Rightarrow> (Some e, g1)
            | Inr _ \<Rightarrow> (case create_result env connStr of
                Inl e \<Rightarrow> (Some e, g1)
              | Inr _ \<Rightarrow> (None, g1\<lparr>pgInstance := Some \<lparr>postgresql_conn_str = connStr, postgresql_cipher = cipher\<rparr>\<rparr>))))
      in (case err of
            Some e \<Rightarrow> ((NilIface, Some e), g')
          | None \<Rightarrow> ((PostgresqlIface (pgInstance g'), None), g')))"

text \<open>The methods behind an interface value; \<open>None\<close> where a call would dereference nil.\<close>

fun impl_of_iface :: "session_iface \<Rightarrow> store session_impl option" where
  "impl_of_iface NilIface = None"
| "impl_of_iface (SqliteIface None) = None"
| "impl_of_iface (SqliteIface (Some db)) = Some (sqlite_impl (sqlite_cipher db))"
| "impl_of_iface (PostgresqlIface None) = None"
| "impl_of_iface (PostgresqlIface (Some db)) = Some (postgresql_impl (postgresql_cipher db))"

lemma NewSQLiteSessionImpl_again:
  "sqliteOnce g \<Longrightarrow> NewSQLiteSessionImpl env c f g = ((SqliteIface (sqliteInstance g), None), g)"
  by (simp add: NewSQLiteSessionImpl_def)

lemma NewSQLiteSessionImpl_once: "sqliteOnce (snd (NewSQLiteSessionImpl env c f g))"
  by (auto simp: NewSQLiteSessionImpl_def Let_def split: sum.splits prod.splits if_splits option.splits)

end
