(* ===== verification/Config.thy ===== *)
theory Config
  imports Go_Prelude
begin

text \<open>
  \<open>config/config.go\<close>: the configuration record, its defaults, the names it is read by, and its
  validation. Reading it (Viper, command line, environment, file) is third-party code; the
  validation is what decides on the record Viper returns.
\<close>

section \<open>The record and its defaults\<close>

record config =
  IsProduction :: bool
  LogLevel :: string
  OidcIssuer :: string
  OidcClientID :: string
  OidcClientSecret :: string
  OidcRedirectURL :: string
  OidcPostLoginRedirectURL :: string
  OidcPostLogoutRedirectURL :: string
  ListenAddr :: string
  CookieDomain :: string
  CookieName :: string
  SessionAuthSecret :: string
  SessionEncSecret :: string
  SessionOldAuthSecret :: string
  SessionOldEncSecret :: string
  SessionDBKey :: string
  SessionOldDBKey :: string
  ProxyConfig :: string
  DBType :: string
  DBHost :: string
  DBName :: string
  DBUsername :: string
  DBPassword :: string

definition defaultCookieDomain :: string where
  "defaultCookieDomain = ''localhost''"

definition defaultSessionAuthSecret :: string where
  "defaultSessionAuthSecret = ''my-secret-key-CHANGE-ME-IN-PROD!''"

definition default_config :: config where
  "default_config =
     \<lparr>IsProduction = False, LogLevel = ''info'', OidcIssuer = [], OidcClientID = [],
      OidcClientSecret = [], OidcRedirectURL = [], OidcPostLoginRedirectURL = [],
      OidcPostLogoutRedirectURL = [], ListenAddr = '':9080'', CookieDomain = defaultCookieDomain,
      CookieName = ''session'', SessionAuthSecret = defaultSessionAuthSecret, SessionEncSecret = [],
      SessionOldAuthSecret = [], SessionOldEncSecret = [], SessionDBKey = [], SessionOldDBKey = [],
      ProxyConfig = [], DBType = ''sqlite'', DBHost = [], DBName = [], DBUsername = [], DBPassword = []\<rparr>"

section \<open>Errors\<close>

definition ErrMissingParameter :: go_error where [err_defs]:
  "ErrMissingParameter = ErrVar ''config.ErrMissingParameter'' ''a mandatory parameter is missing''"

definition ErrDefaultCookieDomainInProduction :: go_error where [err_defs]:
  "ErrDefaultCookieDomainInProduction = ErrVar ''config.ErrDefaultCookieDomainInProduction''
     (''the cookie domain shouldn'' @ [CHR 0x27] @ ''t be '' @ [CHR 0x27] @ ''localhost'' @ [CHR 0x27] @ '' in production'')"

definition ErrDefaultAuthSecretInProduction :: go_error where [err_defs]:
  "ErrDefaultAuthSecretInProduction = ErrVar ''config.ErrDefaultAuthSecretInProduction''
     ''the session authentication secret should be changed to a random value in production''"

definition ErrWrongAuthSecretSize :: go_error where [err_defs]:
  "ErrWrongAuthSecretSize = ErrVar ''config.ErrWrongAuthSecretSize''
     ''the session authentication secret should have a size of 32 or 64 bytes''"

definition ErrWrongEncSecretSize :: go_error where [err_defs]:
  "ErrWrongEncSecretSize = ErrVar ''config.ErrWrongEncSecretSize''
     ''the session encryption secret should have a size of 16, 24 or 32 bytes''"

definition ErrWrongEncDBKey :: go_error where [err_defs]:
  "ErrWrongEncDBKey = ErrVar ''config.ErrWrongEncDBKey''
     ''the database encryption key must have a size of 32 bytes''"

definition ErrWrongDBType :: go_error where [err_defs]:
  "ErrWrongDBType = ErrVar ''config.ErrWrongDBType''
     ''the database backend must be a value from: sqlite, postgresql''"

definition ErrMissingSQLiteDatabase :: go_error where [err_defs]:
  "ErrMissingSQLiteDatabase = ErrVar ''config.ErrMissingSQLiteDatabase''
     ''you must specify the database file name, using the db-name parameter''"

definition ErrMissingDBServerHost :: go_error where [err_defs]:
  "ErrMissingDBServerHost = ErrVar ''config.ErrMissingDBServerHost''
     ''you must specify the database host, using the db-host parameter''"

definition ErrMissingDBServerDatabase :: go_error where [err_defs]:
  "ErrMissingDBServerDatabase = ErrVar ''config.ErrMissingDBServerDatabase''
     ''you must specify the database name, using the db-name parameter''"

definition ErrMissingDBServerUsername :: go_error where [err_defs]:
  "ErrMissingDBServerUsername = ErrVar ''config.ErrMissingDBServerUsername''
     ''you must specify the username to connect to the database, using the db-username parameter''"

definition ErrMissingDBServerPassword :: go_error where [err_defs]:
  "ErrMissingDBServerPassword = ErrVar ''config.ErrMissingDBServerPassword''
     ''you must specify the password to connect to the database, using the db-password parameter''"

definition missing_parameter :: "string \<Rightarrow> go_error" where
  "missing_parameter name = Wrapf ''%w: %s'' ErrMissingParameter [name]"

section \<open>Validation\<close>

text \<open>
  \<open>configValidate\<close> returns the configuration unchanged with an optional error; the model
  returns the error. The tests run in the order of the code and the first that fires decides.
  \<open>len\<close> of a Go string counts bytes.
\<close>

definition validate_mandatory :: "config \<Rightarrow> go_error option" where
  "validate_mandatory c =
     (if OidcIssuer c = [] then Some (missing_parameter ''oidc-issuer'')
      else if OidcClientID c = [] then Some (missing_parameter ''oidc-client-id'')
      else if OidcClientSecret c = [] then Some (missing_parameter ''oidc-client-secret'')
      else if OidcRedirectURL c = [] then Some (missing_parameter ''oidc-redirect-url'')
      else if OidcPostLoginRedirectURL c = [] then Some (missing_parameter ''oidc-post-login-redirect-url'')
      else if OidcPostLogoutRedirectURL c = [] then Some (missing_parameter ''oidc-post-logout-redirect-url'')
      else if ListenAddr c = [] then Some (missing_parameter ''listen-addr'')
      else if CookieDomain c = [] then Some (missing_parameter ''cookie-domain'')
      else if CookieName c = [] then Some (missing_parameter ''cookie-name'')
      else if SessionAuthSecret c = [] then Some (missing_parameter ''session-secret'')
      else None)"

definition validate_production :: "config \<Rightarrow> go_error option" where
  "validate_production c =
     (if CookieDomain c = defaultCookieDomain \<and> IsProduction c then Some ErrDefaultCookieDomainInProduction
      else if SessionAuthSecret c = defaultSessionAuthSecret \<and> IsProduction c then Some ErrDefaultAuthSecretInProduction
      else None)"

definition validate_secrets :: "config \<Rightarrow> go_error option" where
  "validate_secrets c =
     (let lenSessionAuthSecret = length (SessionAuthSecret c);
          lenSessionEncSecret = length (SessionEncSecret c);
          lenSessionOldAuthSecret = length (SessionOldAuthSecret c);
          lenSessionOldEncSecret = length (SessionOldEncSecret c);
          lenSessionDBKey = length (SessionDBKey c);
          lenSessionOldDBKey = length (SessionOldDBKey c)
      in if lenSessionAuthSecret \<noteq> 32 \<and> lenSessionAuthSecret \<noteq> 64
           then Some (Wrapf ''%w: %s'' ErrWrongAuthSecretSize [''session-auth-secret''])
         else if SessionEncSecret c \<noteq> [] \<and> lenSessionEncSecret \<noteq> 16 \<and> lenSessionEncSecret \<noteq> 24 \<and> lenSessionEncSecret \<noteq> 32
           then Some (Wrapf ''%w: %s'' ErrWrongEncSecretSize [''session-enc-secret''])
         else if SessionOldAuthSecret c \<noteq> [] \<and> lenSessionOldAuthSecret \<noteq> 32 \<and> lenSessionOldAuthSecret \<noteq> 64
           then Some (Wrapf ''%w: %s'' ErrWrongAuthSecretSize [''session-old-auth-secret''])
         else if SessionOldEncSecret c \<noteq> [] \<and> lenSessionOldEncSecret \<noteq> 16 \<and> lenSessionOldEncSecret \<noteq> 24 \<and> lenSessionOldEncSecret \<noteq> 32
           then Some (Wrapf ''%w: %s'' ErrWrongEncSecretSize [''session-old-enc-secret''])
         else if SessionDBKey c \<noteq> [] \<and> lenSessionDBKey \<noteq> 32
           then Some (Wrapf ''%w: %s'' ErrWrongEncDBKey [''session-db-key''])
         else if SessionOldDBKey c \<noteq> [] \<and> lenSessionOldDBKey \<noteq> 32
           then Some (Wrapf ''%w: %s'' ErrWrongEncDBKey [''session-old-db-key''])
         else None)"

definition validate_database :: "config \<Rightarrow> go_error option" where
  "validate_database c =
     (if DBType c \<noteq> ''sqlite'' \<and> DBType c \<noteq> ''postgresql'' then Some ErrWrongDBType
      else if DBType c = ''sqlite'' \<and> DBName c = [] then Some ErrMissingSQLiteDatabase
      else if DBType c = ''postgresql'' then
        (if DBHost c = [] then Some ErrMissingDBServerHost
         else if DBName c = [] then Some ErrMissingDBServerDatabase
         else if DBUsername c = [] then Some ErrMissingDBServerUsername
         else if DBPassword c = [] then Some ErrMissingDBServerPassword
         else None)
      else None)"

definition first_error :: "go_error option list \<Rightarrow> go_error option" where
  "first_error es = (case List.find (\<lambda>e. e \<noteq> None) es of None \<Rightarrow> None | Some e \<Rightarrow> e)"

definition configValidate :: "config \<Rightarrow> config \<times> go_error option" where
  "configValidate c =
     (c, first_error [validate_mandatory c, validate_production c, validate_secrets c, validate_database c])"

text \<open>\<open>LoadConfig\<close>, with the binding of the flags and the unmarshalling as its inputs.\<close>

definition LoadConfig :: "unit result \<Rightarrow> config result \<Rightarrow> config result" where
  "LoadConfig bind_result unmarshal_result =
     and_then bind_result (\<lambda>_. and_then unmarshal_result (\<lambda>c.
       (case configValidate c of (c', None) \<Rightarrow> Inr c' | (_, Some e) \<Rightarrow> Inl e)))"

section \<open>The names a parameter is read by\<close>

text \<open>
  The keys of the record's \<open>mapstructure\<close> tags, which are also the keys of the defaults, and
  the names of the command line flags, both in the order of the code.
\<close>

definition config_keys :: "string list" where
  "config_keys =
    [''IS_PRODUCTION'', ''LOG_LEVEL'', ''OIDC_ISSUER'', ''OIDC_CLIENT_ID'', ''OIDC_CLIENT_SECRET'',
     ''OIDC_REDIRECT_URL'', ''OIDC_POST_LOGIN_REDIRECT_URL'', ''OIDC_POST_LOGOUT_REDIRECT_URL'',
     ''LISTEN_ADDR'', ''COOKIE_DOMAIN'', ''COOKIE_NAME'', ''SESSION_AUTH_SECRET'',
     ''SESSION_ENC_SECRET'', ''SESSION_OLD_AUTH_SECRET'', ''SESSION_OLD_ENC_SECRET'',
     ''SESSION_DB_KEY'', ''SESSION_OLD_DB_KEY'', ''PROXY_CONFIG'', ''DB_TYPE'', ''DB_HOST'',
     ''DB_NAME'', ''DB_USERNAME'', ''DB_PASSWORD'']"

definition flag_names :: "string list" where
  "flag_names =
    [''is-production'', ''log-level'', ''oidc-issuer'', ''oidc-client-id'', ''oidc-client-secret'',
     ''oidc-redirect-url'', ''oidc-post-login-redirect-url'', ''oidc-post-logout-redirect-url'',
     ''listen-addr'', ''cookie-domain'', ''cookie-name'', ''session-auth-secret'',
     ''session-enc-secret'', ''session-old-auth-secret'', ''session-old-enc-secret'',
     ''session-db-key'', ''session-old-db-key'', ''proxy-config'', ''db-type'', ''db-host'',
     ''db-name'', ''db-username'', ''db-password'']"

section \<open>The proxies\<close>

text \<open>\<open>ProxyConfigData\<close>; reading the file and the YAML decoder are parameters.\<close>

record proxy_parameters =
  ParamIdleConnTimeout :: duration
  ParamMaxIdleConns :: int
  ParamDialKeepAlive :: duration
  ParamDialTimeout :: duration

record proxy_entry =
  Endpoint :: string
  Target :: string
  Parameters :: proxy_parameters

definition ReadProxyConfig ::
    "(string \<Rightarrow> string result) \<Rightarrow> (string \<Rightarrow> proxy_entry list result) \<Rightarrow> config \<Rightarrow> proxy_entry list result" where
  "ReadProxyConfig read_file yaml_unmarshal c =
     and_then (read_file (ProxyConfig c)) (\<lambda>pcFile. yaml_unmarshal pcFile)"

end
