(* ===== verification/Oidc.thy ===== *)
theory Oidc
  imports Go_Prelude
begin

text \<open>
  Package \<open>oidc\<close> (\<open>oidc/oidc.go\<close>, \<open>oidc/endpoints.go\<close>): the client configuration read from
  the provider's discovery document and the verification of tokens. The provider and the
  library \<open>coreos/go-oidc\<close> that talks to it are parameters: a record of the calls the code makes.
  Spans are left out.
\<close>

section \<open>Endpoints and configuration\<close>

record endpoints =
  AuthorizationEndpoint :: string
  EndSessionEndpoint :: string
  IntrospectionEndpoint :: string
  JWKSUri :: string
  RevocationEndpoint :: string
  TokenEndpoint :: string
  UserInfoEndpoint :: string

definition openIDConfigurationPath :: string where
  "openIDConfigurationPath = ''/.well-known/openid-configuration''"

text \<open>An HTTP GET and the JSON decoder for \<open>Endpoints\<close>.\<close>

record discovery_env =
  http_get :: "string \<Rightarrow> string result"
  decode_endpoints :: "string \<Rightarrow> endpoints result"

definition getOidcEndpoints :: "discovery_env \<Rightarrow> string \<Rightarrow> endpoints result" where
  "getOidcEndpoints env issuer =
     and_then (http_get env (issuer @ openIDConfigurationPath)) (\<lambda>body. decode_endpoints env body)"

record oidc_config =
  ClientID :: string
  ClientSecret :: string
  AuthURL :: string
  TokenURL :: string
  Scopes :: "string list"
  RedirectURL :: string
  issuer :: string
  OidcEndpoints :: endpoints

definition NewConfiguration :: "discovery_env \<Rightarrow> string \<Rightarrow> string \<Rightarrow> string \<Rightarrow> string \<Rightarrow> oidc_config result" where
  "NewConfiguration env clientID clientSecret iss redirectURL =
     and_then (getOidcEndpoints env iss) (\<lambda>oidcEndpoints.
       Inr \<lparr>ClientID = clientID, ClientSecret = clientSecret,
            AuthURL = AuthorizationEndpoint oidcEndpoints, TokenURL = TokenEndpoint oidcEndpoints,
            Scopes = [''openid'', ''profile'', ''email''], RedirectURL = redirectURL,
            issuer = iss, OidcEndpoints = oidcEndpoints\<rparr>)"

section \<open>Tokens\<close>

text \<open>\<open>oauth2.Token\<close>; \<open>tok_Extra\<close> gives the further fields of the token response.\<close>

record oauth_token =
  tok_AccessToken :: string
  tok_RefreshToken :: string
  tok_Expiry :: time
  tok_Extra :: "string \<Rightarrow> gvalue option"

text \<open>What the code reads of a verified \<open>oidc.IDToken\<close>.\<close>

record id_token =
  token_subject :: string
  raw_token :: string

text \<open>A provider is an opaque handle; verification takes the client id the audience must hold.\<close>

type_synonym provider = nat

record oidc_env =
  NewProvider :: "string \<Rightarrow> provider result"
  verify_token :: "provider \<Rightarrow> string \<Rightarrow> string \<Rightarrow> string result"
    \<comment> \<open>provider, client id and raw token; the subject of the token\<close>

definition GetIdToken :: "oidc_env \<Rightarrow> oidc_config \<Rightarrow> oauth_token \<Rightarrow> id_token result" where
  "GetIdToken env c token =
     (case as_string (tok_Extra token ''id_token'') of
        None \<Rightarrow> Inl (Errorf ''no valid id_token in the response'' [])
      | Some rawIDToken \<Rightarrow>
          (case NewProvider env (issuer c) of
             Inl err \<Rightarrow> Inl (Errorf ''failed to verify the id-token (1001)'' [])
           | Inr provider \<Rightarrow>
               (case verify_token env provider (ClientID c) rawIDToken of
                  Inl err \<Rightarrow> Inl (Errorf ''failed to verify the id-token (1002)'' [])
                | Inr sub \<Rightarrow> Inr \<lparr>token_subject = sub, raw_token = rawIDToken\<rparr>)))"

definition AccessTokenIsValid :: "oidc_env \<Rightarrow> oidc_config \<Rightarrow> string \<Rightarrow> go_error option" where
  "AccessTokenIsValid env c accessToken =
     (case NewProvider env (issuer c) of
        Inl err \<Rightarrow> Some (Errorf ''failed to verify the access-token (1001)'' [])
      | Inr provider \<Rightarrow>
          (case verify_token env provider ''account'' accessToken of
             Inl err \<Rightarrow> Some (Errorf ''failed to verify the access-token (1002)'' [])
           | Inr _ \<Rightarrow> None))"

section \<open>Lemmas\<close>

text \<open>
  A token is verified for a client when the provider of the configured issuer accepts it for
  that client's audience and names this subject.
\<close>

definition verified_for :: "oidc_env \<Rightarrow> string \<Rightarrow> string \<Rightarrow> string \<Rightarrow> string \<Rightarrow> bool" where
  "verified_for env iss client raw sub \<longleftrightarrow>
     (case NewProvider env iss of Inl _ \<Rightarrow> False | Inr p \<Rightarrow> verify_token env p client raw = Inr sub)"

lemma GetIdToken_Inr_iff:
  "GetIdToken env c token = Inr t \<longleftrightarrow>
     tok_Extra token ''id_token'' = Some (VString (raw_token t)) \<and>
     verified_for env (issuer c) (ClientID c) (raw_token t) (token_subject t)"
  by (cases t) (auto simp: GetIdToken_def verified_for_def as_string_Some_iff split: option.splits sum.splits)

lemma AccessTokenIsValid_None_iff:
  "AccessTokenIsValid env c a = None \<longleftrightarrow> (\<exists>sub. verified_for env (issuer c) ''account'' a sub)"
  by (auto simp: AccessTokenIsValid_def verified_for_def split: sum.splits)

end
