(* ===== verification/Session_Keys.thy ===== *)
theory Session_Keys
  imports Go_Prelude
begin

text \<open>
  \<open>sessions/configuration.go\<close>: the key pairs of the session cookie and their conversion to
  the slice given to \<open>sessions.NewCookieStore\<close>. A \<open>[]byte\<close> is an optional byte string, \<open>None\<close>
  being the nil slice (no block cipher for the cookie).
\<close>

record key_pair =
  Authentication :: string
  Encryption :: string

text \<open>The fields of \<open>Configuration\<close> the conversion reads.\<close>

record key_config =
  NewKeyPair :: key_pair
  OldKeyPair :: key_pair

definition SessErrWrongAuthSecretSize :: go_error where [err_defs]:
  "SessErrWrongAuthSecretSize = ErrVar ''sessions.ErrWrongAuthSecretSize''
     ''the session authentication key should have a size of 32 or 64 bytes''"

definition SessErrWrongEncSecretSize :: go_error where [err_defs]:
  "SessErrWrongEncSecretSize = ErrVar ''sessions.ErrWrongEncSecretSize''
     ''the session encryption key should have a size of 16, 24 or 32 bytes''"

datatype parse_type = ParseCurrent | ParseOld

fun parse_type_text :: "parse_type \<Rightarrow> string" where
  "parse_type_text ParseCurrent = ''current''"
| "parse_type_text ParseOld = ''old''"

type_synonym byte_slices = "string option list"

definition appendSlice :: "key_config \<Rightarrow> byte_slices \<Rightarrow> parse_type \<Rightarrow> byte_slices result" where
  "appendSlice mc sl pt =
     (let kp = (case pt of ParseCurrent \<Rightarrow> NewKeyPair mc | ParseOld \<Rightarrow> OldKeyPair mc);
          authKey = Authentication kp;
          kLen = length authKey
      in if kLen \<noteq> 32 \<and> kLen \<noteq> 64
           then Inl (Wrapf ''%w: %s authentication key'' SessErrWrongAuthSecretSize [parse_type_text pt])
         else
           (let sl' = sl @ [Some authKey];
                encKey = (if Encryption kp \<noteq> [] then Some (Encryption kp) else None);
                kLen' = (case encKey of None \<Rightarrow> 0 | Some k \<Rightarrow> length k)
            in if kLen' \<noteq> 0 \<and> kLen' \<noteq> 16 \<and> kLen' \<noteq> 32 \<and> kLen' \<noteq> 64
                 then Inl (Wrapf ''%w: %s encryption key'' SessErrWrongEncSecretSize [parse_type_text pt])
               else Inr (sl' @ [encKey])))"

definition keyPairsAsSlice :: "key_config \<Rightarrow> byte_slices result" where
  "keyPairsAsSlice mc =
     (if Authentication (NewKeyPair mc) = [] then Inr []
      else and_then (appendSlice mc [] ParseCurrent) (\<lambda>sl.
        if Authentication (OldKeyPair mc) = [] then Inr sl
        else appendSlice mc [] ParseOld))"

section \<open>Lemmas\<close>

definition auth_size_ok :: "key_pair \<Rightarrow> bool" where
  "auth_size_ok kp \<longleftrightarrow> length (Authentication kp) = 32 \<or> length (Authentication kp) = 64"

definition enc_size_ok :: "key_pair \<Rightarrow> bool" where
  "enc_size_ok kp \<longleftrightarrow> length (Encryption kp) \<in> {0, 16, 32, 64}"

definition slices_of :: "key_pair \<Rightarrow> byte_slices" where
  "slices_of kp = [Some (Authentication kp), if Encryption kp = [] then None else Some (Encryption kp)]"

definition key_pair_of :: "key_config \<Rightarrow> parse_type \<Rightarrow> key_pair" where
  "key_pair_of mc pt = (case pt of ParseCurrent \<Rightarrow> NewKeyPair mc | ParseOld \<Rightarrow> OldKeyPair mc)"

lemma appendSlice_Inr_iff:
  "appendSlice mc sl pt = Inr ks \<longleftrightarrow>
     auth_size_ok (key_pair_of mc pt) \<and> enc_size_ok (key_pair_of mc pt) \<and>
     ks = sl @ slices_of (key_pair_of mc pt)"
  by (auto simp: appendSlice_def auth_size_ok_def enc_size_ok_def slices_of_def key_pair_of_def Let_def
        split: parse_type.splits)

lemma appendSlice_error:
  assumes "\<not> auth_size_ok (key_pair_of mc pt) \<or> \<not> enc_size_ok (key_pair_of mc pt)"
  obtains e where "appendSlice mc sl pt = Inl e"
proof (cases "appendSlice mc sl pt")
  case (Inr ks)
  with assms show thesis by (simp add: appendSlice_Inr_iff)
qed (rule that)

end
