(* ===== verification/Session.thy ===== *)
theory Session
  imports Session_Impl Sqlite Oidc Go_Http Session_Keys
begin

text \<open>
  \<open>sessions/session.go\<close>: a session, that is a cookie of the library \<open>gorilla/sessions\<close> together
  with the session's row in the database, and its operations.

  The cookie library is a parameter (\<open>cookie_lib\<close>): its three calls \<open>store.New\<close>, \<open>store.Get\<close>
  and \<open>session.Save\<close>. Each method that takes the \<open>http.ResponseWriter\<close> returns the calls it
  makes on it; each that calls the database takes and returns the database's state. Every
  external call of one request is drawn from the record \<open>req_env\<close>. Spans are left out.
\<close>

section \<open>Names and errors\<close>

definition sessionIdName :: string where "sessionIdName = ''session_id''"
definition sessionStateName :: string where "sessionStateName = ''state''"

definition ErrCannotCreateCookie :: go_error where [err_defs]:
  "ErrCannotCreateCookie = ErrVar ''sessions.ErrCannotCreateCookie'' ''cannot create a new cookie''"
definition ErrCannotGetCookie :: go_error where [err_defs]:
  "ErrCannotGetCookie = ErrVar ''sessions.ErrCannotGetCookie'' ''cannot get the cookie''"
definition ErrSessionNotFound :: go_error where [err_defs]:
  "ErrSessionNotFound = ErrVar ''sessions.ErrSessionNotFound'' ''cannot retrieve session from storage''"
definition ErrCannotRetrieveSessionData :: go_error where [err_defs]:
  "ErrCannotRetrieveSessionData = ErrVar ''sessions.ErrCannotRetrieveSessionData'' ''cannot retrieve session data''"
definition ErrSessionInvalid :: go_error where [err_defs]:
  "ErrSessionInvalid = ErrVar ''sessions.ErrSessionInvalid'' ''cannot retrieve session id from memory''"

lemma session_names_distinct [simp]:
  "sessionIdName \<noteq> sessionStateName" "sessionStateName \<noteq> sessionIdName"
  by (simp_all add: sessionIdName_def sessionStateName_def)

section \<open>The cookie library\<close>

record cookie_store =
  key_slices :: byte_slices
  store_options :: cookie_options

text \<open>A \<open>sessions.Session\<close> of the library: its store, its name, its values, its options.\<close>

record gsession =
  gs_store :: cookie_store
  gs_name :: string
  Values :: "string \<rightharpoonup> gvalue"
  Options :: cookie_options

text \<open>The cookies of a request are the pairs of its \<open>Cookie\<close> header.\<close>

type_synonym cookies = "(string \<times> string) list"

record cookie_lib =
  lib_New :: "cookie_store \<Rightarrow> cookies \<Rightarrow> string \<Rightarrow> gsession \<times> go_error option"
  lib_Get :: "cookie_store \<Rightarrow> cookies \<Rightarrow> string \<Rightarrow> gsession \<times> go_error option"
  lib_Save :: "gsession \<Rightarrow> set_cookie result"

section \<open>Requests and their surroundings\<close>

record request =
  req_method :: string
  req_query :: string
  req_post_form :: "(string \<times> string) list"
  req_cookies :: cookies
  req_trace :: "string \<times> string"

text \<open>A response of the provider's userinfo endpoint, read in chunks by \<open>io.Copy\<close>.\<close>

record userinfo_response =
  ui_status :: nat
  ui_chunks :: "string list"
  ui_copy_error :: "go_error option"
  ui_close_error :: "go_error option"

record req_env =
  clock :: time
  timestamp :: string
  random_bytes :: "8 word list \<times> go_error option"
  cookies_lib :: cookie_lib
  oidc_lib :: oidc_env
  AuthCodeURL :: "oidc_config \<Rightarrow> string \<Rightarrow> string"
  Exchange :: "oidc_config \<Rightarrow> string \<Rightarrow> oauth_token result"
  RefreshGrant :: "oidc_config \<Rightarrow> string \<Rightarrow> oauth_token result"
  client_Get :: "oidc_config \<Rightarrow> string \<Rightarrow> string \<Rightarrow> userinfo_response result"
  db_read :: db_env
  db_write :: db_env

section \<open>The session\<close>

record 's session =
  sess_impl :: "'s session_impl"
  sess_cookie :: gsession
  sess_oidc :: oidc_config
  sess_data :: session_data
  sess_timeout :: duration

text \<open>What the cookie says: the id of a session, the state of a login in progress.\<close>

definition cookie_id :: "gsession \<Rightarrow> string option" where
  "cookie_id g = as_string (Values g sessionIdName)"

definition cookie_state :: "gsession \<Rightarrow> string option" where
  "cookie_state g = as_string (Values g sessionStateName)"

text \<open>\<open>switch err { case sql.ErrNoRows: .. }\<close> compares with \<open>==\<close>.\<close>

definition dataFromDB :: "req_env \<Rightarrow> 's \<Rightarrow> 's session \<Rightarrow> go_error option \<times> 's session" where
  "dataFromDB env st s =
     (case cookie_id (sess_cookie s) of
        None \<Rightarrow> (Some ErrSessionInvalid, s)
      | Some sid \<Rightarrow>
          (case Get (sess_impl s) (db_read env) sid st of
             Inl err \<Rightarrow>
               ((if err = SqlErrNoRows then Some ErrSessionNotFound
                 else Some (WrapfErr ''%w: %s'' ErrCannotRetrieveSessionData [] err)),
                s\<lparr>sess_data := empty_session_data\<rparr>)
           | Inr d \<Rightarrow> (None, s\<lparr>sess_data := d\<rparr>)))"

text \<open>Saving the cookie: on success the library adds a \<open>Set-Cookie\<close> header.\<close>

definition save_cookie :: "req_env \<Rightarrow> gsession \<Rightarrow> go_error option \<times> hop list" where
  "save_cookie env g =
     (case lib_Save (cookies_lib env) g of
        Inl err \<Rightarrow> (Some err, [])
      | Inr c \<Rightarrow> (None, [AddCookie c]))"

definition with_max_age :: "int \<Rightarrow> gsession \<Rightarrow> gsession" where
  "with_max_age age g = g\<lparr>Options := (Options g)\<lparr>MaxAge := age\<rparr>\<rparr>"

definition saveState :: "req_env \<Rightarrow> string \<Rightarrow> int \<Rightarrow> 's session \<Rightarrow> (go_error option \<times> hop list) \<times> 's session" where
  "saveState env state age s =
     (let g = with_max_age age (sess_cookie s);
          g' = g\<lparr>Values := (Values g)(sessionStateName \<mapsto> VString state)\<rparr>
      in (save_cookie env g', s\<lparr>sess_cookie := g'\<rparr>))"

definition getState :: "'s session \<Rightarrow> string" where
  "getState s = (case cookie_state (sess_cookie s) of None \<Rightarrow> [] | Some state \<Rightarrow> state)"

definition newData :: "req_env \<Rightarrow> oauth_token \<Rightarrow> 's session \<Rightarrow> session_data result" where
  "newData env token s =
     (case GetIdToken (oidc_lib env) (sess_oidc s) token of
        Inl err \<Rightarrow> Inl err
      | Inr idToken \<Rightarrow>
          Inr \<lparr>Subject = token_subject idToken, AccessToken = tok_AccessToken token,
               RefreshToken = tok_RefreshToken token, IDToken = raw_token idToken,
               ExpiresAt = tok_Expiry token\<rparr>)"

text \<open>
  \<open>int(s.timeout.Seconds())\<close>: the timeout in seconds, rounded towards zero (the conversion
  through \<open>float64\<close> is exact for a whole number of seconds, which the configuration gives).
\<close>

definition saveSession :: "req_env \<Rightarrow> string \<Rightarrow> 's session \<Rightarrow> (go_error option \<times> hop list) \<times> 's session" where
  "saveSession env sid s =
     (let g = sess_cookie s;
          g1 = g\<lparr>Values := (Values g)(sessionStateName := None, sessionIdName \<mapsto> VString sid)\<rparr>;
          g2 = with_max_age (go_div (sess_timeout s) second) g1
      in (save_cookie env g2, s\<lparr>sess_cookie := g2\<rparr>))"

text \<open>
  The results of \<open>Save\<close>, \<open>Update\<close> and \<open>Delete\<close>: the error, the calls on the response, the
  session and the database afterwards.
\<close>

type_synonym 's outcome = "(go_error option \<times> hop list) \<times> 's session \<times> 's"

definition Session_Save :: "req_env \<Rightarrow> oauth_token \<Rightarrow> 's session \<Rightarrow> 's \<Rightarrow> 's outcome" where
  "Session_Save env token s st =
     (case newData env token s of
        Inl err \<Rightarrow> ((Some err, []), s\<lparr>sess_data := empty_session_data\<rparr>, st)
      | Inr d \<Rightarrow>
          (let s1 = s\<lparr>sess_data := d\<rparr> in
           case Add (sess_impl s) (db_write env) d st of
             (Inl err, st') \<Rightarrow> ((Some err, []), s1, st')
           | (Inr sid, st') \<Rightarrow> (let (r, s2) = saveSession env sid s1 in (r, s2, st'))))"

definition Session_Update :: "req_env \<Rightarrow> oauth_token \<Rightarrow> 's session \<Rightarrow> 's \<Rightarrow> 's outcome" where
  "Session_Update env token s st =
     (case newData env token s of
        Inl err \<Rightarrow> ((Some err, []), s\<lparr>sess_data := empty_session_data\<rparr>, st)
      | Inr d \<Rightarrow>
          (let s1 = s\<lparr>sess_data := d\<rparr> in
           case cookie_id (sess_cookie s1) of
             None \<Rightarrow> ((Some ErrSessionInvalid, []), s1, st)
           | Some sid \<Rightarrow>
               (case Update (sess_impl s) (db_write env) sid d st of
                  (Inl err, st') \<Rightarrow> ((Some err, []), s1, st')
                | (Inr _, st') \<Rightarrow> (let (r, s2) = saveSession env sid s1 in (r, s2, st')))))"

definition Session_Delete :: "req_env \<Rightarrow> 's session \<Rightarrow> 's \<Rightarrow> 's outcome" where
  "Session_Delete env s st =
     (case cookie_id (sess_cookie s) of
        None \<Rightarrow> ((Some ErrSessionInvalid, []), s, st)
      | Some sid \<Rightarrow>
          (case Delete (sess_impl s) (db_write env) sid st of
             (Inl err, st') \<Rightarrow> ((Some err, []), s, st')
           | (Inr _, st') \<Rightarrow>
               (let g = with_max_age (- 1) (sess_cookie s)
                in (save_cookie env g, s\<lparr>sess_cookie := g\<rparr>, st'))))"

section \<open>Lemmas\<close>

lemma with_max_age_simps [simp]:
  "Values (with_max_age a g) = Values g"
  "gs_name (with_max_age a g) = gs_name g"
  "gs_store (with_max_age a g) = gs_store g"
  "MaxAge (Options (with_max_age a g)) = a"
  by (simp_all add: with_max_age_def)

lemma cookie_simps [simp]:
  "cookie_id (with_max_age a g) = cookie_id g"
  "cookie_state (with_max_age a g) = cookie_state g"
  by (simp_all add: cookie_id_def cookie_state_def)

lemma save_cookie_hops: "save_cookie env g = (e, hops) \<Longrightarrow> list_all quiet hops"
  by (auto simp: save_cookie_def split: sum.splits)

lemma save_cookie_None_iff:
  "save_cookie env g = (None, hops) \<longleftrightarrow> (\<exists>c. lib_Save (cookies_lib env) g = Inr c \<and> hops = [AddCookie c])"
  by (auto simp: save_cookie_def split: sum.splits)

lemma saveSession_simps [simp]:
  "sess_data (snd (saveSession env sid s)) = sess_data s"
  "sess_impl (snd (saveSession env sid s)) = sess_impl s"
  "sess_oidc (snd (saveSession env sid s)) = sess_oidc s"
  "sess_timeout (snd (saveSession env sid s)) = sess_timeout s"
  "cookie_id (sess_cookie (snd (saveSession env sid s))) = Some sid"
  "cookie_state (sess_cookie (snd (saveSession env sid s))) = None"
  "MaxAge (Options (sess_cookie (snd (saveSession env sid s)))) = go_div (sess_timeout s) second"
  by (simp_all add: saveSession_def Let_def cookie_id_def cookie_state_def)

lemma saveSession_fst:
  "fst (saveSession env sid s) = save_cookie env (sess_cookie (snd (saveSession env sid s)))"
  by (simp add: saveSession_def Let_def)

lemma newData_Inr_iff:
  "newData env token s = Inr d \<longleftrightarrow>
     tok_Extra token ''id_token'' = Some (VString (IDToken d)) \<and>
     verified_for (oidc_lib env) (issuer (sess_oidc s)) (ClientID (sess_oidc s)) (IDToken d) (Subject d) \<and>
     AccessToken d = tok_AccessToken token \<and> RefreshToken d = tok_RefreshToken token \<and>
     ExpiresAt d = tok_Expiry token"
proof -
  have "newData env token s = Inr d \<longleftrightarrow>
      (\<exists>t. GetIdToken (oidc_lib env) (sess_oidc s) token = Inr t \<and>
        d = \<lparr>Subject = token_subject t, AccessToken = tok_AccessToken token,
             RefreshToken = tok_RefreshToken token, IDToken = raw_token t, ExpiresAt = tok_Expiry token\<rparr>)"
    by (auto simp: newData_def split: sum.splits)
  also have "\<dots> \<longleftrightarrow>
      GetIdToken (oidc_lib env) (sess_oidc s) token = Inr \<lparr>token_subject = Subject d, raw_token = IDToken d\<rparr> \<and>
      AccessToken d = tok_AccessToken token \<and> RefreshToken d = tok_RefreshToken token \<and>
      ExpiresAt d = tok_Expiry token"
    by (cases d) (auto intro: id_token.equality exI [of _ "\<lparr>token_subject = Subject d, raw_token = IDToken d\<rparr>"])
  finally show ?thesis by (auto simp: GetIdToken_Inr_iff)
qed

end
