(* ===== verification/Manager.thy ===== *)
theory Manager
  imports Session Backends
begin

text \<open>
  \<open>sessions/manager.go\<close>: the session manager, its constructor and the two ways to obtain a
  session from a request. The goroutine the constructor starts is modelled in \<open>Cleaner\<close>.
\<close>

text \<open>
  \<open>Manager\<close>: the fields that hold data, then the methods of the back end behind the interface
  value \<open>sessionImpl\<close>.
\<close>

record manager_base =
  m_cookieName :: string
  m_loginTimeout :: int
  m_sessionTimeout :: duration
  m_store :: cookie_store

record 's manager = manager_base +
  m_impl :: "'s session_impl"

text \<open>\<open>%w '%s': %s\<close>\<close>

definition cookie_error_format :: string where
  "cookie_error_format = ''%w '' @ [CHR 0x27] @ ''%s'' @ [CHR 0x27] @ '': %s''"

definition ErrNilValue :: go_error where [err_defs]:
  "ErrNilValue = ErrVar ''sessions.ErrNilValue'' ''you cannot pass a nil value''"

text \<open>\<open>sessions.Configuration\<close>; the key pairs are the fields of \<open>key_config\<close>.\<close>

record manager_config = key_config +
  CookieNameOf :: string
  CookieDomainOf :: string
  LoginTimeout :: duration
  SessionTimeout :: duration
  SessionImpl :: session_iface

section \<open>NewManager\<close>

definition manager_cookie_options :: "string \<Rightarrow> cookie_options" where
  "manager_cookie_options domain =
     \<lparr>Path = ''/'', Domain = domain, MaxAge = 0, Secure = True, HttpOnly = True,
      SameSite = SameSiteStrictMode\<rparr>"

text \<open>The nil test is on the interface value, not on the pointer it may hold.\<close>

definition NewManager :: "manager_config \<Rightarrow> (manager_base \<times> session_iface) result" where
  "NewManager c =
     (if SessionImpl c = NilIface then Inl (Wrapf ''%w: %s'' ErrNilValue [''Configuration.DB''])
      else and_then (keyPairsAsSlice (key_config.truncate c)) (\<lambda>kpSlice.
        Inr (\<lparr>m_cookieName = CookieNameOf c,
              m_loginTimeout = go_div (LoginTimeout c) second,
              m_sessionTimeout = SessionTimeout c,
              m_store = \<lparr>key_slices = kpSlice, store_options = manager_cookie_options (CookieDomainOf c)\<rparr>\<rparr>,
             SessionImpl c)))"

text \<open>The manager with the methods it calls; \<open>None\<close> where calling one dereferences nil.\<close>

definition manager_of :: "manager_base \<times> session_iface \<Rightarrow> store manager option" where
  "manager_of mi = map_option (\<lambda>i. manager_base.extend (fst mi) \<lparr>m_impl = i\<rparr>) (impl_of_iface (snd mi))"

section \<open>Sessions of a request\<close>

text \<open>The literal \<open>&Session{session: .., sessionImpl: .., timeout: .., oidcConfig: ..}\<close>.\<close>

definition session_for :: "'s manager \<Rightarrow> oidc_config \<Rightarrow> gsession \<Rightarrow> 's session" where
  "session_for m c g =
     \<lparr>sess_impl = m_impl m, sess_cookie = g, sess_oidc = c,
      sess_data = empty_session_data, sess_timeout = m_sessionTimeout m\<rparr>"

definition NewSession :: "req_env \<Rightarrow> 's manager \<Rightarrow> oidc_config \<Rightarrow> request \<Rightarrow> 's session result" where
  "NewSession env m c r =
     (case lib_New (cookies_lib env) (m_store m) (req_cookies r) (m_cookieName m) of
        (_, Some err) \<Rightarrow> Inl (WrapfErr cookie_error_format ErrCannotCreateCookie [m_cookieName m] err)
      | (g, None) \<Rightarrow> Inr (session_for m c g))"

definition GetSession :: "req_env \<Rightarrow> 's manager \<Rightarrow> oidc_config \<Rightarrow> request \<Rightarrow> 's \<Rightarrow> 's session result" where
  "GetSession env m c r st =
     (case lib_Get (cookies_lib env) (m_store m) (req_cookies r) (m_cookieName m) of
        (_, Some err) \<Rightarrow> Inl (WrapfErr cookie_error_format ErrCannotGetCookie [m_cookieName m] err)
      | (g, None) \<Rightarrow>
          (let s = session_for m c g
           in if cookie_state g \<noteq> None then Inr s
              else (case dataFromDB env st s of
                      (Some err, _) \<Rightarrow> Inl err
                    | (None, s') \<Rightarrow> Inr s')))"

section \<open>Lemmas\<close>

lemma session_for_simps [simp]:
  "sess_impl (session_for m c g) = m_impl m"
  "sess_cookie (session_for m c g) = g"
  "sess_oidc (session_for m c g) = c"
  "sess_data (session_for m c g) = empty_session_data"
  "sess_timeout (session_for m c g) = m_sessionTimeout m"
  by (simp_all add: session_for_def)

text \<open>The cookie of a request, when the library can decode it.\<close>

definition request_cookie :: "req_env \<Rightarrow> 's manager \<Rightarrow> request \<Rightarrow> gsession \<times> go_error option" where
  "request_cookie env m r = lib_Get (cookies_lib env) (m_store m) (req_cookies r) (m_cookieName m)"

text \<open>The request presents a session id: its cookie decodes, holds that id and no login state.\<close>

definition presents :: "req_env \<Rightarrow> 's manager \<Rightarrow> request \<Rightarrow> string \<Rightarrow> bool" where
  "presents env m r sid \<longleftrightarrow>
     (\<exists>g. request_cookie env m r = (g, None) \<and> cookie_state g = None \<and> cookie_id g = Some sid)"

text \<open>How \<open>dataFromDB\<close> reports an error of the back end.\<close>

definition db_error :: "go_error \<Rightarrow> go_error" where
  "db_error err =
     (if err = SqlErrNoRows then ErrSessionNotFound
      else WrapfErr ''%w: %s'' ErrCannotRetrieveSessionData [] err)"

lemma GetSession_cases:
  obtains
    (bad_cookie) g err where "request_cookie env m r = (g, Some err)"
      "GetSession env m c r st = Inl (WrapfErr cookie_error_format ErrCannotGetCookie [m_cookieName m] err)"
  | (login) g where "request_cookie env m r = (g, None)" "cookie_state g \<noteq> None"
      "GetSession env m c r st = Inr (session_for m c g)"
  | (no_id) g where "request_cookie env m r = (g, None)" "cookie_state g = None" "cookie_id g = None"
      "GetSession env m c r st = Inl ErrSessionInvalid"
  | (failed) g sid err where "request_cookie env m r = (g, None)" "presents env m r sid"
      "Get (m_impl m) (db_read env) sid st = Inl err" "GetSession env m c r st = Inl (db_error err)"
  | (loaded) g sid d where "request_cookie env m r = (g, None)" "presents env m r sid"
      "cookie_id g = Some sid" "cookie_state g = None"
      "Get (m_impl m) (db_read env) sid st = Inr d"
      "GetSession env m c r st = Inr ((session_for m c g)\<lparr>sess_data := d\<rparr>)"
proof -
  obtain g e where rc: "request_cookie env m r = (g, e)" by fastforce
  show thesis
  proof (cases e)
    case (Some err)
    with rc show thesis by (intro bad_cookie) (auto simp: GetSession_def request_cookie_def)
  next
    case None
    with rc have rc: "request_cookie env m r = (g, None)" by simp
    show thesis
    proof (cases "cookie_state g")
      case (Some x)
      with rc show thesis by (intro login) (auto simp: GetSession_def request_cookie_def Let_def)
    next
      case state: None
      show thesis
      proof (cases "cookie_id g")
        case None
        with rc state show thesis
          by (intro no_id) (auto simp: GetSession_def request_cookie_def dataFromDB_def Let_def)
      next
        case (Some sid)
        with rc state have p: "presents env m r sid" by (auto simp: presents_def)
        show thesis
        proof (cases "Get (m_impl m) (db_read env) sid st")
          case (Inl err)
          with rc state Some p show thesis
            by (intro failed) (auto simp: GetSession_def request_cookie_def dataFromDB_def db_error_def Let_def)
        next
          case (Inr d)
          with rc state Some p show thesis
            by (intro loaded) (auto simp: GetSession_def request_cookie_def dataFromDB_def Let_def)
        qed
      qed
    qed
  qed
qed

text \<open>The variables the middleware compares with \<open>==\<close>: only two of them can ever be met.\<close>

lemma db_error_ne [simp]: "db_error err \<noteq> ErrCannotGetCookie" "db_error err \<noteq> ErrSessionInvalid"
  by (auto simp: db_error_def err_defs)

lemma session_errors_distinct [simp]:
  "ErrSessionInvalid \<noteq> ErrCannotGetCookie" "ErrSessionInvalid \<noteq> ErrSessionNotFound"
  "ErrSessionNotFound \<noteq> ErrCannotGetCookie" "ErrSessionNotFound \<noteq> ErrSessionInvalid"
  "WrapfErr f e ss e' \<noteq> ErrCannotGetCookie" "WrapfErr f e ss e' \<noteq> ErrSessionNotFound"
  "WrapfErr f e ss e' \<noteq> ErrSessionInvalid"
  by (simp_all add: err_defs)

lemma GetSession_error_not_cookie: "GetSession env m c r st \<noteq> Inl ErrCannotGetCookie"
  by (rule GetSession_cases [of env m r c st]) simp_all

end
