(* ===== verification/Handlers.thy ===== *)
theory Handlers
  imports Manager Zlogger Go_Encoding Go_Query
begin

text \<open>
  \<open>sessions/handler.go\<close> and \<open>sessions/middleware.go\<close>: the login, callback, logout and
  userinfo handlers and the authentication middleware. A handler takes the surroundings of
  the request, the manager, the OIDC configuration, the request and the database, and returns
  the calls it makes (on the response and on the request logger) and the database afterwards.
\<close>

text \<open>\<open>zlogger.FromContext(r.Context())\<close>, the first call of every handler.\<close>

definition from_context :: "request \<Rightarrow> hop list" where [http_defs]:
  "from_context r = [FromCtx (fst (req_trace r)) (snd (req_trace r))]"

definition reply_error :: "req_env \<Rightarrow> nat \<Rightarrow> string \<Rightarrow> go_error option \<Rightarrow> hop list" where [http_defs]:
  "reply_error env code description err = JsonError (timestamp env) code description err"

section \<open>Login\<close>

text \<open>
  \<open>rand.Read\<close> fills the 128 bytes from the front; its error is ignored, so what it did not
  fill stays zero.
\<close>

definition state_bytes :: "8 word list \<Rightarrow> 8 word list" where
  "state_bytes drawn = take 128 drawn @ replicate (128 - length drawn) 0"

definition generateOAuthState :: "req_env \<Rightarrow> string" where
  "generateOAuthState env = b64_encode (state_bytes (fst (random_bytes env)))"

definition LoginHandlerOidc :: "req_env \<Rightarrow> 's manager \<Rightarrow> oidc_config \<Rightarrow> request \<Rightarrow> hop list" where
  "LoginHandlerOidc env m c r =
     from_context r @
     (case NewSession env m c r of
        Inl err \<Rightarrow> reply_error env 500 ''cannot create a new session'' (Some err)
      | Inr session \<Rightarrow>
          (let state = generateOAuthState env in
           case fst (saveState env state (m_loginTimeout m) session) of
             (Some err, hops) \<Rightarrow>
               hops @ reply_error env 500 ''cannot save the oauth state in the session'' (Some err)
           | (None, hops) \<Rightarrow> hops @ http_redirect (req_method r) (AuthCodeURL env c state) 302))"

section \<open>Callback\<close>

text \<open>
  \<open>r.URL.Query().Get\<close> reads the query only, \<open>r.FormValue\<close> the parsed body before the query.
\<close>

definition query_value :: "request \<Rightarrow> string \<Rightarrow> string" where
  "query_value r k = values_get (parse_query (req_query r)) k"

definition form_value :: "request \<Rightarrow> string \<Rightarrow> string" where
  "form_value r k = values_get (req_post_form r @ parse_query (req_query r)) k"

definition CallbackHandlerOidc ::
    "req_env \<Rightarrow> 's manager \<Rightarrow> oidc_config \<Rightarrow> string \<Rightarrow> request \<Rightarrow> 's \<Rightarrow> hop list \<times> 's" where
  "CallbackHandlerOidc env m c postLoginRedirectURI r st =
     (case GetSession env m c r st of
        Inl err \<Rightarrow>
          (from_context r @ reply_error env 500 ''cannot retrieve the session for oidc callback'' (Some err), st)
      | Inr session \<Rightarrow>
          (let responseState = query_value r sessionStateName in
           if getState session \<noteq> responseState then
             (from_context r @ reply_error env 401 ''cannot validate state value for oidc callback'' None, st)
           else
             (case Exchange env c (form_value r ''code'') of
                Inl err \<Rightarrow>
                  (from_context r @ reply_error env 401 ''cannot validate oauth code for oidc callback'' (Some err), st)
              | Inr token \<Rightarrow>
                  (case NewSession env m c r of
                     Inl err \<Rightarrow>
                       (from_context r @ reply_error env 500 ''cannot reinitialize the existing session for oidc callback'' (Some err), st)
                   | Inr newSession \<Rightarrow>
                       (case Session_Save env token newSession st of
                          ((Some err, hops), _, st') \<Rightarrow>
                            (from_context r @ hops @ reply_error env 500 ''cannot save the new session for oidc callback'' (Some err), st')
                        | ((None, hops), _, st') \<Rightarrow>
                            (from_context r @ hops @ http_redirect (req_method r) postLoginRedirectURI 302, st'))))))"

section \<open>Logout\<close>

definition logout_query :: "string \<Rightarrow> string \<Rightarrow> string" where
  "logout_query idToken postLogoutRedirectURI =
     ''id_token_hint='' @ query_escape idToken @ ''&post_logout_redirect_uri='' @ query_escape postLogoutRedirectURI"

definition logout_url :: "oidc_config \<Rightarrow> string \<Rightarrow> string \<Rightarrow> string" where
  "logout_url c idToken postLogoutRedirectURI =
     EndSessionEndpoint (OidcEndpoints c) @ ''?'' @ logout_query idToken postLogoutRedirectURI"

definition LogoutHandlerOidc ::
    "req_env \<Rightarrow> 's manager \<Rightarrow> oidc_config \<Rightarrow> string \<Rightarrow> request \<Rightarrow> 's \<Rightarrow> hop list \<times> 's" where
  "LogoutHandlerOidc env m c postLogoutRedirectURI r st =
     (case GetSession env m c r st of
        Inl err \<Rightarrow>
          (from_context r @ reply_error env 500 ''cannot retrieve session for logout handler'' (Some err), st)
      | Inr session \<Rightarrow>
          (case Session_Delete env session st of
             ((Some err, hops), _, st') \<Rightarrow>
               (from_context r @ hops @ reply_error env 500 ''cannot delete the session for logout handler'' (Some err), st')
           | ((None, hops), session', st') \<Rightarrow>
               (from_context r @ hops
                  @ http_redirect (req_method r)
                      (logout_url c (IDToken (sess_data session')) postLogoutRedirectURI) 302, st')))"

section \<open>The authentication middleware\<close>

text \<open>
  The wrapped handler gets the access token that is put into the context. In the branch for
  \<open>ErrCannotGetCookie\<close> the code does not return: it goes on with a nil session, whose first
  use is a nil dereference.
\<close>

definition AuthenticationMiddleware ::
    "req_env \<Rightarrow> 's manager \<Rightarrow> oidc_config \<Rightarrow> (string \<Rightarrow> 's \<Rightarrow> hop list \<times> 's) \<Rightarrow> request \<Rightarrow> 's \<Rightarrow> hop list \<times> 's" where
  "AuthenticationMiddleware env m c next_handler r st =
     (case GetSession env m c r st of
        Inl err \<Rightarrow>
          (if err = ErrCannotGetCookie then
             (from_context r @ reply_error env 401 ''invalid session data'' (Some err) @ [Panic], st)
           else if err = ErrSessionNotFound then
             (from_context r @ reply_error env 401 ''no session found'' (Some err), st)
           else if err = ErrSessionInvalid then
             (from_context r @ reply_error env 401 ''invalid or expired session'' (Some err), st)
           else
             (from_context r @ reply_error env 500 ''cannot retrieve the session'' (Some err), st))
      | Inr session \<Rightarrow>
          (if IsExpired (clock env) (sess_data session) then
             (case RefreshGrant env c (RefreshToken (sess_data session)) of
                Inl err \<Rightarrow>
                  (from_context r @ reply_error env 401 ''cannot renew the access token'' (Some err), st)
              | Inr token \<Rightarrow>
                  (case Session_Update env token session st of
                     ((Some err, hops), _, st') \<Rightarrow>
                       (from_context r @ hops @ reply_error env 500 ''cannot update the session'' (Some err), st')
                   | ((None, hops), session', st') \<Rightarrow>
                       (let (next_hops, st'') = next_handler (AccessToken (sess_data session')) st'
                        in (from_context r @ hops @ next_hops, st''))))
           else
             (let (next_hops, st') = next_handler (AccessToken (sess_data session)) st
              in (from_context r @ next_hops, st'))))"

section \<open>Userinfo\<close>

text \<open>The wrapped handler, with the value the context holds for the access token.\<close>

definition userinfo_inner :: "req_env \<Rightarrow> oidc_config \<Rightarrow> request \<Rightarrow> gvalue option \<Rightarrow> hop list" where
  "userinfo_inner env c r context_token =
     from_context r @
     (case as_string context_token of
        None \<Rightarrow> reply_error env 500 ''cannot retrieve the access token from the context'' None
      | Some accessToken \<Rightarrow>
          (case client_Get env c accessToken (UserInfoEndpoint (OidcEndpoints c)) of
             Inl err \<Rightarrow> reply_error env 500 ''cannot retrieve the oidc userinfo endpoint'' (Some err)
           | Inr resp \<Rightarrow>
               [SetHeader ''Content-Type'' ''application/json'', WriteHeader 200]
               @ map Write (ui_chunks resp)
               @ (case ui_copy_error resp of
                    Some err \<Rightarrow> reply_error env 500 ''cannot copy userinfo response to the client'' (Some err)
                  | None \<Rightarrow> [])
               @ (case ui_close_error resp of
                    Some err \<Rightarrow> [SetErr ''error closing userinfo handler body: '' (Some err)]
                  | None \<Rightarrow> [])))"

definition UserInfoHandlerOidc ::
    "req_env \<Rightarrow> 's manager \<Rightarrow> oidc_config \<Rightarrow> request \<Rightarrow> 's \<Rightarrow> hop list \<times> 's" where
  "UserInfoHandlerOidc env m c r st =
     AuthenticationMiddleware env m c (\<lambda>token st'. (userinfo_inner env c r (Some (VString token)), st')) r st"

section \<open>Lemmas\<close>

text \<open>What the client sees of an error reply that follows calls which left the header open.\<close>

lemma reply_error_client:
  assumes "list_all quiet pre" and "Panic \<notin> set post"
  shows "client_status (pre @ reply_error env code d e @ post) = Some code"
    and "client_cookies (pre @ reply_error env code d e @ post) = cookies_of pre"
proof -
  let ?pre = "pre @ [SetErr d e, SetHeader ''Content-Type'' ''application/json; charset=utf-8'',
      SetHeader ''X-Content-Type-Options'' ''nosniff'']"
  let ?post = "Write (error_body code d (timestamp env)) # post"
  have split: "pre @ reply_error env code d e @ post = ?pre @ WriteHeader code # ?post"
    by (simp add: reply_error_def JsonError_def)
  have q: "list_all quiet ?pre" "Panic \<notin> set ?post" "cookies_of ?pre = cookies_of pre"
    using assms by auto
  show "client_status (pre @ reply_error env code d e @ post) = Some code"
    unfolding split by (rule client_status_decided(1) [OF q(1,2)])
  show "client_cookies (pre @ reply_error env code d e @ post) = cookies_of pre"
    unfolding split client_status_decided(2) [OF q(1,2)] by (rule q(3))
qed

lemmas reply_client = reply_error_client [where post = "[]", simplified]

lemma from_context_simps [simp]:
  "list_all quiet (from_context r)" "Panic \<notin> set (from_context r)" "cookies_of (from_context r) = []"
  by (simp_all add: from_context_def)

lemma no_panic [simp]:
  "Panic \<notin> set (reply_error env code d e)" "Panic \<notin> set (http_redirect meth url code)"
  by (simp_all add: http_defs http_redirect_def)

lemma cookies_of_reply [simp]:
  "cookies_of (reply_error env code d e) = []" "cookies_of (http_redirect meth url code) = []"
  by (simp_all add: http_defs http_redirect_def)

end
