(* ===== verification/Handler_Outcomes.thy ===== *)
theory Handler_Outcomes
  imports Handlers
begin

text \<open>
  The ways through the handlers, for any back end: what the three database operations of a session
  come to, how the middleware, the callback and the logout can end, and which call of
  the back end each of them makes. Nothing here needs the contract of a back end; \<open>Access\<close>
  adds it.
\<close>

text \<open>
  The request is answered without the wrapped handler: some status and some database state,
  whatever the handler is.
\<close>

definition answered_with ::
    "((string \<Rightarrow> 's \<Rightarrow> hop list \<times> 's) \<Rightarrow> hop list \<times> 's) \<Rightarrow> nat \<Rightarrow> 's \<Rightarrow> bool" where
  "answered_with handler code st' \<longleftrightarrow>
     (\<exists>hops. client_status hops = Some code \<and> (\<forall>next_handler. handler next_handler = (hops, st')))"

lemma answered_withI:
  assumes "client_status hops = Some code" "\<And>next_handler. handler next_handler = (hops, st')"
  shows "answered_with handler code st'"
  using assms by (auto simp: answered_with_def)

text \<open>The wrapped handler runs, with this token and this database state, after these calls.\<close>

definition passed_with ::
    "((string \<Rightarrow> 's \<Rightarrow> hop list \<times> 's) \<Rightarrow> hop list \<times> 's) \<Rightarrow> hop list \<Rightarrow> string \<Rightarrow> 's \<Rightarrow> bool" where
  "passed_with handler pre token st' \<longleftrightarrow>
     list_all quiet pre \<and>
     (\<forall>next_handler. handler next_handler = (pre @ fst (next_handler token st'), snd (next_handler token st')))"

lemma not_passed_and_answered:
  assumes "passed_with handler pre token st1"
  shows "\<not> answered_with handler code st2"
proof
  assume "answered_with handler code st2"
  then obtain hops where h: "\<And>n. handler n = (hops, st2)" by (auto simp: answered_with_def)
  have p: "handler n = (pre @ fst (n token st1), snd (n token st1))" for n
    using assms by (simp add: passed_with_def)
  have "hops = pre" using h [of "\<lambda>_ s. ([], s)"] p [of "\<lambda>_ s. ([], s)"] by simp
  moreover have "hops = pre @ [Panic]" using h [of "\<lambda>_ s. ([Panic], s)"] p [of "\<lambda>_ s. ([Panic], s)"] by simp
  ultimately show False by simp
qed

lemma passed_with_unique:
  fixes handler :: "(string \<Rightarrow> 'a \<Rightarrow> hop list \<times> 'a) \<Rightarrow> hop list \<times> 'a"
  assumes "passed_with handler pre token st1" and "passed_with handler pre' token' st2"
  shows "pre = pre'" "token = token'" "st1 = st2"
proof -
  have eq: "pre @ fst (n token st1) = pre' @ fst (n token' st2) \<and> snd (n token st1) = snd (n token' st2)"
    for n :: "string \<Rightarrow> 'a \<Rightarrow> hop list \<times> 'a"
  proof -
    have "handler n = (pre @ fst (n token st1), snd (n token st1))"
      using assms(1) by (simp add: passed_with_def)
    moreover have "handler n = (pre' @ fst (n token' st2), snd (n token' st2))"
      using assms(2) by (simp add: passed_with_def)
    ultimately show ?thesis by simp
  qed
  show pre: "pre = pre'" using eq [of "\<lambda>_ s. ([], s)"] by simp
  show "st1 = st2" using eq [of "\<lambda>_ s. ([], s)"] by simp
  show "token = token'" using eq [of "\<lambda>t s. ([Write t], s)"] pre by simp
qed

text \<open>
  What is used of \<open>golang.org/x/oauth2\<close>: a token source without a refresh token reports an
  error instead of asking the provider.
\<close>

definition refuses_empty_refresh :: "req_env \<Rightarrow> oidc_config \<Rightarrow> bool" where
  "refuses_empty_refresh env c \<longleftrightarrow> (\<exists>e. RefreshGrant env c [] = Inl e)"

text \<open>The new data of a session that is renewed: a verified token of the provider.\<close>

definition renewed_by :: "req_env \<Rightarrow> oidc_config \<Rightarrow> session_data \<Rightarrow> session_data \<Rightarrow> bool" where
  "renewed_by env c d d' \<longleftrightarrow>
     (\<exists>token. RefreshGrant env c (RefreshToken d) = Inr token \<and>
        AccessToken d' = tok_AccessToken token \<and> RefreshToken d' = tok_RefreshToken token \<and>
        ExpiresAt d' = tok_Expiry token \<and> tok_Extra token ''id_token'' = Some (VString (IDToken d'))) \<and>
     verified_for (oidc_lib env) (issuer c) (ClientID c) (IDToken d') (Subject d') \<and>
     Subject d' = Subject d"

section \<open>The database side of a session\<close>

lemma Session_Update_cases:
  assumes "Session_Update env token s st = ((e, hops), s', st')"
  obtains
    (no_data) err where "newData env token s = Inl err" "e = Some err" "hops = []" "st' = st"
  | (no_id) d where "newData env token s = Inr d" "cookie_id (sess_cookie s) = None"
      "e = Some ErrSessionInvalid" "hops = []" "st' = st"
  | (refused) d sid err where "newData env token s = Inr d" "cookie_id (sess_cookie s) = Some sid"
      "Update (sess_impl s) (db_write env) sid d st = (Inl err, st')" "e = Some err" "hops = []"
  | (written) d sid where "newData env token s = Inr d" "cookie_id (sess_cookie s) = Some sid"
      "Update (sess_impl s) (db_write env) sid d st = (Inr (), st')"
      "sess_data s' = d" "cookie_id (sess_cookie s') = Some sid" "cookie_state (sess_cookie s') = None"
      "save_cookie env (sess_cookie s') = (e, hops)"
proof (cases "newData env token s")
  case (Inl err)
  with assms show thesis by (intro no_data) (auto simp: Session_Update_def)
next
  case (Inr d)
  show thesis
  proof (cases "cookie_id (sess_cookie s)")
    case None
    with assms Inr show thesis by (intro no_id) (auto simp: Session_Update_def Let_def)
  next
    case (Some sid)
    obtain u st1 where U: "Update (sess_impl s) (db_write env) sid d st = (u, st1)" by fastforce
    show thesis
    proof (cases u)
      case (Inl err)
      with assms Inr Some U show thesis by (intro refused) (auto simp: Session_Update_def Let_def)
    next
      case (Inr v)
      let ?s2 = "snd (saveSession env sid (s\<lparr>sess_data := d\<rparr>))"
      have "(e, hops) = fst (saveSession env sid (s\<lparr>sess_data := d\<rparr>))" "s' = ?s2" "st' = st1"
        using assms \<open>newData env token s = Inr d\<close> Some U Inr
        by (auto simp: Session_Update_def Let_def split: prod.splits)
      with \<open>newData env token s = Inr d\<close> Some U Inr show thesis
        by (intro written [of d sid]) (simp_all add: saveSession_fst [symmetric])
    qed
  qed
qed

lemma Session_Save_cases:
  assumes "Session_Save env token s st = ((e, hops), s', st')"
  obtains
    (no_data) err where "newData env token s = Inl err" "e = Some err" "hops = []" "st' = st"
  | (refused) d err where "newData env token s = Inr d"
      "Add (sess_impl s) (db_write env) d st = (Inl err, st')" "e = Some err" "hops = []"
  | (written) d sid where "newData env token s = Inr d"
      "Add (sess_impl s) (db_write env) d st = (Inr sid, st')"
      "sess_data s' = d" "cookie_id (sess_cookie s') = Some sid" "cookie_state (sess_cookie s') = None"
      "MaxAge (Options (sess_cookie s')) = go_div (sess_timeout s) second"
      "save_cookie env (sess_cookie s') = (e, hops)"
proof (cases "newData env token s")
  case (Inl err)
  with assms show thesis by (intro no_data) (auto simp: Session_Save_def)
next
  case (Inr d)
  obtain u st1 where A: "Add (sess_impl s) (db_write env) d st = (u, st1)" by fastforce
  show thesis
  proof (cases u)
    case (Inl err)
    with assms Inr A show thesis by (intro refused) (auto simp: Session_Save_def Let_def)
  next
    case (Inr sid)
    let ?s2 = "snd (saveSession env sid (s\<lparr>sess_data := d\<rparr>))"
    have "(e, hops) = fst (saveSession env sid (s\<lparr>sess_data := d\<rparr>))" "s' = ?s2" "st' = st1"
      using assms \<open>newData env token s = Inr d\<close> A Inr
      by (auto simp: Session_Save_def Let_def split: prod.splits)
    with \<open>newData env token s = Inr d\<close> A Inr show thesis
      by (intro written [of d sid]) (simp_all add: saveSession_fst [symmetric])
  qed
qed

lemma Session_Delete_cases:
  assumes "Session_Delete env s st = ((e, hops), s', st')"
  obtains
    (no_id) "cookie_id (sess_cookie s) = None" "e = Some ErrSessionInvalid" "hops = []" "st' = st"
  | (refused) sid err where "cookie_id (sess_cookie s) = Some sid"
      "Delete (sess_impl s) (db_write env) sid st = (Inl err, st')" "e = Some err" "hops = []"
  | (deleted) sid where "cookie_id (sess_cookie s) = Some sid"
      "Delete (sess_impl s) (db_write env) sid st = (Inr (), st')" "sess_data s' = sess_data s"
      "save_cookie env (with_max_age (- 1) (sess_cookie s)) = (e, hops)"
proof (cases "cookie_id (sess_cookie s)")
  case None
  with assms show thesis by (intro no_id) (auto simp: Session_Delete_def)
next
  case (Some sid)
  obtain u st1 where D: "Delete (sess_impl s) (db_write env) sid st = (u, st1)" by fastforce
  show thesis
  proof (cases u)
    case (Inl err)
    with assms Some D show thesis by (intro refused) (auto simp: Session_Delete_def Let_def)
  next
    case (Inr v)
    with assms Some D show thesis by (intro deleted [of sid]) (auto simp: Session_Delete_def Let_def)
  qed
qed

section \<open>The middleware\<close>

lemma middleware_bad_cookie:
  assumes "request_cookie env m r = (g, Some err)"
  shows "answered_with (\<lambda>n. AuthenticationMiddleware env m c n r st) 500 st"
  using assms
  by (cases rule: GetSession_cases [of env m r c st])
     (auto intro!: answered_withI reply_client(1) simp: AuthenticationMiddleware_def)

lemma middleware_failed_get:
  assumes "presents env m r sid" and "Get (m_impl m) (db_read env) sid st = Inl err"
  shows "answered_with (\<lambda>n. AuthenticationMiddleware env m c n r st) (if err = SqlErrNoRows then 401 else 500) st"
proof -
  have "GetSession env m c r st = Inl (db_error err)"
    using assms by (cases rule: GetSession_cases [of env m r c st]) (auto simp: presents_def)
  then show ?thesis
    by (auto intro!: answered_withI reply_client(1) simp: AuthenticationMiddleware_def db_error_def)
qed

text \<open>A cookie of a login in progress lets nobody through: its data is the zero value.\<close>

lemma middleware_login_cookie:
  assumes "request_cookie env m r = (g, None)" "cookie_state g \<noteq> None"
    and "zero_time < clock env" "refuses_empty_refresh env c"
  shows "answered_with (\<lambda>n. AuthenticationMiddleware env m c n r st) 401 st"
proof -
  have "GetSession env m c r st = Inr (session_for m c g)"
    using assms(1,2) by (cases rule: GetSession_cases [of env m r c st]) (auto simp: presents_def)
  moreover have "IsExpired (clock env) empty_session_data"
    using assms(3) by (simp add: IsExpired_def empty_session_data_def)
  moreover have "RefreshToken empty_session_data = []" by (simp add: empty_session_data_def)
  moreover obtain e where "RefreshGrant env c [] = Inl e"
    using assms(4) by (auto simp: refuses_empty_refresh_def)
  ultimately show ?thesis
    by (auto intro!: answered_withI reply_client(1) simp: AuthenticationMiddleware_def)
qed

lemma middleware_no_id:
  assumes "request_cookie env m r = (g, None)" "cookie_state g = None" "cookie_id g = None"
  shows "answered_with (\<lambda>n. AuthenticationMiddleware env m c n r st) 401 st"
proof -
  have "GetSession env m c r st = Inl ErrSessionInvalid"
    using assms by (cases rule: GetSession_cases [of env m r c st]) (auto simp: presents_def)
  then show ?thesis
    by (auto intro!: answered_withI reply_client(1) simp: AuthenticationMiddleware_def)
qed

lemma middleware_fresh:
  assumes "GetSession env m c r st = Inr s" "\<not> IsExpired (clock env) (sess_data s)"
  shows "passed_with (\<lambda>n. AuthenticationMiddleware env m c n r st) (from_context r) (AccessToken (sess_data s)) st"
  using assms by (auto simp: passed_with_def AuthenticationMiddleware_def split: prod.splits)

lemma middleware_not_renewed:
  assumes "GetSession env m c r st = Inr s" "IsExpired (clock env) (sess_data s)"
    and "RefreshGrant env c (RefreshToken (sess_data s)) = Inl err"
  shows "answered_with (\<lambda>n. AuthenticationMiddleware env m c n r st) 401 st"
  using assms by (auto intro!: answered_withI reply_client(1) simp: AuthenticationMiddleware_def)

lemma middleware_update_failed:
  assumes "GetSession env m c r st = Inr s" "IsExpired (clock env) (sess_data s)"
    and "RefreshGrant env c (RefreshToken (sess_data s)) = Inr token"
    and "Session_Update env token s st = ((Some err, hops), s', st')" "list_all quiet hops"
  shows "answered_with (\<lambda>n. AuthenticationMiddleware env m c n r st) 500 st'"
proof (rule answered_withI)
  show "client_status (from_context r @ hops @ reply_error env 500 ''cannot update the session'' (Some err)) = Some 500"
    using reply_client(1) [of "from_context r @ hops"] assms(5) by simp
qed (simp add: AuthenticationMiddleware_def assms)

lemma middleware_renewed:
  assumes "GetSession env m c r st = Inr s" "IsExpired (clock env) (sess_data s)"
    and "RefreshGrant env c (RefreshToken (sess_data s)) = Inr token"
    and "Session_Update env token s st = ((None, hops), s', st')" "list_all quiet hops"
  shows "passed_with (\<lambda>n. AuthenticationMiddleware env m c n r st) (from_context r @ hops)
           (AccessToken (sess_data s')) st'"
  using assms by (auto simp: passed_with_def AuthenticationMiddleware_def split: prod.splits)

section \<open>A callback that succeeds\<close>

lemma callback_run:
  assumes "GetSession env m cfg r st = Inr s" "getState s = query_value r sessionStateName"
    and "Exchange env cfg (form_value r ''code'') = Inr token"
    and "lib_New (cookies_lib env) (m_store m) (req_cookies r) (m_cookieName m) = (g0, None)"
    and "newData env token (session_for m cfg g0) = Inr d"
    and "Add (m_impl m) (db_write env) d st = (Inr sid, st')"
    and "lib_Save (cookies_lib env) (with_max_age (go_div (m_sessionTimeout m) second)
      (g0\<lparr>Values := (Values g0)(sessionStateName := None, sessionIdName \<mapsto> VString sid)\<rparr>)) = Inr ck"
  shows "CallbackHandlerOidc env m cfg uri r st =
    ((from_context r @ [AddCookie ck]) @ http_redirect (req_method r) uri 302, st')"
proof -
  let ?s = "(session_for m cfg g0)\<lparr>sess_data := d\<rparr>"
  have "fst (saveSession env sid ?s) = (None, [AddCookie ck])"
    using assms(7) by (simp add: saveSession_def Let_def save_cookie_def)
  then obtain s2 where "saveSession env sid ?s = ((None, [AddCookie ck]), s2)" by (metis prod.collapse)
  then have "Session_Save env token (session_for m cfg g0) st = ((None, [AddCookie ck]), s2, st')"
    using assms(5,6) by (simp add: Session_Save_def Let_def)
  then show ?thesis using assms(1-4) by (simp add: CallbackHandlerOidc_def NewSession_def Let_def)
qed

lemma provider_answer:
  assumes "req_query r = ''state='' @ query_escape state @ ''&code='' @ query_escape code" "req_post_form r = []"
  shows "query_value r sessionStateName = state" "form_value r ''code'' = code"
proof -
  have "parse_query (req_query r) = [(''state'', state), (''code'', code)]"
    using parse_query_two [of "''state''" "''code''" state code] assms(1) by simp
  then show "query_value r sessionStateName = state" "form_value r ''code'' = code"
    using assms(2) by (simp_all add: query_value_def form_value_def values_get_def sessionStateName_def)
qed

lemma login_session:
  "request_cookie env m r = (g, None) \<Longrightarrow> cookie_state g = Some state \<Longrightarrow>
     GetSession env m cfg r st = Inr (session_for m cfg g) \<and> getState (session_for m cfg g) = state"
  by (cases rule: GetSession_cases [of env m r cfg st]) (auto simp: presents_def getState_def)

section \<open>The decision of the middleware\<close>

text \<open>An expired session: renewed and passed on, or answered.\<close>

lemma renewal_decides:
  assumes gs: "GetSession env m c r st = Inr ((session_for m c g)\<lparr>sess_data := d\<rparr>)"
    and exp: "IsExpired (clock env) d" and gid: "cookie_id g = Some sid"
  obtains
    (answered) code st' where "code \<in> {401, 500}"
      "answered_with (\<lambda>n. AuthenticationMiddleware env m c n r st) code st'"
  | (renewed) token d' ck st' where "RefreshGrant env c (RefreshToken d) = Inr token"
      "newData env token (session_for m c g) = Inr d'" "Update (m_impl m) (db_write env) sid d' st = (Inr (), st')"
      "passed_with (\<lambda>n. AuthenticationMiddleware env m c n r st) (from_context r @ [AddCookie ck]) (AccessToken d') st'"
proof (cases "RefreshGrant env c (RefreshToken d)")
  case (Inl err)
  with exp have "answered_with (\<lambda>n. AuthenticationMiddleware env m c n r st) 401 st"
    by (intro middleware_not_renewed [OF gs, of err]) simp_all
  then show thesis by (intro answered) auto
next
  case (Inr token)
  obtain e hops s' st' where U: "Session_Update env token ((session_for m c g)\<lparr>sess_data := d\<rparr>) st = ((e, hops), s', st')"
    by (metis prod.collapse)
  have quiet: "list_all quiet hops"
    using U by (cases rule: Session_Update_cases) (auto dest: save_cookie_hops)
  show thesis
  proof (cases e)
    case (Some err)
    with exp Inr U quiet have "answered_with (\<lambda>n. AuthenticationMiddleware env m c n r st) 500 st'"
      by (intro middleware_update_failed [OF gs, of token err hops s' st']) simp_all
    then show thesis by (intro answered) auto
  next
    case None
    have pass: "passed_with (\<lambda>n. AuthenticationMiddleware env m c n r st) (from_context r @ hops) (AccessToken (sess_data s')) st'"
      using exp Inr U None quiet by (intro middleware_renewed [OF gs, of token hops s' st']) simp_all
    from U show thesis
    proof (cases rule: Session_Update_cases)
      case (written d' sid')
      obtain ck where "hops = [AddCookie ck]" using written(7) None by (auto simp: save_cookie_None_iff)
      with pass written(4)
      have p: "passed_with (\<lambda>n. AuthenticationMiddleware env m c n r st) (from_context r @ [AddCookie ck]) (AccessToken d') st'"
        by simp
      have nd: "newData env token (session_for m c g) = Inr d'" using written(1) by (simp add: newData_Inr_iff)
      have "Update (m_impl m) (db_write env) sid d' st = (Inr (), st')" using written(2,3) gid by simp
      from renewed [OF Inr nd this p] show thesis .
    qed (use None in simp_all)
  qed
qed

lemma middleware_decides:
  assumes now: "zero_time < clock env" and oauth: "refuses_empty_refresh env c"
  obtains
    (answered) code st' where "code \<in> {401, 500}"
      "answered_with (\<lambda>n. AuthenticationMiddleware env m c n r st) code st'"
  | (fresh) sid d where "presents env m r sid" "Get (m_impl m) (db_read env) sid st = Inr d" "\<not> IsExpired (clock env) d"
      "passed_with (\<lambda>n. AuthenticationMiddleware env m c n r st) (from_context r) (AccessToken d) st"
  | (renewed) sid d token g d' ck st' where "presents env m r sid" "Get (m_impl m) (db_read env) sid st = Inr d"
      "IsExpired (clock env) d" "RefreshGrant env c (RefreshToken d) = Inr token"
      "newData env token (session_for m c g) = Inr d'" "Update (m_impl m) (db_write env) sid d' st = (Inr (), st')"
      "passed_with (\<lambda>n. AuthenticationMiddleware env m c n r st) (from_context r @ [AddCookie ck]) (AccessToken d') st'"
proof (rule GetSession_cases [of env m r c st])
  fix g err assume "request_cookie env m r = (g, Some err)"
  then show thesis by (intro answered [OF _ middleware_bad_cookie]) simp_all
next
  fix g assume "request_cookie env m r = (g, None)" "cookie_state g \<noteq> None"
  then show thesis using now oauth by (intro answered [OF _ middleware_login_cookie]) simp_all
next
  fix g assume "request_cookie env m r = (g, None)" "cookie_state g = None" "cookie_id g = None"
  then show thesis by (intro answered [OF _ middleware_no_id]) simp_all
next
  fix g sid err assume "presents env m r sid" "Get (m_impl m) (db_read env) sid st = Inl err"
  then show thesis by (intro answered [OF _ middleware_failed_get]) auto
next
  fix g sid d
  assume rc: "presents env m r sid" and gid: "cookie_id g = Some sid"
    and got: "Get (m_impl m) (db_read env) sid st = Inr d"
    and gs: "GetSession env m c r st = Inr ((session_for m c g)\<lparr>sess_data := d\<rparr>)"
  let ?s = "(session_for m c g)\<lparr>sess_data := d\<rparr>"
  show thesis
  proof (cases "IsExpired (clock env) d")
    case False
    with gs have "passed_with (\<lambda>n. AuthenticationMiddleware env m c n r st) (from_context r) (AccessToken d) st"
      using middleware_fresh [OF gs] by simp
    with rc got False show thesis by (rule fresh)
  next
    case True
    from gs True gid show thesis
    proof (cases rule: renewal_decides)
      case answered
      then show thesis by (rule that(1))
    next
      case (renewed token d' ck st')
      with rc got True show thesis by (intro that(3))
    qed
  qed
qed

section \<open>Callback and logout\<close>

text \<open>
  A callback is refused without a cookie, or it logs in: the state of the query is the one of
  the session, the code was exchanged, the id token verified, a row added and the new cookie set.
\<close>

lemma callback_outcome:
  assumes run: "CallbackHandlerOidc env m c uri r st = (hops, st')"
  obtains
    (refused) code where "code \<in> {401, 500}" "client_status hops = Some code" "client_cookies hops = []"
  | (logged_in) s token g d sid g' ck where "GetSession env m c r st = Inr s"
      "getState s = query_value r sessionStateName"
      "Exchange env c (form_value r ''code'') = Inr token"
      "newData env token (session_for m c g) = Inr d"
      "Add (m_impl m) (db_write env) d st = (Inr sid, st')"
      "cookie_id g' = Some sid" "cookie_state g' = None"
      "MaxAge (Options g') = go_div (m_sessionTimeout m) second"
      "lib_Save (cookies_lib env) g' = Inr ck"
      "hops = (from_context r @ [AddCookie ck]) @ http_redirect (req_method r) uri 302"
proof (cases "GetSession env m c r st")
  case (Inl err)
  with run show thesis
    by (intro refused [of 500]) (auto simp: CallbackHandlerOidc_def reply_client)
next
  case gs: (Inr s)
  show thesis
  proof (cases "getState s = query_value r sessionStateName")
    case False
    with run gs show thesis
      by (intro refused [of 401]) (auto simp: CallbackHandlerOidc_def reply_client)
  next
    case state: True
    show thesis
    proof (cases "Exchange env c (form_value r ''code'')")
      case (Inl err)
      with run gs state show thesis
        by (intro refused [of 401]) (auto simp: CallbackHandlerOidc_def reply_client)
    next
      case ex: (Inr token)
      show thesis
      proof (cases "NewSession env m c r")
        case (Inl err)
        with run gs state ex show thesis
          by (intro refused [of 500]) (auto simp: CallbackHandlerOidc_def reply_client)
      next
        case ns: (Inr s0)
        then obtain g where s0: "s0 = session_for m c g" by (auto simp: NewSession_def split: prod.splits option.splits)
        obtain e hs s1 st1 where S: "Session_Save env token s0 st = ((e, hs), s1, st1)"
          by (metis prod.collapse)
        have q: "list_all quiet hs" "e \<noteq> None \<Longrightarrow> cookies_of hs = []"
          using S by (cases rule: Session_Save_cases; auto dest: save_cookie_hops simp: save_cookie_def split: sum.splits)+
        show thesis
        proof (cases e)
          case (Some err)
          with run gs state ex ns S q have "hops = (from_context r @ hs) @ reply_error env 500
              ''cannot save the new session for oidc callback'' (Some err)"
            by (simp add: CallbackHandlerOidc_def)
          with q Some show thesis by (intro refused [of 500]) (simp_all add: reply_client del: append_assoc)
        next
          case None
          from S show thesis
          proof (cases rule: Session_Save_cases)
            case (written d sid)
            then obtain ck where ck: "lib_Save (cookies_lib env) (sess_cookie s1) = Inr ck" "hs = [AddCookie ck]"
              using None by (auto simp: save_cookie_None_iff)
            have hops: "hops = (from_context r @ [AddCookie ck]) @ http_redirect (req_method r) uri 302" "st1 = st'"
              using run gs state ex ns S None ck by (simp_all add: CallbackHandlerOidc_def)
            show thesis
              using gs state ex written ck hops s0 by (intro logged_in [of s token g d sid "sess_cookie s1" ck]) simp_all
          qed (use None in simp_all)
        qed
      qed
    qed
  qed
qed

text \<open>The cookie a session came from, and its data.\<close>

lemma GetSession_origin:
  assumes "GetSession env m c r st = Inr s" "cookie_id (sess_cookie s) = Some sid"
  obtains g d where "request_cookie env m r = (g, None)" "sess_cookie s = g" "sess_data s = d" "sess_impl s = m_impl m"
    "cookie_state g = None \<and> Get (m_impl m) (db_read env) sid st = Inr d \<or> cookie_state g \<noteq> None \<and> d = empty_session_data"
  using assms by (cases rule: GetSession_cases [of env m r c st]) (auto intro: that)

lemma logout_decides:
  assumes run: "LogoutHandlerOidc env m c uri r st = (hops, st')"
  obtains
    (refused) "client_status hops = Some 500" "client_cookies hops = []"
  | (logged_out) g sid d ck where "request_cookie env m r = (g, None)" "cookie_id g = Some sid"
      "cookie_state g = None \<and> Get (m_impl m) (db_read env) sid st = Inr d \<or> cookie_state g \<noteq> None \<and> d = empty_session_data"
      "Delete (m_impl m) (db_write env) sid st = (Inr (), st')"
      "lib_Save (cookies_lib env) (with_max_age (- 1) g) = Inr ck"
      "hops = (from_context r @ [AddCookie ck]) @ http_redirect (req_method r) (logout_url c (IDToken d) uri) 302"
proof (cases "GetSession env m c r st")
  case (Inl err)
  with run show thesis by (intro refused) (auto simp: LogoutHandlerOidc_def reply_client)
next
  case gs: (Inr s)
  obtain e hs s1 st1 where D: "Session_Delete env s st = ((e, hs), s1, st1)" by (metis prod.collapse)
  have q: "list_all quiet hs" "e \<noteq> None \<Longrightarrow> cookies_of hs = []"
    using D by (cases rule: Session_Delete_cases; auto dest: save_cookie_hops simp: save_cookie_def split: sum.splits)+
  show thesis
  proof (cases e)
    case (Some err)
    with run gs D q have "hops = (from_context r @ hs) @ reply_error env 500
        ''cannot delete the session for logout handler'' (Some err)"
      by (simp add: LogoutHandlerOidc_def)
    with q Some show thesis by (intro refused) (simp_all add: reply_client del: append_assoc)
  next
    case None
    from D show thesis
    proof (cases rule: Session_Delete_cases)
      case (deleted sid)
      then obtain ck where ck: "lib_Save (cookies_lib env) (with_max_age (- 1) (sess_cookie s)) = Inr ck" "hs = [AddCookie ck]"
        using None by (auto simp: save_cookie_None_iff)
      have hops: "hops = (from_context r @ [AddCookie ck]) @
          http_redirect (req_method r) (logout_url c (IDToken (sess_data s)) uri) 302" "st1 = st'"
        using run gs D None ck deleted by (simp_all add: LogoutHandlerOidc_def)
      from gs deleted(1) obtain g d where "request_cookie env m r = (g, None)" "sess_cookie s = g" "sess_data s = d"
          "sess_impl s = m_impl m"
          "cookie_state g = None \<and> Get (m_impl m) (db_read env) sid st = Inr d \<or> cookie_state g \<noteq> None \<and> d = empty_session_data"
        by (rule GetSession_origin)
      with deleted ck hops show thesis by (intro logged_out [of g sid d ck]) simp_all
    qed (use None in simp_all)
  qed
qed

section \<open>What a request does to the database\<close>

text \<open>At most one call, with verified data, whatever the back end does with it.\<close>

lemma sess_impl_of: "GetSession env m c r st = Inr s \<Longrightarrow> sess_impl s = m_impl m"
  by (rule GetSession_cases [of env m r c st]) auto

lemma newData_of: "GetSession env m c r st = Inr s \<Longrightarrow> \<exists>g. newData env token s = newData env token (session_for m c g)"
  by (rule GetSession_cases [of env m r c st]) (auto simp: newData_def)

lemma callback_call:
  assumes "CallbackHandlerOidc env m c uri r st = (hops, st')"
  shows "st' = st \<or> (\<exists>token g d. newData env token (session_for m c g) = Inr d \<and>
    st' = snd (Add (m_impl m) (db_write env) d st))"
proof -
  have save: "st2 = st1 \<or> (\<exists>d. newData env token s = Inr d \<and> st2 = snd (Add (sess_impl s) (db_write env) d st1))"
    if "Session_Save env token s st1 = ((e, hs), s', st2)" for token and s :: "'a session" and st1 e hs s' st2
    using that by (cases rule: Session_Save_cases) auto
  show ?thesis
    using assms
    by (fastforce simp: CallbackHandlerOidc_def NewSession_def Let_def
          split: sum.splits if_splits option.splits prod.splits dest!: save)
qed

lemma logout_call:
  assumes "LogoutHandlerOidc env m c uri r st = (hops, st')"
  shows "st' = st \<or> (\<exists>sid. st' = snd (Delete (m_impl m) (db_write env) sid st))"
proof (cases "GetSession env m c r st")
  case (Inl err)
  with assms show ?thesis by (simp add: LogoutHandlerOidc_def)
next
  case (Inr s)
  obtain e hs s1 st1 where D: "Session_Delete env s st = ((e, hs), s1, st1)" by (metis prod.collapse)
  then have "st1 = st'" using assms Inr by (auto simp: LogoutHandlerOidc_def split: option.splits)
  with D show ?thesis using sess_impl_of [OF Inr] by (cases rule: Session_Delete_cases) (metis snd_conv)+
qed

lemma middleware_call:
  assumes "AuthenticationMiddleware env m c (\<lambda>t s. (f t, s)) r st = (hops, st')"
  shows "st' = st \<or> (\<exists>token g d sid. newData env token (session_for m c g) = Inr d \<and>
    st' = snd (Update (m_impl m) (db_write env) sid d st))"
proof (cases "GetSession env m c r st")
  case (Inl err)
  with assms show ?thesis by (auto simp: AuthenticationMiddleware_def split: if_splits)
next
  case gs: (Inr s)
  show ?thesis
  proof (cases "IsExpired (clock env) (sess_data s)")
    case False
    with assms gs show ?thesis by (simp add: AuthenticationMiddleware_def)
  next
    case exp: True
    show ?thesis
    proof (cases "RefreshGrant env c (RefreshToken (sess_data s))")
      case (Inl err)
      with assms gs exp show ?thesis by (simp add: AuthenticationMiddleware_def)
    next
      case (Inr token)
      obtain e hs s1 st1 where U: "Session_Update env token s st = ((e, hs), s1, st1)"
        by (metis prod.collapse)
      then have "st1 = st'" using assms gs exp Inr
        by (auto simp: AuthenticationMiddleware_def split: option.splits)
      moreover obtain g where "newData env token s = newData env token (session_for m c g)"
        using newData_of [OF gs] by blast
      ultimately show ?thesis
        using sess_impl_of [OF gs] by (cases rule: Session_Update_cases [OF U]) (metis snd_conv)+
    qed
  qed
qed

end
