(* ===== verification/Access.thy ===== *)
theory Access
  imports Handler_Outcomes
begin

text \<open>
  Who gets through. Everything here is proved once, inside the contract \<open>session_store\<close>, for a
  manager whose back end is the contract's: what the three database operations of a session
  achieve, when the middleware lets a request pass, and what a callback and a logout leave
  behind. The properties of the two real back ends are instances.
\<close>

context session_store
begin

text \<open>
  The middleware decides in one of three ways: it answers itself with 401 or 500; it lets the
  request through with the stored, unexpired access token; or it renews the stored session
  first and lets the request through with the new token, after storing it.
\<close>

lemma middleware_gate:
  assumes impl: "m_impl m = I" and now: "zero_time < clock env" and oauth: "refuses_empty_refresh env c"
  obtains
    (answered) code st' where "code \<in> {401, 500}"
      "answered_with (\<lambda>n. AuthenticationMiddleware env m c n r st) code st'"
  | (fresh) sid d where "presents env m r sid" "view st sid = Some d" "\<not> IsExpired (clock env) d"
      "passed_with (\<lambda>n. AuthenticationMiddleware env m c n r st) (from_context r) (AccessToken d) st"
  | (renewed) sid d d' ck st' where "presents env m r sid" "view st sid = Some d" "IsExpired (clock env) d"
      "renewed_by env c d d'" "Update I (db_write env) sid d' st = (Inr (), st')"
      "passed_with (\<lambda>n. AuthenticationMiddleware env m c n r st) (from_context r @ [AddCookie ck]) (AccessToken d') st'"
  using now oauth
proof (rule middleware_decides [of env c m r st])
  fix code :: nat and st' assume "code \<in> {401, 500}" "answered_with (\<lambda>n. AuthenticationMiddleware env m c n r st) code st'"
  then show thesis by (rule answered)
next
  fix sid d assume "presents env m r sid" "Get (m_impl m) (db_read env) sid st = Inr d" "\<not> IsExpired (clock env) d"
    "passed_with (\<lambda>n. AuthenticationMiddleware env m c n r st) (from_context r) (AccessToken d) st"
  with impl Get_Inr show thesis by (intro fresh) blast+
next
  fix sid d token g d' ck st'
  assume h: "presents env m r sid" "Get (m_impl m) (db_read env) sid st = Inr d" "IsExpired (clock env) d"
    "RefreshGrant env c (RefreshToken d) = Inr token" "newData env token (session_for m c g) = Inr d'"
    "Update (m_impl m) (db_write env) sid d' st = (Inr (), st')"
    "passed_with (\<lambda>n. AuthenticationMiddleware env m c n r st) (from_context r @ [AddCookie ck]) (AccessToken d') st'"
  have v: "view st sid = Some d" using h(2) impl by (simp add: Get_Inr)
  moreover obtain old where "view st sid = Some old" "Subject old = Subject d'"
    using Update_Inr [of _ sid d'] h(6) impl by metis
  ultimately have "renewed_by env c d d'" using h(4,5) by (auto simp: renewed_by_def newData_Inr_iff)
  with h v impl show thesis by (intro renewed) simp_all
qed

section \<open>Logout\<close>

lemma logout_outcome:
  assumes impl: "m_impl m = I" and run: "LogoutHandlerOidc env m c uri r st = (hops, st')"
  obtains
    (refused) "client_status hops = Some 500" "client_cookies hops = []"
  | (logged_out) g sid d ck where "request_cookie env m r = (g, None)" "cookie_id g = Some sid"
      "cookie_state g = None \<and> view st sid = Some d \<or> cookie_state g \<noteq> None \<and> d = empty_session_data"
      "Delete I (db_write env) sid st = (Inr (), st')"
      "lib_Save (cookies_lib env) (with_max_age (- 1) g) = Inr ck"
      "hops = (from_context r @ [AddCookie ck]) @ http_redirect (req_method r) (logout_url c (IDToken d) uri) 302"
  using run
proof (rule logout_decides)
  fix g sid d ck
  assume "request_cookie env m r = (g, None)" "cookie_id g = Some sid"
    "cookie_state g = None \<and> Get (m_impl m) (db_read env) sid st = Inr d \<or> cookie_state g \<noteq> None \<and> d = empty_session_data"
    "Delete (m_impl m) (db_write env) sid st = (Inr (), st')" "lib_Save (cookies_lib env) (with_max_age (- 1) g) = Inr ck"
    "hops = (from_context r @ [AddCookie ck]) @ http_redirect (req_method r) (logout_url c (IDToken d) uri) 302"
  with impl Get_Inr show thesis by (intro logged_out [of g sid d ck]) auto
qed (rule refused)

section \<open>What a request does to the database\<close>

lemma call_effect:
  "snd (Add I env d s) = s \<or> (\<exists>sid. Add I env d s = (Inr sid, snd (Add I env d s)))"
  "snd (Update I env sid d s) = s \<or> Update I env sid d s = (Inr (), snd (Update I env sid d s))"
  "snd (Delete I env sid s) = s \<or> Delete I env sid s = (Inr (), snd (Delete I env sid s))"
proof -
  show "snd (Add I env d s) = s \<or> (\<exists>sid. Add I env d s = (Inr sid, snd (Add I env d s)))"
    by (cases "fst (Add I env d s)") (auto simp: failed_call_keeps_state prod_eq_iff)
  show "snd (Update I env sid d s) = s \<or> Update I env sid d s = (Inr (), snd (Update I env sid d s))"
    by (cases "fst (Update I env sid d s)") (auto simp: failed_call_keeps_state prod_eq_iff)
  show "snd (Delete I env sid s) = s \<or> Delete I env sid s = (Inr (), snd (Delete I env sid s))"
    by (cases "fst (Delete I env sid s)") (auto simp: failed_call_keeps_state prod_eq_iff)
qed

text \<open>What passes the middleware, put together.\<close>

lemma middleware_passes:
  assumes "m_impl m = I" "zero_time < clock env" "refuses_empty_refresh env c"
    and pass: "passed_with (\<lambda>n. AuthenticationMiddleware env m c n r st) pre token st1"
  shows "\<exists>sid d. presents env m r sid \<and> view st sid = Some d \<and>
    (\<not> IsExpired (clock env) d \<and> token = AccessToken d \<and> st1 = st \<or>
     IsExpired (clock env) d \<and>
       (\<exists>d'. renewed_by env c d d' \<and> token = AccessToken d' \<and> Update I (db_write env) sid d' st = (Inr (), st1)))"
  using assms(1-3)
proof (rule middleware_gate [of m env c r st])
  fix code st' assume "answered_with (\<lambda>n. AuthenticationMiddleware env m c n r st) code st'"
  with not_passed_and_answered [OF pass] show ?thesis by blast
next
  fix sid d assume "presents env m r sid" "view st sid = Some d" "\<not> IsExpired (clock env) d"
    "passed_with (\<lambda>n. AuthenticationMiddleware env m c n r st) (from_context r) (AccessToken d) st"
  with passed_with_unique [OF pass] show ?thesis by blast
next
  fix sid d d' ck st' assume "presents env m r sid" "view st sid = Some d" "IsExpired (clock env) d"
    "renewed_by env c d d'" "Update I (db_write env) sid d' st = (Inr (), st')"
    "passed_with (\<lambda>n. AuthenticationMiddleware env m c n r st) (from_context r @ [AddCookie ck]) (AccessToken d') st'"
  with passed_with_unique [OF pass] show ?thesis by blast
qed

lemma middleware_rejects_unknown:
  assumes "m_impl m = I" "presents env m r sid" "view st sid = None"
  shows "\<exists>code\<in>{401, 500}. answered_with (\<lambda>n. AuthenticationMiddleware env m c n r st) code st"
proof (cases "Get (m_impl m) (db_read env) sid st")
  case (Inl err)
  then show ?thesis using middleware_failed_get [OF assms(2) Inl] by (cases "err = SqlErrNoRows") auto
next
  case (Inr d)
  with assms show ?thesis using Get_Inr by fastforce
qed

end

end
