(* ===== verification/Cleaner.thy ===== *)
theory Cleaner
  imports Sqlite
begin

text \<open>
  The goroutine of \<open>sessions/manager.go\<close> that purges expired sessions, and the shutdown of
  \<open>main.go\<close> that waits for it. The state holds the package-level \<open>sync.Once\<close> that all managers
  share, the \<open>done\<close> channels (by the number of their manager), the context, the ticker's
  buffered tick, the database, and the position of the main goroutine. Every step is one
  goroutine moving; which one moves, and which ready case a \<open>select\<close> takes, is open.
\<close>

datatype main_pc =
    Starting
  | Serving
  | Waiting
    \<comment> \<open>the signal came: in the deferred \<open>WaitSessionCleaner\<close> of manager 0\<close>
  | Closing
    \<comment> \<open>in the deferred \<open>CloseConnection\<close>\<close>
  | Stopped

record 's world =
  managers :: nat
  once_owner :: "nat option"
  once_returned :: bool
  closed_done :: "nat set"
  ctx_done :: bool
  tick_ready :: bool
  purges :: nat
  main_at :: main_pc
  db :: 's

definition initial_world :: "'s \<Rightarrow> 's world" where
  "initial_world s =
     \<lparr>managers = 0, once_owner = None, once_returned = False, closed_done = {}, ctx_done = False,
      tick_ready = False, purges = 0, main_at = Starting, db = s\<rparr>"

text \<open>The cleaner runs: some goroutine is inside \<open>once.Do\<close>.\<close>

definition cleaner_runs :: "'s world \<Rightarrow> nat \<Rightarrow> bool" where
  "cleaner_runs w i \<longleftrightarrow> once_owner w = Some i \<and> \<not> once_returned w"

inductive world_step :: "'s session_impl \<Rightarrow> 's world \<Rightarrow> 's world \<Rightarrow> bool" for I where
  new_first_manager:
    \<comment> \<open>\<open>NewManager\<close> of \<open>main\<close>: a channel and a goroutine\<close>
    "main_at w = Starting \<Longrightarrow> managers w = 0 \<Longrightarrow>
       world_step I w (w\<lparr>managers := 1, main_at := Serving\<rparr>)"
| new_manager:
    \<comment> \<open>a further call of \<open>NewManager\<close>\<close>
    "0 < managers w \<Longrightarrow> world_step I w (w\<lparr>managers := Suc (managers w)\<rparr>)"
| once_do:
    \<comment> \<open>the first goroutine to reach \<open>once.Do\<close> runs the cleaner\<close>
    "i < managers w \<Longrightarrow> once_owner w = None \<Longrightarrow> world_step I w (w\<lparr>once_owner := Some i\<rparr>)"
| tick:
    "cleaner_runs w i \<Longrightarrow> world_step I w (w\<lparr>tick_ready := True\<rparr>)"
| purge:
    \<comment> \<open>\<open>case <-ticker.C\<close>; an error of \<open>Purge\<close> is logged and the loop goes on\<close>
    "cleaner_runs w i \<Longrightarrow> tick_ready w \<Longrightarrow>
       world_step I w (w\<lparr>tick_ready := False, purges := Suc (purges w), db := snd (Purge I env (db w))\<rparr>)"
| stop_cleaner:
    \<comment> \<open>\<open>case <-ctx.Done()\<close>: the deferred function closes the channel of its own manager\<close>
    "cleaner_runs w i \<Longrightarrow> ctx_done w \<Longrightarrow>
       world_step I w (w\<lparr>once_returned := True, closed_done := insert i (closed_done w)\<rparr>)"
| signal:
    "main_at w = Serving \<Longrightarrow> world_step I w (w\<lparr>ctx_done := True, main_at := Waiting\<rparr>)"
| wait_cleaner:
    \<comment> \<open>\<open>WaitSessionCleaner\<close>: receiving from \<open>m.done\<close> goes on once it is closed\<close>
    "main_at w = Waiting \<Longrightarrow> 0 \<in> closed_done w \<Longrightarrow> world_step I w (w\<lparr>main_at := Closing\<rparr>)"
| close_connection:
    "main_at w = Closing \<Longrightarrow>
       world_step I w (w\<lparr>main_at := Stopped, db := snd (CloseConnection I env (db w))\<rparr>)"
| call:
    \<comment> \<open>a request that is being served calls the database\<close>
    "main_at w \<noteq> Starting \<Longrightarrow> world_step I w (w\<lparr>db := run_call I c (db w)\<rparr>)"

inductive world_reachable :: "'s session_impl \<Rightarrow> 's \<Rightarrow> 's world \<Rightarrow> bool" for I s where
  world_start: "world_reachable I s (initial_world s)"
| world_next: "world_reachable I s w \<Longrightarrow> world_step I w w' \<Longrightarrow> world_reachable I s w'"

section \<open>Invariants\<close>

text \<open>
  Only the goroutine that won \<open>once.Do\<close> ever closes a channel, its own; until it returns no
  channel is closed; the connection is closed only behind a closed channel 0.
\<close>

definition world_inv :: "'s world \<Rightarrow> bool" where
  "world_inv w \<longleftrightarrow>
     closed_done w = (if once_returned w then set_option (once_owner w) else {}) \<and>
     (once_returned w \<longrightarrow> once_owner w \<noteq> None) \<and>
     (\<forall>i. once_owner w = Some i \<longrightarrow> i < managers w) \<and>
     (main_at w = Starting \<longleftrightarrow> managers w = 0) \<and>
     (main_at w \<in> {Waiting, Closing, Stopped} \<longleftrightarrow> ctx_done w) \<and>
     (main_at w \<in> {Closing, Stopped} \<longrightarrow> 0 \<in> closed_done w)"

lemma world_inv_initial: "world_inv (initial_world s)"
  by (simp add: world_inv_def initial_world_def)

lemma world_inv_step: "world_step I w w' \<Longrightarrow> world_inv w \<Longrightarrow> world_inv w'"
  by (induction rule: world_step.induct) (auto simp: world_inv_def cleaner_runs_def split: if_splits)

lemma reachable_inv: "world_reachable I s w \<Longrightarrow> world_inv w"
  by (induction rule: world_reachable.induct) (auto intro: world_inv_initial world_inv_step)

text \<open>
  Once the cleaner has returned it is over for good, and the goroutine that won \<open>once.Do\<close>
  stays the winner.
\<close>

lemma returned_step:
  "world_step I w w' \<Longrightarrow> world_inv w \<Longrightarrow> once_returned w \<Longrightarrow>
     once_returned w' \<and> purges w' = purges w \<and> once_owner w' = once_owner w"
  by (induction rule: world_step.induct) (auto simp: cleaner_runs_def world_inv_def)

lemma owner_step: "world_step I w w' \<Longrightarrow> once_owner w = Some i \<Longrightarrow> once_owner w' = Some i"
  by (induction rule: world_step.induct) auto

lemma inv_steps: "(world_step I)\<^sup>*\<^sup>* w w' \<Longrightarrow> world_inv w \<Longrightarrow> world_inv w'"
  by (induction rule: rtranclp_induct) (auto intro: world_inv_step)

lemma returned_steps:
  "(world_step I)\<^sup>*\<^sup>* w w' \<Longrightarrow> world_inv w \<Longrightarrow> once_returned w \<Longrightarrow>
     once_returned w' \<and> purges w' = purges w"
  by (induction rule: rtranclp_induct) (auto dest: returned_step inv_steps)

lemma owner_steps: "(world_step I)\<^sup>*\<^sup>* w w' \<Longrightarrow> once_owner w = Some i \<Longrightarrow> once_owner w' = Some i"
  by (induction rule: rtranclp_induct) (auto intro: owner_step)

text \<open>A waiting main goroutine gets on when channel 0 belongs to the goroutine that runs.\<close>

lemma waiting_gets_on:
  assumes "world_inv w" "main_at w = Waiting" "once_owner w \<in> {None, Some 0}"
  shows "\<exists>w'. (world_step I)\<^sup>*\<^sup>* w w' \<and> main_at w' = Stopped"
proof -
  have finish: "\<exists>w'. (world_step I)\<^sup>*\<^sup>* v w' \<and> main_at w' = Stopped"
    if "main_at v = Waiting" "0 \<in> closed_done v" for v :: "'a world"
  proof -
    have "world_step I v (v\<lparr>main_at := Closing\<rparr>)" using that by (rule wait_cleaner)
    moreover have "world_step I (v\<lparr>main_at := Closing\<rparr>)
        ((v\<lparr>main_at := Closing\<rparr>)\<lparr>main_at := Stopped,
          db := snd (CloseConnection I undefined (db (v\<lparr>main_at := Closing\<rparr>)))\<rparr>)"
      by (rule close_connection) simp
    ultimately have "(world_step I)\<^sup>*\<^sup>* v ((v\<lparr>main_at := Closing\<rparr>)\<lparr>main_at := Stopped,
          db := snd (CloseConnection I undefined (db (v\<lparr>main_at := Closing\<rparr>)))\<rparr>)"
      (is "(world_step I)\<^sup>*\<^sup>* v ?e")
      by (meson converse_rtranclp_into_rtranclp r_into_rtranclp)
    moreover have "main_at ?e = Stopped" by simp
    ultimately show ?thesis by blast
  qed
  have stop: "\<exists>w'. (world_step I)\<^sup>*\<^sup>* v w' \<and> main_at w' = Stopped"
    if "main_at v = Waiting" "ctx_done v" "cleaner_runs v 0" for v :: "'a world"
  proof -
    note v = that
    let ?v = "v\<lparr>once_returned := True, closed_done := insert 0 (closed_done v)\<rparr>"
    have "world_step I v ?v" using that(3,2) by (rule stop_cleaner)
    moreover obtain w' where "(world_step I)\<^sup>*\<^sup>* ?v w'" "main_at w' = Stopped"
      using finish [of ?v] v(1) by auto
    ultimately show ?thesis by (meson converse_rtranclp_into_rtranclp)
  qed
  have ctx: "ctx_done w" and mgr: "0 < managers w"
    using assms(1,2) by (auto simp: world_inv_def)
  show ?thesis
  proof (cases "once_owner w")
    case None
    let ?v = "w\<lparr>once_owner := Some 0\<rparr>"
    have "world_step I w ?v" using mgr None by (rule once_do)
    moreover have "cleaner_runs ?v 0" using assms(1) None by (auto simp: cleaner_runs_def world_inv_def)
    ultimately show ?thesis
      using stop [of ?v] assms(2) ctx by (auto intro: converse_rtranclp_into_rtranclp)
  next
    case (Some i)
    then show ?thesis
      using assms stop [of w] finish [of w] ctx by (cases "once_returned w") (auto simp: cleaner_runs_def world_inv_def)
  qed
qed

section \<open>Example runs\<close>

text \<open>Two runs to a signal: one with the manager of \<open>main\<close> alone, and one with a second manager
  whose goroutine is the first to reach \<open>once.Do\<close>.\<close>

definition no_sessions :: store where
  "no_sessions = \<lparr>table = Map.empty, conn_open = True\<rparr>"

definition one_manager :: "store world" where
  "one_manager =
     \<lparr>managers = 1, once_owner = Some 0, once_returned = False, closed_done = {}, ctx_done = True,
      tick_ready = False, purges = 0, main_at = Waiting, db = no_sessions\<rparr>"

definition two_managers :: "store world" where
  "two_managers =
     \<lparr>managers = 2, once_owner = Some 1, once_returned = False, closed_done = {}, ctx_done = True,
      tick_ready = False, purges = 0, main_at = Waiting, db = no_sessions\<rparr>"

definition one_manager_closing :: "store world" where
  "one_manager_closing = one_manager\<lparr>once_returned := True, closed_done := {0}, main_at := Closing\<rparr>"

lemma step_to: "world_reachable I s w \<Longrightarrow> world_step I w v \<Longrightarrow> v = w' \<Longrightarrow> world_reachable I s w'"
  by (auto intro: world_next)

lemma example_start: "world_reachable I s ((initial_world s)\<lparr>managers := 1, main_at := Serving\<rparr>)"
  by (rule step_to [OF world_start new_first_manager]) (simp_all add: initial_world_def)

lemma one_manager_reachable: "world_reachable (sqlite_impl None) no_sessions one_manager"
proof -
  have "world_reachable (sqlite_impl None) no_sessions
      ((initial_world no_sessions)\<lparr>managers := 1, main_at := Serving, once_owner := Some 0\<rparr>)"
    by (rule step_to [OF example_start once_do [of 0]]) (simp_all add: initial_world_def)
  from step_to [OF this signal] show ?thesis by (simp add: initial_world_def one_manager_def)
qed

lemma two_managers_reachable: "world_reachable (sqlite_impl None) no_sessions two_managers"
proof -
  have "world_reachable (sqlite_impl None) no_sessions
      ((initial_world no_sessions)\<lparr>managers := 2, main_at := Serving\<rparr>)"
    by (rule step_to [OF example_start new_manager]) (simp_all add: initial_world_def)
  then have "world_reachable (sqlite_impl None) no_sessions
      ((initial_world no_sessions)\<lparr>managers := 2, main_at := Serving, once_owner := Some 1\<rparr>)"
    by (rule step_to [OF _ once_do [of 1]]) (simp_all add: initial_world_def)
  from step_to [OF this signal] show ?thesis by (simp add: initial_world_def two_managers_def)
qed

lemma one_manager_closing_reachable: "world_reachable (sqlite_impl None) no_sessions one_manager_closing"
proof -
  have "world_reachable (sqlite_impl None) no_sessions
      (one_manager\<lparr>once_returned := True, closed_done := {0}\<rparr>)"
    by (rule step_to [OF one_manager_reachable stop_cleaner [of _ 0]])
       (simp_all add: one_manager_def cleaner_runs_def)
  from step_to [OF this wait_cleaner] show ?thesis
    by (simp add: one_manager_def one_manager_closing_def)
qed

section \<open>Properties\<close>

text \<open>C32. Shutdown order: once \<open>main\<close> is past \<open>WaitSessionCleaner\<close> and about to close the
  connection, the cleaner has returned, and no later step of any goroutine purges again.\<close>

theorem no_purge_after_wait:
  assumes "world_reachable I s w" "main_at w \<in> {Closing, Stopped}" "(world_step I)\<^sup>*\<^sup>* w w'"
  shows "once_returned w' \<and> once_owner w = Some 0 \<and> purges w' = purges w"
proof -
  have inv: "world_inv w" using assms(1) by (rule reachable_inv)
  with assms(2) have "once_returned w" "once_owner w = Some 0"
    by (auto simp: world_inv_def split: if_splits)
  with returned_steps [OF assms(3) inv] show ?thesis by simp
qed

theorem no_purge_after_wait_witness:
  "once_returned one_manager_closing \<and> once_owner one_manager_closing = Some 0 \<and>
     purges one_manager_closing = purges one_manager_closing"
  by (rule no_purge_after_wait [OF one_manager_closing_reachable])
     (simp_all add: one_manager_closing_def)

text \<open>C33. Whether the shutdown can end: a waiting \<open>main\<close> can come to its end if and only if the
  goroutine of its own manager runs the cleaner, or may still become the one that does. The
  \<open>sync.Once\<close> is shared by all managers and only the winner's own channel is ever closed: when
  the goroutine of another manager has won, \<open>main\<close> never gets past \<open>WaitSessionCleaner\<close>, whatever
  happens afterwards.\<close>

theorem shutdown_ends_iff:
  assumes "world_reachable I s w" "main_at w = Waiting"
  shows "((\<exists>w'. (world_step I)\<^sup>*\<^sup>* w w' \<and> main_at w' = Stopped) \<longleftrightarrow> once_owner w \<in> {None, Some 0}) \<and>
    (\<forall>i w'. once_owner w = Some i \<and> i \<noteq> 0 \<and> (world_step I)\<^sup>*\<^sup>* w w' \<longrightarrow> closed_done w' \<subseteq> {i} \<and> main_at w' \<notin> {Closing, Stopped})"
proof -
  note inv = reachable_inv [OF assms(1)]
  have blocked: "closed_done w' \<subseteq> {i} \<and> main_at w' \<notin> {Closing, Stopped}"
    if "once_owner w = Some i" "i \<noteq> 0" "(world_step I)\<^sup>*\<^sup>* w w'" for i w'
  proof -
    have "world_inv w'" using that(3) inv by (rule inv_steps)
    moreover have "once_owner w' = Some i" using that(3,1) by (rule owner_steps)
    ultimately show ?thesis using that(2) by (auto simp: world_inv_def split: if_splits)
  qed
  moreover have "once_owner w \<in> {None, Some 0}" if "(world_step I)\<^sup>*\<^sup>* w w'" "main_at w' = Stopped" for w'
    using blocked [OF _ _ that(1)] that(2) by (cases "once_owner w") auto
  ultimately show ?thesis using waiting_gets_on [OF inv assms(2)] by blast
qed

theorem shutdown_ends_iff_witness:
  "(\<exists>w'. (world_step (sqlite_impl None))\<^sup>*\<^sup>* one_manager w' \<and> main_at w' = Stopped) \<and>
   \<not> (\<exists>w'. (world_step (sqlite_impl None))\<^sup>*\<^sup>* two_managers w' \<and> main_at w' = Stopped)"
  using shutdown_ends_iff [OF one_manager_reachable] shutdown_ends_iff [OF two_managers_reachable]
  by (simp add: one_manager_def two_managers_def)

end
