(* ===== verification/Examples.thy ===== *)
theory Examples
  imports Access
begin

text \<open>
  One concrete instance of every parameter: a cookie library, a provider, a clock, a database
  with one session. The witnesses of the properties evaluate the model on it. The instance is
  not a model of the libraries; it is a small set of functions with the documented behaviour
  the properties ask for.
\<close>

section \<open>A cookie library\<close>

text \<open>Cookie values are written in the clear: \<open>i\<close> and a session id, or \<open>s\<close> and a state.\<close>

definition ex_decode :: "string \<Rightarrow> (string \<rightharpoonup> gvalue) option" where
  "ex_decode v =
     (case v of
        [] \<Rightarrow> None
      | c # x \<Rightarrow> (if c = CHR ''i'' then Some [sessionIdName \<mapsto> VString x]
                  else if c = CHR ''s'' then Some [sessionStateName \<mapsto> VString x]
                  else None))"

definition ex_encode :: "(string \<rightharpoonup> gvalue) \<Rightarrow> string" where
  "ex_encode vs =
     (case as_string (vs sessionIdName) of
        Some x \<Rightarrow> CHR ''i'' # x
      | None \<Rightarrow> (case as_string (vs sessionStateName) of Some x \<Rightarrow> CHR ''s'' # x | None \<Rightarrow> []))"

definition ex_open :: "cookie_store \<Rightarrow> cookies \<Rightarrow> string \<Rightarrow> gsession \<times> go_error option" where
  "ex_open store cs name =
     (let fresh = \<lparr>gs_store = store, gs_name = name, Values = Map.empty, Options = store_options store\<rparr> in
      case map_of cs name of
        None \<Rightarrow> (fresh, None)
      | Some v \<Rightarrow> (case ex_decode v of
                     None \<Rightarrow> (fresh, Some (Errorf ''securecookie: the value is not valid'' []))
                   | Some vs \<Rightarrow> (fresh\<lparr>Values := vs\<rparr>, None)))"

definition ex_cookie_lib :: cookie_lib where
  "ex_cookie_lib =
     \<lparr>lib_New = ex_open, lib_Get = ex_open,
      lib_Save = (\<lambda>g. Inr \<lparr>cookie_name = gs_name g, cookie_value = ex_encode (Values g), cookie_options = Options g\<rparr>)\<rparr>"

section \<open>A provider\<close>

text \<open>An id token is the client id, a colon and the subject.\<close>

definition ex_verify :: "string \<Rightarrow> string \<Rightarrow> string result" where
  "ex_verify client raw =
     (if take (Suc (length client)) raw = client @ '':'' then Inr (drop (Suc (length client)) raw)
      else Inl (Errorf ''oidc: expected audience %q'' [client]))"

definition ex_oidc_lib :: oidc_env where
  "ex_oidc_lib =
     \<lparr>NewProvider = (\<lambda>iss. if iss = ''https://idp'' then Inr 0 else Inl (Errorf ''oidc: no such issuer'' [])),
      verify_token = (\<lambda>p. ex_verify)\<rparr>"

definition ex_config :: oidc_config where
  "ex_config =
     \<lparr>ClientID = ''app'', ClientSecret = ''secret'', AuthURL = ''https://idp/auth'', TokenURL = ''https://idp/token'',
      Scopes = [''openid''], RedirectURL = ''https://app/callback'', issuer = ''https://idp'',
      OidcEndpoints = \<lparr>AuthorizationEndpoint = ''https://idp/auth'', EndSessionEndpoint = ''https://idp/logout'',
        IntrospectionEndpoint = [], JWKSUri = [], RevocationEndpoint = [], TokenEndpoint = ''https://idp/token'',
        UserInfoEndpoint = ''https://idp/userinfo''\<rparr>\<rparr>"

definition ex_token :: oauth_token where
  "ex_token =
     \<lparr>tok_AccessToken = ''at1'', tok_RefreshToken = ''rt1'', tok_Expiry = from_unix 2000,
      tok_Extra = [''id_token'' \<mapsto> VString ''app:alice'']\<rparr>"

section \<open>A request environment\<close>

definition ex_db_env :: "string \<Rightarrow> db_env" where
  "ex_db_env sid =
     \<lparr>env_uuid = sid, env_nonces = \<lparr>nonce_access = ''1'', nonce_refresh = ''2'', nonce_id = ''3''\<rparr>,
      env_now = from_unix 1000, env_get_fault = None, env_fault = None\<rparr>"

definition ex_userinfo :: userinfo_response where
  "ex_userinfo = \<lparr>ui_status = 401, ui_chunks = [''{'', ''}''], ui_copy_error = None, ui_close_error = None\<rparr>"

definition ex_env :: req_env where
  "ex_env =
     \<lparr>clock = from_unix 1000, timestamp = ''2021-01-01T00:00:00Z'', random_bytes = (replicate 128 7, None),
      cookies_lib = ex_cookie_lib, oidc_lib = ex_oidc_lib,
      AuthCodeURL = (\<lambda>c state. AuthURL c @ ''?state='' @ query_escape state),
      Exchange = (\<lambda>c code. if code = ''code'' then Inr ex_token else Inl (Errorf ''invalid_grant'' [])),
      RefreshGrant = (\<lambda>c rt. if rt = ''rt0'' then Inr ex_token
        else Inl (Errorf ''oauth2: token expired and refresh token is not set'' [])),
      client_Get = (\<lambda>c token url. Inr ex_userinfo),
      db_read = ex_db_env [], db_write = ex_db_env ''uuid-1''\<rparr>"

definition ex_manager :: "'s session_impl \<Rightarrow> 's manager" where
  "ex_manager I =
     \<lparr>m_cookieName = ''session'', m_loginTimeout = 300, m_sessionTimeout = 30 * minute,
      m_store = \<lparr>key_slices = [], store_options = manager_cookie_options ''localhost''\<rparr>, m_impl = I\<rparr>"

definition ex_request :: "string \<Rightarrow> cookies \<Rightarrow> request" where
  "ex_request query cs =
     \<lparr>req_method = ''GET'', req_query = query, req_post_form = [], req_cookies = cs, req_trace = ([], [])\<rparr>"

definition ex_data :: "int \<Rightarrow> session_data" where
  "ex_data expiry =
     \<lparr>Subject = ''alice'', AccessToken = ''at0'', RefreshToken = ''rt0'', IDToken = ''app:alice'', ExpiresAt = from_unix expiry\<rparr>"

definition ex_store :: "int \<Rightarrow> store" where
  "ex_store expiry = \<lparr>table = [''uuid-0'' \<mapsto> row_of (ex_data expiry)], conn_open = True\<rparr>"

lemma ex_refuses_empty: "refuses_empty_refresh ex_env c"
  by (simp add: refuses_empty_refresh_def ex_env_def)

lemma ex_clock: "zero_time < clock ex_env"
  by (simp add: ex_env_def zero_time_def from_unix_def second_def)

lemmas ex_defs = ex_decode_def ex_encode_def ex_open_def ex_cookie_lib_def ex_verify_def ex_oidc_lib_def
  ex_config_def ex_token_def ex_db_env_def ex_userinfo_def ex_env_def ex_manager_def ex_request_def
  ex_data_def ex_store_def

section \<open>A logger library\<close>

text \<open>A library with the level names of the comment of \<open>NewLogger\<close>.\<close>

definition ex_zap :: zap_lib where
  "ex_zap =
     (let cfg = \<lparr>EncodeTime = OtherTimeEncoder ''epoch'', EncodeLevel = OtherLevelEncoder ''capital'',
                 MessageKey = ''msg'', CallerKey = ''caller'', other_fields = []\<rparr>
      in \<lparr>NewProductionEncoderConfig = cfg, NewDevelopmentEncoderConfig = cfg,
          level_Set = (\<lambda>name. case map_of [(''debug'', Debug), (''info'', Info), (''warn'', Warn), (''error'', Error),
              (''dpanic'', DPanic), (''panic'', PanicLevel), (''fatal'', Fatal)] name of
            Some l \<Rightarrow> Inr l | None \<Rightarrow> Inl (Errorf ''unrecognized level: %q'' [name]))\<rparr>)"

section \<open>Requests to the example\<close>

definition ex_gsession :: "(string \<rightharpoonup> gvalue) \<Rightarrow> gsession" where
  "ex_gsession vs =
     \<lparr>gs_store = \<lparr>key_slices = [], store_options = manager_cookie_options ''localhost''\<rparr>,
      gs_name = ''session'', Values = vs, Options = manager_cookie_options ''localhost''\<rparr>"

text \<open>A signed-in user, a user in the middle of a login, and a cookie that does not decode.\<close>

definition ex_alice :: request where "ex_alice = ex_request [] [(''session'', ''iuuid-0'')]"
definition ex_mallory :: request where "ex_mallory = ex_request [] [(''session'', ''x'')]"

definition ex_callback :: request where
  "ex_callback = ex_request ''state=abc&code=code'' [(''session'', ''sabc'')]"

lemma ex_manager_simps [simp]:
  "m_impl (ex_manager I) = I" "m_cookieName (ex_manager I) = ''session''"
  "m_store (ex_manager I) = \<lparr>key_slices = [], store_options = manager_cookie_options ''localhost''\<rparr>"
  "m_loginTimeout (ex_manager I) = 300" "m_sessionTimeout (ex_manager I) = 30 * minute"
  by (simp_all add: ex_manager_def)

lemma ex_env_simps [simp]:
  "clock ex_env = from_unix 1000" "cookies_lib ex_env = ex_cookie_lib" "oidc_lib ex_env = ex_oidc_lib"
  "db_read ex_env = ex_db_env []" "db_write ex_env = ex_db_env ''uuid-1''"
  "client_Get ex_env cfg a u = Inr ex_userinfo"
  "Exchange ex_env cfg code = (if code = ''code'' then Inr ex_token else Inl (Errorf ''invalid_grant'' []))"
  "RefreshGrant ex_env cfg rt = (if rt = ''rt0'' then Inr ex_token
     else Inl (Errorf ''oauth2: token expired and refresh token is not set'' []))"
  by (simp_all add: ex_env_def)

lemma ex_lib_simps [simp]:
  "lib_Get ex_cookie_lib = ex_open" "lib_New ex_cookie_lib = ex_open"
  "lib_Save ex_cookie_lib g = Inr \<lparr>cookie_name = gs_name g, cookie_value = ex_encode (Values g), cookie_options = Options g\<rparr>"
  by (simp_all add: ex_cookie_lib_def)

lemma ex_db_env_simps [simp]:
  "env_fault (ex_db_env x) = None" "env_get_fault (ex_db_env x) = None" "env_uuid (ex_db_env x) = x"
  "env_now (ex_db_env x) = from_unix 1000"
  by (simp_all add: ex_db_env_def)

lemma ex_request_simps [simp]:
  "req_query (ex_request q cs) = q" "req_cookies (ex_request q cs) = cs" "req_post_form (ex_request q cs) = []"
  "req_method (ex_request q cs) = ''GET''"
  by (simp_all add: ex_request_def)

lemma ex_data_simps [simp]:
  "Subject (ex_data t) = ''alice''" "AccessToken (ex_data t) = ''at0''" "RefreshToken (ex_data t) = ''rt0''"
  "IDToken (ex_data t) = ''app:alice''" "ExpiresAt (ex_data t) = from_unix t"
  by (simp_all add: ex_data_def)

lemma ex_open_cases [simp]:
  "ex_open \<lparr>key_slices = [], store_options = manager_cookie_options ''localhost''\<rparr> [(''session'', CHR ''i'' # sid)] ''session'' =
     (ex_gsession [sessionIdName \<mapsto> VString sid], None)"
  "ex_open \<lparr>key_slices = [], store_options = manager_cookie_options ''localhost''\<rparr> [(''session'', CHR ''s'' # x)] ''session'' =
     (ex_gsession [sessionStateName \<mapsto> VString x], None)"
  "ex_open \<lparr>key_slices = [], store_options = manager_cookie_options ''localhost''\<rparr> [(''session'', CHR ''x'' # x)] ''session'' =
     (ex_gsession Map.empty, Some (Errorf ''securecookie: the value is not valid'' []))"
  "ex_open \<lparr>key_slices = [], store_options = manager_cookie_options ''localhost''\<rparr> [] ''session'' =
     (ex_gsession Map.empty, None)"
  by (simp_all add: ex_open_def ex_decode_def ex_gsession_def)

lemma ex_gsession_simps [simp]:
  "cookie_id (ex_gsession [sessionIdName \<mapsto> VString x]) = Some x"
  "cookie_state (ex_gsession [sessionIdName \<mapsto> VString x]) = None"
  "cookie_state (ex_gsession [sessionStateName \<mapsto> VString x]) = Some x"
  "cookie_id (ex_gsession [sessionStateName \<mapsto> VString x]) = None"
  "cookie_state (ex_gsession Map.empty) = None" "cookie_id (ex_gsession Map.empty) = None"
  by (simp_all add: cookie_id_def cookie_state_def ex_gsession_def)

lemma ex_alice_cookie [simp]:
  "request_cookie ex_env (ex_manager I) ex_alice = (ex_gsession [sessionIdName \<mapsto> VString ''uuid-0''], None)"
  by (simp add: request_cookie_def ex_alice_def)

lemma ex_mallory_cookie [simp]:
  "request_cookie ex_env (ex_manager I) ex_mallory =
     (ex_gsession Map.empty, Some (Errorf ''securecookie: the value is not valid'' []))"
  by (simp add: request_cookie_def ex_mallory_def)

lemma ex_alice_presents [simp]: "presents ex_env (ex_manager I) ex_alice ''uuid-0''"
  by (simp add: presents_def)

lemma ex_stored [simp]:
  "stored None (ex_store t) ''uuid-0'' = Some (ex_data t)"
  "sid \<noteq> ''uuid-0'' \<Longrightarrow> stored None (ex_store t) sid = None"
  "conn_open (ex_store t)" "ids (ex_store t) = {''uuid-0''}"
  by (simp_all add: stored_def ex_store_def decryptArgs_def row_of_def data_of_def ex_data_def ids_def)

lemma ex_alice_session_of:
  assumes "Get I (ex_db_env []) ''uuid-0'' st = Inr d"
  shows "GetSession ex_env (ex_manager I) cfg ex_alice st =
     Inr ((session_for (ex_manager I) cfg (ex_gsession [sessionIdName \<mapsto> VString ''uuid-0'']))\<lparr>sess_data := d\<rparr>)"
  using assms by (cases rule: GetSession_cases [of ex_env "ex_manager I" ex_alice cfg st]) (auto simp: presents_def)

lemma ex_alice_session:
  "GetSession ex_env (ex_manager (sqlite_impl None)) cfg ex_alice (ex_store t) =
     Inr ((session_for (ex_manager (sqlite_impl None)) cfg (ex_gsession [sessionIdName \<mapsto> VString ''uuid-0'']))
       \<lparr>sess_data := ex_data t\<rparr>)"
  by (rule ex_alice_session_of) (simp add: sqlite_Get_Inr_iff)

lemma ex_alice_passes:
  "passed_with (\<lambda>n. AuthenticationMiddleware ex_env (ex_manager (sqlite_impl None)) cfg n ex_alice (ex_store 2000))
     (from_context ex_alice) ''at0'' (ex_store 2000)"
  using middleware_fresh [OF ex_alice_session, of 2000 cfg] by (simp add: IsExpired_def from_unix_def)

text \<open>The example's renewed session, and the row it becomes.\<close>

definition ex_new_data :: session_data where
  "ex_new_data =
     \<lparr>Subject = ''alice'', AccessToken = ''at1'', RefreshToken = ''rt1'', IDToken = ''app:alice'', ExpiresAt = from_unix 2000\<rparr>"

definition ex_new_store :: "string \<Rightarrow> store \<Rightarrow> store" where
  "ex_new_store sid st = st\<lparr>table := (table st)(sid \<mapsto> row_of ex_new_data)\<rparr>"

lemma ex_newData [simp]: "newData ex_env ex_token (session_for m ex_config g) = Inr ex_new_data"
  by (simp add: newData_Inr_iff ex_new_data_def ex_token_def ex_config_def ex_oidc_lib_def verified_for_def ex_verify_def)

lemma ex_encrypt [simp]: "encryptArgs None ns d = Inr d"
  by (simp add: encryptArgs_def)

lemma ex_row_ok [simp]:
  "sqlite_row_check sid (row_of ex_new_data) = None"
  "length sid \<le> 36 \<Longrightarrow> postgresql_row_check sid (row_of ex_new_data) = None"
  by (simp_all add: sqlite_row_check_def postgresql_row_check_def ex_new_data_def row_of_def)

lemma ex_Update [simp]:
  "sqlite_Update None (ex_db_env x) ''uuid-0'' ex_new_data (ex_store t) = (Inr (), ex_new_store ''uuid-0'' (ex_store t))"
  by (simp add: sqlite_Update_Inr_iff ex_new_store_def ex_new_data_def [THEN arg_cong [where f = Subject]])

lemma ex_Add [simp]:
  "conn_open st \<Longrightarrow> ''uuid-1'' \<notin> ids st \<Longrightarrow>
     sqlite_Add None (ex_db_env ''uuid-1'') ex_new_data st = (Inr ''uuid-1'', ex_new_store ''uuid-1'' st)"
  by (simp add: sqlite_Add_Inr_iff ex_new_store_def)

text \<open>The callback of the example.\<close>

lemma ex_callback_steps:
  "request_cookie ex_env (ex_manager I) ex_callback = (ex_gsession [sessionStateName \<mapsto> VString ''abc''], None)"
  "req_query ex_callback = ''state='' @ query_escape ''abc'' @ ''&code='' @ query_escape ''code''"
  "req_post_form ex_callback = []"
  "lib_New (cookies_lib ex_env) (m_store (ex_manager I)) (req_cookies ex_callback) (m_cookieName (ex_manager I)) =
     (ex_gsession [sessionStateName \<mapsto> VString ''abc''], None)"
  by (simp_all add: ex_callback_def request_cookie_def query_escape_def escape_char_def unreserved_def)

lemma ex_callback_run:
  assumes "conn_open st" "''uuid-1'' \<notin> ids st"
  shows "CallbackHandlerOidc ex_env (ex_manager (sqlite_impl None)) ex_config uri ex_callback st =
     ((from_context ex_callback @ [AddCookie \<lparr>cookie_name = ''session'', cookie_value = ''iuuid-1'',
        cookie_options = (manager_cookie_options ''localhost'')\<lparr>MaxAge := 1800\<rparr>\<rparr>])
        @ http_redirect ''GET'' uri 302, ex_new_store ''uuid-1'' st)"
proof -
  have gs: "GetSession ex_env (ex_manager (sqlite_impl None)) ex_config ex_callback st =
      Inr (session_for (ex_manager (sqlite_impl None)) ex_config (ex_gsession [sessionStateName \<mapsto> VString ''abc'']))"
    "getState (session_for (ex_manager (sqlite_impl None)) ex_config (ex_gsession [sessionStateName \<mapsto> VString ''abc''])) = ''abc''"
    by (simp_all add: login_session [OF ex_callback_steps(1), of "''abc''"])
  have "req_method ex_callback = ''GET''" by (simp add: ex_callback_def)
  then show ?thesis
    using callback_run [OF gs(1) _ _ ex_callback_steps(4) ex_newData, where uri = uri] provider_answer [OF ex_callback_steps(2,3)] assms
    by (simp add: gs(2)) (simp add: ex_gsession_def ex_encode_def with_max_age_def go_div_def minute_def second_def)
qed

text \<open>The logout of the example.\<close>

definition ex_logged_out :: "int \<Rightarrow> store" where
  "ex_logged_out t = (ex_store t)\<lparr>table := (table (ex_store t))(''uuid-0'' := None)\<rparr>"

definition ex_dropped_cookie :: set_cookie where
  "ex_dropped_cookie = \<lparr>cookie_name = ''session'', cookie_value = ''iuuid-0'',
     cookie_options = (manager_cookie_options ''localhost'')\<lparr>MaxAge := - 1\<rparr>\<rparr>"

lemma other_writer [simp]:
  "dataFromDB (env\<lparr>db_write := w\<rparr>) = dataFromDB env"
  "GetSession (env\<lparr>db_write := w\<rparr>) m c r st = GetSession env m c r st"
  "save_cookie (env\<lparr>db_write := w\<rparr>) g = save_cookie env g"
  proof -
  show d: "dataFromDB (env\<lparr>db_write := w\<rparr>) = dataFromDB env"
  proof -
    have "db_read (env\<lparr>db_write := w\<rparr>) = db_read env" by simp
    then show ?thesis unfolding dataFromDB_def by (simp only:)
  qed
  show "GetSession (env\<lparr>db_write := w\<rparr>) m c r st = GetSession env m c r st"
    unfolding GetSession_def d by simp
  show "save_cookie (env\<lparr>db_write := w\<rparr>) g = save_cookie env g"
    by (simp add: save_cookie_def)
qed

lemma ex_logout_run_as:
  "LogoutHandlerOidc (ex_env\<lparr>db_write := ex_db_env x\<rparr>) (ex_manager (sqlite_impl None)) ex_config uri ex_alice (ex_store t) =
     ((from_context ex_alice @ [AddCookie ex_dropped_cookie])
        @ http_redirect ''GET'' (logout_url ex_config ''app:alice'' uri) 302, ex_logged_out t)"
proof -
  have "sqlite_Delete (ex_db_env x) ''uuid-0'' (ex_store t) = (Inr (), ex_logged_out t)"
    by (simp add: sqlite_Delete_Inr_iff ex_logged_out_def)
  moreover have "req_method ex_alice = ''GET''" by (simp add: ex_alice_def)
  ultimately show ?thesis
    by (simp add: LogoutHandlerOidc_def ex_alice_session Session_Delete_def save_cookie_def)
       (simp add: ex_gsession_def ex_encode_def with_max_age_def ex_dropped_cookie_def)
qed

lemma ex_logout_run:
  "LogoutHandlerOidc ex_env (ex_manager (sqlite_impl None)) ex_config uri ex_alice (ex_store t) =
     ((from_context ex_alice @ [AddCookie ex_dropped_cookie])
        @ http_redirect ''GET'' (logout_url ex_config ''app:alice'' uri) 302, ex_logged_out t)"
  using ex_logout_run_as [of "''uuid-1''" uri t] by (simp add: ex_env_def)

lemma ex_logout_status:
  "client_status ((from_context ex_alice @ [AddCookie ex_dropped_cookie])
     @ http_redirect ''GET'' (logout_url ex_config ''app:alice'' uri) 302) = Some 302"
  by (rule redirect_client) simp

end
