(* ===== verification/Shared_Logger.thy ===== *)
theory Shared_Logger
  imports Examples
begin

text \<open>
  The one \<open>Logger\<close> of \<open>zlogger/logger.go\<close> that \<open>main.go\<close> wraps around its mux, used by requests
  served at the same time: each request runs \<open>Middleware\<close> in a goroutine of its own, and all of
  them read and write the fields \<open>lastErr\<close>, \<open>lastErrDescription\<close>, \<open>traceID\<close> and \<open>spanID\<close> of that
  logger without a lock. \<open>Middleware\<close> of theory \<open>Zlogger\<close> is one request served alone; here a
  request is taken apart into its steps, and a schedule says in which order they happen.
\<close>

section \<open>Schedules\<close>

datatype phase = Running | Logged

record in_flight =
  if_info :: request_info
  if_hops :: "hop list"
    \<comment> \<open>the calls the handler still has to make\<close>
  if_recorder :: status_recorder
  if_phase :: phase

record server =
  shared :: logger
  flights :: "nat \<rightharpoonup> in_flight"
  entries :: "(nat \<times> log_entry) list"

datatype log_event =
    Arrive nat request_info "hop list"
  | Move nat
    \<comment> \<open>the handler's next call; a panic unwinds to the deferred function\<close>
  | LogEntry nat string
    \<comment> \<open>the handler returned: build the fields and write the entry, with this latency\<close>
  | Clean nat
    \<comment> \<open>the deferred function\<close>

definition idle :: "logger \<Rightarrow> server" where
  "idle l = \<lparr>shared = l, flights = Map.empty, entries = []\<rparr>"

definition arrival :: "request_info \<Rightarrow> hop list \<Rightarrow> in_flight" where
  "arrival q hops = \<lparr>if_info = q, if_hops = hops, if_recorder = \<lparr>Status = 200, Written = 0\<rparr>, if_phase = Running\<rparr>"

definition move :: "nat \<Rightarrow> in_flight \<Rightarrow> server \<Rightarrow> server option" where
  "move i f s =
     (case (if_phase f, if_hops f) of
        (Running, Panic # _) \<Rightarrow> Some (s\<lparr>flights := (flights s)(i \<mapsto> f\<lparr>if_phase := Logged\<rparr>)\<rparr>)
      | (Running, h # hs) \<Rightarrow>
          Some (s\<lparr>shared := logger_step h (shared s),
                  flights := (flights s)(i \<mapsto> f\<lparr>if_hops := hs, if_recorder := recorder_step h (if_recorder f)\<rparr>)\<rparr>)
      | _ \<Rightarrow> None)"

fun server_step :: "log_event \<Rightarrow> server \<Rightarrow> server option" where
  "server_step (Arrive i q hops) s =
     (if flights s i = None then Some (s\<lparr>flights := (flights s)(i \<mapsto> arrival q hops)\<rparr>) else None)"
| "server_step (Move i) s = (case flights s i of None \<Rightarrow> None | Some f \<Rightarrow> move i f s)"
| "server_step (LogEntry i latency) s =
     (case flights s i of
        None \<Rightarrow> None
      | Some f \<Rightarrow>
          if if_phase f = Running \<and> if_hops f = [] then
            Some (s\<lparr>entries := entries s @ [(i, log_request (if_info f) latency (if_recorder f) (shared s))],
                    flights := (flights s)(i \<mapsto> f\<lparr>if_phase := Logged\<rparr>)\<rparr>)
          else None)"
| "server_step (Clean i) s =
     (case flights s i of
        None \<Rightarrow> None
      | Some f \<Rightarrow>
          if if_phase f = Logged then
            Some (s\<lparr>shared := clean_logger (shared s), flights := (flights s)(i := None)\<rparr>)
          else None)"

fun server_run :: "log_event list \<Rightarrow> server \<Rightarrow> server option" where
  "server_run [] s = Some s"
| "server_run (e # es) s = (case server_step e s of None \<Rightarrow> None | Some s' \<Rightarrow> server_run es s')"

lemma server_run_append:
  "server_run (es @ es') s = (case server_run es s of None \<Rightarrow> None | Some s' \<Rightarrow> server_run es' s')"
  by (induction es arbitrary: s) (auto split: option.splits)

section \<open>The calls of one request\<close>

lemma server_run_moves:
  assumes "flights s i = Some f" "if_phase f = Running" "if_hops f = hops @ rest" "Panic \<notin> set hops"
  shows "server_run (replicate (length hops) (Move i)) s =
    Some (s\<lparr>shared := fold logger_step hops (shared s),
            flights := (flights s)(i \<mapsto> f\<lparr>if_hops := rest,
              if_recorder := fold recorder_step hops (if_recorder f)\<rparr>)\<rparr>)"
  using assms
proof (induction hops arbitrary: s f)
  case Nil
  then show ?case by (cases f) (simp add: fun_upd_idem)
next
  case (Cons h hops)
  let ?f = "f\<lparr>if_hops := hops @ rest, if_recorder := recorder_step h (if_recorder f)\<rparr>"
  let ?s = "s\<lparr>shared := logger_step h (shared s), flights := (flights s)(i \<mapsto> ?f)\<rparr>"
  have "server_step (Move i) s = Some ?s"
    using Cons.prems by (cases h) (simp_all add: move_def)
  moreover have "server_run (replicate (length hops) (Move i)) ?s =
      Some (?s\<lparr>shared := fold logger_step hops (shared ?s),
        flights := (flights ?s)(i \<mapsto> ?f\<lparr>if_hops := rest, if_recorder := fold recorder_step hops (if_recorder ?f)\<rparr>)\<rparr>)"
    using Cons.prems by (intro Cons.IH) auto
  ultimately show ?case by (simp add: fun_upd_def cong: if_cong)
qed

text \<open>One request alone: arrival, its calls, the entry, the cleaning.\<close>

definition alone :: "nat \<Rightarrow> request_info \<Rightarrow> string \<Rightarrow> hop list \<Rightarrow> log_event list" where
  "alone i q latency hops =
     Arrive i q hops # replicate (length hops) (Move i) @ [LogEntry i latency, Clean i]"

lemma alone_run:
  assumes "flights s = Map.empty" "Panic \<notin> set hops"
  shows "server_run (alone i q latency hops) s =
    Some (s\<lparr>shared := snd (Middleware q latency hops (shared s)),
            entries := entries s @ [(i, the (fst (Middleware q latency hops (shared s))))]\<rparr>)"
proof -
  let ?s1 = "s\<lparr>flights := (flights s)(i \<mapsto> arrival q hops)\<rparr>"
  have "server_run (replicate (length hops) (Move i)) ?s1 =
    Some (?s1\<lparr>shared := fold logger_step hops (shared s),
      flights := (flights ?s1)(i \<mapsto> (arrival q hops)\<lparr>if_hops := [],
        if_recorder := fold recorder_step hops \<lparr>Status = 200, Written = 0\<rparr>\<rparr>)\<rparr>)"
    using server_run_moves [of ?s1 i "arrival q hops" hops "[]"] assms(2) by (simp add: arrival_def)
  then show ?thesis
    using assms by (simp add: alone_def server_run_append arrival_def Middleware_def Let_def log_request_def)
qed

section \<open>What a request leaves in the logger\<close>

definition clean :: "logger \<Rightarrow> bool" where
  "clean l \<longleftrightarrow> lastErr l = None \<and> lastErrDescription l = []"

lemma clean_cleaned [simp]: "clean (clean_logger l)" "clean new_logger"
  by (simp_all add: clean_def clean_logger_def new_logger_def)

lemma Middleware_clean: "clean (snd (Middleware q latency hops l))"
  by (simp add: Middleware_def Let_def)

text \<open>A handler that starts with \<open>FromContext\<close>, on a clean logger, sees nothing of its past.\<close>

lemma from_context_forgets:
  "clean l \<Longrightarrow> fold logger_step (from_context r @ hops) l = fold logger_step (from_context r @ hops) new_logger"
  by (cases l) (simp add: http_defs clean_def new_logger_def)

lemma Middleware_forgets:
  "clean l \<Longrightarrow> Middleware q latency (from_context r @ hops) l = Middleware q latency (from_context r @ hops) new_logger"
  unfolding Middleware_def from_context_forgets by simp

text \<open>The calls that never touch the error fields.\<close>

primrec sets_error :: "hop \<Rightarrow> bool" where
  "sets_error (SetHeader _ _) = False"
| "sets_error (AddHeader _ _) = False"
| "sets_error (AddCookie _) = False"
| "sets_error (WriteHeader _) = False"
| "sets_error (Write _) = False"
| "sets_error (FromCtx _ _) = False"
| "sets_error (SetErr _ _) = True"
| "sets_error Panic = False"

lemma fold_keeps_error:
  "\<not> list_ex sets_error hops \<Longrightarrow>
     lastErr (fold logger_step hops l) = lastErr l \<and>
     lastErrDescription (fold logger_step hops l) = lastErrDescription l"
proof (induction hops arbitrary: l)
  case (Cons h hops)
  then show ?case by (cases h) (auto simp: FromContext_def)
qed simp

lemma fold_last_error:
  "\<not> list_ex sets_error post \<Longrightarrow>
     lastErr (fold logger_step (pre @ SetErr d e # post) l) = e \<and>
     lastErrDescription (fold logger_step (pre @ SetErr d e # post) l) = d"
  by (simp add: fold_keeps_error SetError_def)

lemma JsonError_split:
  "JsonError ts code d e = [SetErr d e, SetHeader ''Content-Type'' ''application/json; charset=utf-8'',
     SetHeader ''X-Content-Type-Options'' ''nosniff''] @ WriteHeader code # [Write (error_body code d ts)]"
  by (simp add: JsonError_def)

lemma JsonError_records:
  "lastErr (fold logger_step (pre @ JsonError ts code d e) l) = e"
  "lastErrDescription (fold logger_step (pre @ JsonError ts code d e) l) = d"
  "Status (fold recorder_step (pre @ JsonError ts code d e) rec) = code"
  by (simp_all add: http_defs)

section \<open>One status line\<close>

text \<open>Calls that send the header once, and the status the recorder has seen in the end.\<close>

definition one_header :: "hop list \<Rightarrow> bool" where
  "one_header hops \<longleftrightarrow>
     (\<exists>pre code post. hops = pre @ WriteHeader code # post \<and> list_all quiet pre \<and>
        (\<forall>h\<in>set post. \<exists>b. h = Write b))"

definition recorded_status :: "hop list \<Rightarrow> nat" where
  "recorded_status hops = Status (fold recorder_step hops \<lparr>Status = 200, Written = 0\<rparr>)"

lemma recorder_writes: "(\<forall>h\<in>set post. \<exists>b. h = Write b) \<Longrightarrow> Status (fold recorder_step post rec) = Status rec"
  by (induction post arbitrary: rec) (auto simp: recorder_Write_def)

lemma one_header_agrees: "one_header hops \<Longrightarrow> client_status hops = Some (recorded_status hops)"
proof -
  assume "one_header hops"
  then obtain pre code post where h: "hops = pre @ WriteHeader code # post" "list_all quiet pre"
      "\<forall>h\<in>set post. \<exists>b. h = Write b"
    by (auto simp: one_header_def)
  then have "Panic \<notin> set post" by auto
  then have "client_status hops = Some code" unfolding h(1) by (rule client_status_decided(1) [OF h(2)])
  moreover have "recorded_status hops = code"
    using h(3) by (simp add: recorded_status_def h(1) recorder_writes recorder_WriteHeader_def)
  ultimately show ?thesis by simp
qed

lemma one_header_quiet: "list_all quiet pre \<Longrightarrow> one_header hops \<Longrightarrow> one_header (pre @ hops)"
  by (auto simp: one_header_def) (metis append_assoc list_all_append)

lemma one_header_replies [simp]:
  "one_header (reply_error env code d e)" "one_header (http_redirect meth url code)"
proof -
  show "one_header (reply_error env code d e)"
    unfolding one_header_def reply_error_def JsonError_split by (intro exI conjI, rule refl) simp_all
  show "one_header (http_redirect meth url code)"
    unfolding one_header_def
    by (rule exI [of _ "[SetHeader ''Location'' url] @
          (if meth \<in> {''GET'', ''HEAD''} then [SetHeader ''Content-Type'' ''text/html; charset=utf-8''] else [])"])
       (auto simp: http_redirect_def)
qed

lemma Session_hops_quiet:
  "Session_Save env token s st = ((e, hops), s', st') \<Longrightarrow> list_all quiet hops"
  "Session_Update env token s st = ((e, hops), s', st') \<Longrightarrow> list_all quiet hops"
  "Session_Delete env s st = ((e, hops), s', st') \<Longrightarrow> list_all quiet hops"
proof -
  show "list_all quiet hops" if "Session_Save env token s st = ((e, hops), s', st')"
    using that by (cases rule: Session_Save_cases) (auto dest: save_cookie_hops)
  show "list_all quiet hops" if "Session_Update env token s st = ((e, hops), s', st')"
    using that by (cases rule: Session_Update_cases) (auto dest: save_cookie_hops)
  show "list_all quiet hops" if "Session_Delete env s st = ((e, hops), s', st')"
    using that by (cases rule: Session_Delete_cases) (auto dest: save_cookie_hops)
qed

lemma saveState_quiet: "fst (saveState env state age s) = (e, hops) \<Longrightarrow> list_all quiet hops"
  by (auto simp: saveState_def Let_def dest: save_cookie_hops)

section \<open>Properties\<close>

definition served_alone :: "(nat \<times> request_info \<times> string \<times> request \<times> hop list) \<Rightarrow> log_event list" where
  "served_alone x = (case x of (i, q, latency, r, hops) \<Rightarrow> alone i q latency (from_context r @ hops))"

definition own_entry :: "(nat \<times> request_info \<times> string \<times> request \<times> hop list) \<Rightarrow> nat \<times> log_entry" where
  "own_entry x = (case x of (i, q, latency, r, hops) \<Rightarrow>
     (i, the (fst (Middleware q latency (from_context r @ hops) new_logger))))"

lemma serial_run:
  assumes "flights s = Map.empty" "clean (shared s)" "\<forall>(i, q, latency, r, hops)\<in>set xs. Panic \<notin> set hops"
  shows "\<exists>l. clean l \<and> server_run (concat (map served_alone xs)) s =
    Some (s\<lparr>shared := l, entries := entries s @ map own_entry xs\<rparr>)"
  using assms
proof (induction xs arbitrary: s)
  case Nil
  then show ?case by (auto intro: exI [of _ "shared s"])
next
  case (Cons x xs)
  obtain i q latency r hops where x: "x = (i, q, latency, r, hops)" by (cases x)
  let ?h = "from_context r @ hops"
  let ?s = "s\<lparr>shared := snd (Middleware q latency ?h (shared s)), entries := entries s @ [own_entry x]\<rparr>"
  have "server_run (served_alone x) s = Some ?s"
    using alone_run [of s ?h i q latency] Cons.prems
    by (simp add: x served_alone_def own_entry_def Middleware_forgets [of "shared s"])
  moreover obtain l where "clean l" "server_run (concat (map served_alone xs)) ?s =
      Some (?s\<lparr>shared := l, entries := entries ?s @ map own_entry xs\<rparr>)"
    using Cons.IH [of ?s] Cons.prems Middleware_clean by auto
  ultimately show ?case by (intro exI [of _ l]) (simp add: server_run_append)
qed

text \<open>Requests served one after the other: each entry is the one its request would get as
  the only request ever, and the logger is clean again after it. (Every handler starts with
  \<open>FromContext\<close>, which overwrites the trace fields; the deferred function clears the error.)\<close>

lemma serial_requests_do_not_interfere:
  assumes "\<forall>(i, q, latency, r, hops)\<in>set xs. Panic \<notin> set hops"
  shows "\<exists>l. clean l \<and> server_run (concat (map served_alone xs)) (idle new_logger) =
    Some \<lparr>shared = l, flights = Map.empty, entries = map own_entry xs\<rparr>"
  using serial_run [of "idle new_logger" xs] assms by (simp add: idle_def)

definition example_info :: request_info where
  "example_info = \<lparr>info_method = ''GET'', info_uri = ''/login'', info_host = ''127.0.0.1:4711'',
     info_referer = [], info_real_ip = None, info_proto = ''HTTP/1.1'', info_user_agent = ''curl''\<rparr>"

definition example_request :: request where
  "example_request = \<lparr>req_method = ''GET'', req_query = [], req_post_form = [], req_cookies = [], req_trace = ([], [])\<rparr>"

definition overlap :: "request_info \<Rightarrow> hop list \<Rightarrow> request_info \<Rightarrow> hop list \<Rightarrow> string \<Rightarrow> string \<Rightarrow> log_event list" where
  "overlap q1 hops1 q2 hops2 lat1 lat2 =
     [Arrive 1 q1 hops1, Arrive 2 q2 hops2] @ replicate (length hops1) (Move 1)
     @ replicate (length hops2) (Move 2) @ [LogEntry 1 lat1, Clean 1, LogEntry 2 lat2, Clean 2]"

lemma overlap_run:
  assumes "Panic \<notin> set hops1" "Panic \<notin> set hops2"
  shows "server_run (overlap q1 hops1 q2 hops2 lat1 lat2) (idle l) =
    (let l' = fold logger_step hops2 (fold logger_step hops1 l) in
     Some \<lparr>shared = clean_logger (clean_logger l'), flights = Map.empty,
       entries = [(1, log_request q1 lat1 (fold recorder_step hops1 \<lparr>Status = 200, Written = 0\<rparr>) l'),
                  (2, log_request q2 lat2 (fold recorder_step hops2 \<lparr>Status = 200, Written = 0\<rparr>) (clean_logger l'))]\<rparr>)"
proof -
  let ?s0 = "(idle l)\<lparr>flights := [1 \<mapsto> arrival q1 hops1, 2 \<mapsto> arrival q2 hops2]\<rparr>"
  let ?f1 = "(arrival q1 hops1)\<lparr>if_hops := [], if_recorder := fold recorder_step hops1 \<lparr>Status = 200, Written = 0\<rparr>\<rparr>"
  let ?f2 = "(arrival q2 hops2)\<lparr>if_hops := [], if_recorder := fold recorder_step hops2 \<lparr>Status = 200, Written = 0\<rparr>\<rparr>"
  let ?s1 = "?s0\<lparr>shared := fold logger_step hops1 l, flights := [1 \<mapsto> ?f1, 2 \<mapsto> arrival q2 hops2]\<rparr>"
  let ?s2 = "?s1\<lparr>shared := fold logger_step hops2 (fold logger_step hops1 l), flights := [1 \<mapsto> ?f1, 2 \<mapsto> ?f2]\<rparr>"
  have 1: "server_run (replicate (length hops1) (Move 1)) ?s0 = Some ?s1"
    using server_run_moves [of ?s0 1 "arrival q1 hops1" hops1 "[]"] assms(1)
    by (simp add: arrival_def idle_def fun_upd_twist)
  have 2: "server_run (replicate (length hops2) (Move 2)) ?s1 = Some ?s2"
    using server_run_moves [of ?s1 2 "arrival q2 hops2" hops2 "[]"] assms(2)
    by (simp add: arrival_def idle_def fun_upd_twist)
  have "server_run [Arrive 1 q1 hops1, Arrive 2 q2 hops2] (idle l) = Some ?s0"
    by (simp add: idle_def)
  then have "server_run (overlap q1 hops1 q2 hops2 lat1 lat2) (idle l) =
      server_run [LogEntry 1 lat1, Clean 1, LogEntry 2 lat2, Clean 2] ?s2"
    unfolding overlap_def server_run_append by (simp only: 1 2 option.case)
  also have "\<dots> = (let l' = fold logger_step hops2 (fold logger_step hops1 l) in
     Some \<lparr>shared = clean_logger (clean_logger l'), flights = Map.empty,
       entries = [(1, log_request q1 lat1 (fold recorder_step hops1 \<lparr>Status = 200, Written = 0\<rparr>) l'),
                  (2, log_request q2 lat2 (fold recorder_step hops2 \<lparr>Status = 200, Written = 0\<rparr>) (clean_logger l'))]\<rparr>)"
    by (simp add: arrival_def idle_def Let_def fun_upd_twist)
  finally show ?thesis .
qed

text \<open>C37. Requests served at the same time do interfere: when request 2 reports an error after the
  handler of request 1 has finished and before the entry of request 1 is written, the entry of
  request 1 carries the error and the description of request 2, and the entry of request 2,
  written after request 1 cleaned the shared logger, carries neither.\<close>

theorem concurrent_requests_swap_errors:
  assumes "Panic \<notin> set hops1" "Panic \<notin> set pre"
    and "hops2 = pre @ JsonError ts code d (Some e)"
  shows "\<exists>l entry1 entry2.
    server_run (overlap q1 hops1 q2 hops2 lat1 lat2) (idle new_logger) =
      Some \<lparr>shared = l, flights = Map.empty, entries = [(1, entry1), (2, entry2)]\<rparr> \<and>
    (''error'', FErr e) \<in> set (entry_fields entry1) \<and>
    entry_message entry1 = StatusText (recorded_status hops1) @ (if d = [] then [] else '': '' @ d) \<and>
    (\<forall>v. (''error'', v) \<notin> set (entry_fields entry2)) \<and>
    entry_message entry2 = StatusText code"
proof -
  have "Panic \<notin> set hops2" using assms(2,3) by (simp add: JsonError_def)
  note run = overlap_run [OF assms(1) this, of q1 q2 lat1 lat2 new_logger]
  have st: "Status (fold recorder_step hops2 rec) = code" for rec
    unfolding assms(3) by (rule JsonError_records)
  have er: "lastErr (fold logger_step hops2 l) = Some e" "lastErrDescription (fold logger_step hops2 l) = d" for l
    unfolding assms(3) by (rule JsonError_records)+
  show ?thesis
    unfolding run Let_def
    by (intro exI conjI, rule refl)
       (auto simp: log_request_def log_fields_def log_message_def er st clean_logger_def recorded_status_def
          split: option.splits)
qed

theorem concurrent_requests_swap_errors_witness:
  "\<exists>l entry1 entry2.
    server_run (overlap example_info [WriteHeader 302] example_info
        ([] @ JsonError ''2021-01-01T00:00:00Z'' 500 ''cannot create a new session'' (Some ErrSessionInvalid)) ''1ms'' ''2ms'')
        (idle new_logger) =
      Some \<lparr>shared = l, flights = Map.empty, entries = [(1, entry1), (2, entry2)]\<rparr> \<and>
    (''error'', FErr ErrSessionInvalid) \<in> set (entry_fields entry1) \<and>
    entry_message entry1 = StatusText (recorded_status [WriteHeader 302]) @ (if ''cannot create a new session'' = [] then [] else '': '' @ ''cannot create a new session'') \<and>
    (\<forall>v. (''error'', v) \<notin> set (entry_fields entry2)) \<and>
    entry_message entry2 = StatusText 500"
  by (rule concurrent_requests_swap_errors [OF _ _ refl]) simp_all

text \<open>C40. What an error reply leaves behind when its request is served alone by a logger that
  \<open>NewLogger\<close> made: the client and the log agree on the status, the entry has the level of the
  status, the description as its message and the error among its fields. It is written if the
  configured level is \<open>debug\<close> or \<open>info\<close>, or \<open>warn\<close> and the status is at least 400, or \<open>error\<close> and the
  status is at least 500; from \<open>dpanic\<close> on no request is logged at all.\<close>

theorem error_reply_is_logged:
  assumes "list_all quiet pre" "hops = pre @ JsonError ts code d (Some e)"
    and "NewLogger lib level production = Inr (z, l)"
  shows "\<exists>entry. fst (Middleware q latency hops l) = Some entry \<and>
    client_status hops = Some code \<and> (''status'', FInt code) \<in> set (entry_fields entry) \<and>
    entry_level entry = (if code \<ge> 500 then Error else if code \<ge> 400 then Warn else Info) \<and>
    entry_message entry = StatusText code @ (if d = [] then [] else '': '' @ d) \<and>
    (''error'', FErr e) \<in> set (entry_fields entry) \<and>
    zap_write z entry =
      (if zap_level z \<in> {Debug, Info} \<or> zap_level z = Warn \<and> code \<ge> 400 \<or> zap_level z = Error \<and> code \<ge> 500
       then [entry] else [])"
proof -
  have np: "Panic \<notin> set hops"
    using assms by (auto simp: JsonError_def list_all_iff)
  have st: "Status (fold recorder_step hops rec) = code" for rec
    unfolding assms(2) by (rule JsonError_records)
  have er: "lastErr (fold logger_step hops l) = Some e" "lastErrDescription (fold logger_step hops l) = d"
    unfolding assms(2) by (rule JsonError_records)+
  have "client_status hops = Some code"
    using client_status_decided(1) [of "pre @ [SetErr d (Some e), SetHeader ''Content-Type'' ''application/json; charset=utf-8'',
      SetHeader ''X-Content-Type-Options'' ''nosniff'']"] assms
    by (simp add: JsonError_def)
  moreover have "zap_level z \<le> status_level code \<longleftrightarrow>
      zap_level z \<in> {Debug, Info} \<or> zap_level z = Warn \<and> code \<ge> 400 \<or> zap_level z = Error \<and> code \<ge> 500"
    by (cases "zap_level z") (simp_all add: status_level_def less_eq_log_level_def)
  ultimately show ?thesis
    using np by (simp add: Middleware_def Let_def log_request_def log_fields_def log_message_def er st zap_write_def)
      (simp add: status_level_def)
qed

theorem error_reply_is_logged_witness:
  "\<exists>z entry. NewLogger ex_zap ''error'' True = Inr (z, new_logger) \<and>
    fst (Middleware example_info ''1ms'' ([] @ JsonError ''now'' 401 ''no session found'' (Some ErrSessionNotFound)) new_logger) = Some entry \<and>
    client_status ([] @ JsonError ''now'' 401 ''no session found'' (Some ErrSessionNotFound)) = Some 401 \<and>
    entry_level entry = Warn \<and> (''error'', FErr ErrSessionNotFound) \<in> set (entry_fields entry) \<and> zap_write z entry = []"
proof -
  obtain z where z: "NewLogger ex_zap ''error'' True = Inr (z, new_logger)" "zap_level z = Error"
    by (simp add: NewLogger_def ex_zap_def Let_def)
  from error_reply_is_logged [OF _ refl z(1), of "[]" example_info "''1ms''" "''now''" 401 "''no session found''" ErrSessionNotFound] z
  show ?thesis by auto
qed

text \<open>The status in the log is the status the client got, for every outcome of the login, the
  callback and the logout handler: each of them sends exactly one status line, and none of
  them panics.\<close>

lemma recorded_status_is_sent:
  "client_status (LoginHandlerOidc env m c r) = Some (recorded_status (LoginHandlerOidc env m c r)) \<and>
   client_status (fst (CallbackHandlerOidc env m c uri r st)) =
     Some (recorded_status (fst (CallbackHandlerOidc env m c uri r st))) \<and>
   client_status (fst (LogoutHandlerOidc env m c uri r st)) =
     Some (recorded_status (fst (LogoutHandlerOidc env m c uri r st)))"
proof (intro conjI)
  show "client_status (LoginHandlerOidc env m c r) = Some (recorded_status (LoginHandlerOidc env m c r))"
    by (rule one_header_agrees)
       (auto simp: LoginHandlerOidc_def Let_def dest!: saveState_quiet intro!: one_header_quiet
          split: sum.splits option.splits prod.splits)
  show "client_status (fst (CallbackHandlerOidc env m c uri r st)) =
      Some (recorded_status (fst (CallbackHandlerOidc env m c uri r st)))"
    by (rule one_header_agrees)
       (auto simp: CallbackHandlerOidc_def Let_def dest!: Session_hops_quiet intro!: one_header_quiet
          split: sum.splits option.splits prod.splits)
  show "client_status (fst (LogoutHandlerOidc env m c uri r st)) =
      Some (recorded_status (fst (LogoutHandlerOidc env m c uri r st)))"
    by (rule one_header_agrees)
       (auto simp: LogoutHandlerOidc_def Let_def dest!: Session_hops_quiet intro!: one_header_quiet
          split: sum.splits option.splits prod.splits)
qed

lemma fold_writes:
  "res_sent r = Some x \<Longrightarrow> fold resp_step (map Write bs) r = r\<lparr>res_body := res_body r @ concat bs\<rparr>"
  by (induction bs arbitrary: r) simp_all

lemma recorder_fold_writes:
  "fold recorder_step (map Write bs) rec = (if bs = [] then rec else rec\<lparr>Written := length (last bs)\<rparr>)"
  by (induction bs arbitrary: rec) (simp_all add: recorder_Write_def)

text \<open>The userinfo handler behind the middleware passes on whatever the provider's userinfo
  endpoint answers under status 200: the status of that answer is not looked at. When copying
  the body fails half way, the client still sees status 200, with the JSON error appended to
  the copied part, while the log records 500. And the size in the log is not that of the body
  but of its last chunk.\<close>

lemma userinfo_always_200:
  assumes "client_Get env c token (UserInfoEndpoint (OidcEndpoints c)) = Inr resp"
  shows "client_status (userinfo_inner env c r (Some (VString token))) = Some 200 \<and>
    res_body (client_view (userinfo_inner env c r (Some (VString token)))) =
      concat (ui_chunks resp) @
      (if ui_copy_error resp = None then []
       else error_body 500 ''cannot copy userinfo response to the client'' (timestamp env)) \<and>
    recorded_status (userinfo_inner env c r (Some (VString token))) =
      (if ui_copy_error resp = None then 200 else 500) \<and>
    (ui_copy_error resp = None \<and> ui_chunks resp \<noteq> [] \<longrightarrow>
      Written (fold recorder_step (userinfo_inner env c r (Some (VString token))) \<lparr>Status = 200, Written = 0\<rparr>) =
        length (last (ui_chunks resp)))"
proof -
  let ?pre = "from_context r @ [SetHeader ''Content-Type'' ''application/json'']"
  let ?tail = "(case ui_copy_error resp of
      Some err \<Rightarrow> reply_error env 500 ''cannot copy userinfo response to the client'' (Some err) | None \<Rightarrow> [])
    @ (case ui_close_error resp of
      Some err \<Rightarrow> [SetErr ''error closing userinfo handler body: '' (Some err)] | None \<Rightarrow> [])"
  have hops: "userinfo_inner env c r (Some (VString token)) = ?pre @ WriteHeader 200 # map Write (ui_chunks resp) @ ?tail"
    by (simp add: userinfo_inner_def as_string_def assms)
  have "Panic \<notin> set (map Write (ui_chunks resp) @ ?tail)"
    by (auto split: option.splits)
  then have "client_status (userinfo_inner env c r (Some (VString token))) = Some 200"
    unfolding hops by (intro client_status_decided(1)) simp_all
  then show ?thesis
    by (auto simp: hops client_view_def fold_writes recorded_status_def recorder_fold_writes
        fresh_response_def http_defs split: option.splits)
qed

end
