(* ===== verification/Store_Properties.thy ===== *)
theory Store_Properties
  imports Examples
begin

text \<open>
  What the two back ends of \<open>database/sqlite.go\<close> and \<open>database/postgresql.go\<close> do to the sessions
  they hold: both refine one abstract map of sessions; where they agree and where they do not;
  what a purge removes; what happens between the two halves of an update.
\<close>

section \<open>Both back ends\<close>

text \<open>The methods \<open>I\<close> are those of one of the two back ends, opened with the cipher \<open>c\<close>.\<close>

definition backend :: "cipher option \<Rightarrow> store session_impl \<Rightarrow> bool" where
  "backend c I \<longleftrightarrow> I = sqlite_impl c \<or> I = postgresql_impl c"

lemma backend_simps [simp]: "backend c (sqlite_impl c)" "backend c (postgresql_impl c)"
  by (simp_all add: backend_def)

text \<open>What the contract gives for any back end holds of both.\<close>

lemma backend_store:
  assumes "backend c I"
  obtains no_rows where "session_store I (stored c) ids conn_open no_rows (cipher_correct c)"
  using assms sqlite.session_store_axioms postgresql.session_store_axioms by (auto simp: backend_def)

section \<open>The abstract map\<close>

text \<open>The effect of a call on a map of sessions, and whether a call succeeds on a back end.\<close>

fun spec_effect :: "db_call \<Rightarrow> session_map \<Rightarrow> session_map" where
  "spec_effect (CallAdd env d) m = m(env_uuid env \<mapsto> store_precision d)"
| "spec_effect (CallDelete env sid) m = m(sid := None)"
| "spec_effect (CallGet env sid) m = m"
| "spec_effect (CallUpdate env sid d) m = m(sid \<mapsto> store_precision d)"
| "spec_effect (CallPurge env) m = spec_purge (env_now env) m"

fun succeeds :: "'s session_impl \<Rightarrow> db_call \<Rightarrow> 's \<Rightarrow> bool" where
  "succeeds I (CallAdd env d) s \<longleftrightarrow> \<not> isl (fst (Add I env d s))"
| "succeeds I (CallDelete env sid) s \<longleftrightarrow> \<not> isl (fst (Delete I env sid s))"
| "succeeds I (CallGet env sid) s \<longleftrightarrow> \<not> isl (Get I env sid s)"
| "succeeds I (CallUpdate env sid d) s \<longleftrightarrow> \<not> isl (fst (Update I env sid d s))"
| "succeeds I (CallPurge env) s \<longleftrightarrow> \<not> isl (fst (Purge I env s))"

text \<open>The calls of a history that succeed, in order.\<close>

fun successful :: "'s session_impl \<Rightarrow> db_call list \<Rightarrow> 's \<Rightarrow> db_call list" where
  "successful I [] s = []"
| "successful I (c # cs) s =
     (if succeeds I c s then [c] else []) @ successful I cs (run_call I c s)"

context session_store
begin

lemma call_refines:
  assumes reliable
  shows "view (run_call I c s) = (if succeeds I c s then spec_effect c (view s) else view s)"
proof (cases c)
  case (CallAdd env d)
  show ?thesis
  proof (cases "Add I env d s")
    case (Pair res s')
    then show ?thesis
      using CallAdd assms Add_Inl Add_Inr Add_view by (cases res) (fastforce simp: fun_eq_iff)+
  qed
next
  case (CallDelete env sid)
  show ?thesis
  proof (cases "Delete I env sid s")
    case (Pair res s')
    then show ?thesis
      using CallDelete Delete_Inl Delete_Inr by (cases res) (fastforce simp: fun_eq_iff)+
  qed
next
  case (CallUpdate env sid d)
  show ?thesis
  proof (cases "Update I env sid d s")
    case (Pair res s')
    then show ?thesis
      using CallUpdate assms Update_Inl Update_Inr Update_view by (cases res) (fastforce simp: fun_eq_iff)+
  qed
next
  case (CallPurge env)
  show ?thesis
  proof (cases "Purge I env s")
    case (Pair res s')
    then show ?thesis
      using CallPurge Purge_Inl Purge_Inr by (cases res) fastforce+
  qed
qed simp

lemma history_refines:
  assumes reliable
  shows "view (run_calls I cs s) = fold spec_effect (successful I cs s) (view s)"
  by (induction cs arbitrary: s) (simp_all add: call_refines [OF assms])

end

section \<open>Properties\<close>

text \<open>C12. Refinement: with a correct cipher, any history of calls leaves either back end with the
  sessions that the abstract map has after those calls of the history that succeeded; a call
  that fails changes nothing.\<close>

theorem backend_refines_map:
  assumes "backend c I" "cipher_correct c"
  shows "stored c (run_calls I cs st) = fold spec_effect (successful I cs st) (stored c st)"
  using assms(1) by (rule backend_store) (rule session_store.history_refines [OF _ assms(2)])

theorem backend_refines_map_witness:
  "stored None (run_calls (sqlite_impl None) [CallAdd (ex_db_env ''uuid-1'') (ex_data 500), CallPurge (ex_db_env [])] (ex_store 2000)) =
     fold spec_effect (successful (sqlite_impl None) [CallAdd (ex_db_env ''uuid-1'') (ex_data 500), CallPurge (ex_db_env [])] (ex_store 2000))
       (stored None (ex_store 2000))"
  by (rule backend_refines_map) (simp_all add: cipher_correct_def)

text \<open>C17. Round trip: a session that was added is read back as it was, under the id the call returned,
  except that its expiry is cut to the second; so the stored copy expires at most one second
  early and never late.\<close>

theorem add_then_get:
  assumes "backend c I" "cipher_correct c" "Add I env d st = (Inr sid, st')" "conn_open st'" "env_fault env' = None"
  shows "Get I env' sid st' = Inr (store_precision d) \<and>
    (IsExpired now d \<longrightarrow> IsExpired now (store_precision d)) \<and>
    (IsExpired now (store_precision d) \<longrightarrow> ExpiresAt d < now + second)"
proof -
  obtain no_rows where S: "session_store I (stored c) ids conn_open no_rows (cipher_correct c)"
    using assms(1) by (rule backend_store)
  have "Get I env' sid st' = Inr (store_precision d)"
    by (rule session_store.Get_view [OF S assms(4,5) session_store.Add_view [OF S assms(2,3)]])
  moreover have "truncate_second t \<le> t" "t < truncate_second t + second" for t
    by (simp_all add: truncate_second_def from_unix_def unix_def second_def)
  note this [of "ExpiresAt d"]
  ultimately show ?thesis by (auto simp: IsExpired_def store_precision_def)
qed

theorem add_then_get_witness:
  "Get (sqlite_impl None) (ex_db_env []) ''uuid-1'' (ex_new_store ''uuid-1'' (ex_store 500)) = Inr (store_precision ex_new_data)"
  using add_then_get [OF backend_simps(1), of None "ex_db_env ''uuid-1''" ex_new_data "ex_store 500" "''uuid-1''"
      "ex_new_store ''uuid-1'' (ex_store 500)" "ex_db_env []" 0]
  by (simp add: cipher_correct_def) (simp add: ex_new_store_def)

text \<open>C23. A purge removes exactly the sessions whose expiry lies in an earlier second than the clock,
  all of them expired, and leaves every other session as it is.\<close>

theorem purge_removes_expired:
  assumes "backend c I" "Purge I env st = (Inr (), st')"
  shows "stored c st' sid =
      (case stored c st sid of
         None \<Rightarrow> None
       | Some d \<Rightarrow> if unix (ExpiresAt d) < unix (env_now env) then None else Some d) \<and>
    (stored c st sid = Some d \<and> stored c st' sid = None \<longrightarrow> IsExpired (env_now env) d)"
proof -
  obtain no_rows where S: "session_store I (stored c) ids conn_open no_rows (cipher_correct c)"
    using assms(1) by (rule backend_store)
  have "stored c st' = spec_purge (env_now env) (stored c st)"
    using session_store.Purge_Inr [OF S assms(2)] by simp
  moreover have "t < now" if "unix t < unix now" for t now
    using that by (smt (verit) unix_def zdiv_mono1)
  ultimately show ?thesis by (auto simp: spec_purge_def IsExpired_def split: option.splits if_splits)
qed

theorem purge_removes_expired_witness:
  "stored None (snd (sqlite_Purge (ex_db_env []) (ex_store 500))) ''uuid-0'' = None \<and> IsExpired (from_unix 1000) (ex_data 500)"
proof -
  obtain st' where P: "sqlite_Purge (ex_db_env []) (ex_store 500) = (Inr (), st')"
    by (fastforce simp: sqlite_Purge_Inr_iff sql_purge_def)
  then have "Purge (sqlite_impl None) (ex_db_env []) (ex_store 500) = (Inr (), st')" by simp
  from purge_removes_expired [OF backend_simps(1) this, of "''uuid-0''" "ex_data 500"] P show ?thesis by simp
qed

text \<open>C16. A session never changes hands: whatever calls follow, as long as no new session draws its id,
  the session under an id has the subject it had before or is gone; an update for another
  subject is refused and changes nothing.\<close>

theorem subject_never_changes:
  assumes "backend c I" "stored c st sid = Some d"
  shows "(\<forall>calls d'. Some sid \<notin> uuid_of_call ` set calls \<and> stored c (run_calls I calls st) sid = Some d' \<longrightarrow>
      Subject d' = Subject d) \<and>
    (\<forall>env x. conn_open st \<and> env_get_fault env = None \<and> Subject x \<noteq> Subject d \<longrightarrow>
      Update I env sid x st = (Inl ErrSessionsMismatch, st))"
proof -
  obtain no_rows where S: "session_store I (stored c) ids conn_open no_rows (cipher_correct c)"
    using assms(1) by (rule backend_store)
  have "Update I env sid x st = (Inl ErrSessionsMismatch, st)"
    if h: "conn_open st" "env_get_fault env = None" "Subject x \<noteq> Subject d" for env x
  proof -
    have "sqlite_Get c None sid st = Inr d" "postgresql_Get c None sid st = Inr d"
      using h(1) assms(2) by (simp_all add: sqlite_Get_Inr_iff postgresql_Get_Inr_iff)
    then show ?thesis
      using h(2,3) assms(1) by (auto simp: backend_def sqlite_Update_def sqlite_Update_read_def
          postgresql_Update_def postgresql_Update_read_def)
  qed
  then show ?thesis using session_store.subject_stable [OF S assms(2)] by blast
qed

theorem subject_never_changes_witness:
  "Update (sqlite_impl None) (ex_db_env []) ''uuid-0'' ((ex_data 500)\<lparr>Subject := ''mallory''\<rparr>) (ex_store 500) =
     (Inl ErrSessionsMismatch, ex_store 500)"
  using subject_never_changes [OF backend_simps(1) ex_stored(1) [of 500]] by simp

text \<open>\<open>Update\<close> reads the row and writes it in two statements. When the session is deleted in
  between, the update still reports success, but the session stays deleted: nothing brings a
  row back that a logout removed.\<close>

lemma update_after_delete:
  assumes "sqlite_Update_read c env sid d st = Inr enc" "sqlite_Delete env1 sid st = (Inr (), st1)" "env_fault env = None"
  shows "sqlite_Update_write env sid enc st1 = (Inr (), st1) \<and> sid \<notin> ids st1 \<and> stored c st1 sid = None"
proof -
  have "conn_open st1" "sid \<notin> ids st1" "stored c st1 sid = None"
    using assms(2) by (auto simp: sqlite_Delete_Inr_iff)
  then show ?thesis using assms(3) by (simp add: sqlite_Update_write_Inr_iff)
qed

text \<open>Two results agree: the same value, or both an error (the errors differ by driver).\<close>

definition agree :: "'a result \<Rightarrow> 'a result \<Rightarrow> bool" where
  "agree x y \<longleftrightarrow> (case (x, y) of (Inr a, Inr b) \<Rightarrow> a = b | (Inl _, Inl _) \<Rightarrow> True | _ \<Rightarrow> False)"

lemma agree_simps [simp]:
  "agree (Inl e) (Inl e')" "agree (Inr a) (Inr b) \<longleftrightarrow> a = b" "\<not> agree (Inl e) (Inr b)" "\<not> agree (Inr a) (Inl e)"
  by (simp_all add: agree_def)

definition in_range :: "db_call \<Rightarrow> bool" where
  "in_range call =
     (case call of
        CallAdd env d \<Rightarrow> int4 (unix (ExpiresAt d)) \<and> length (env_uuid env) \<le> 36
      | CallUpdate env sid d \<Rightarrow> int4 (unix (ExpiresAt d)) \<and> length sid \<le> 36
      | CallPurge env \<Rightarrow> int4 (unix (env_now env))
      | _ \<Rightarrow> True)"

lemma checks_agree: "length sid \<le> 36 \<Longrightarrow> postgresql_row_check sid row = sqlite_row_check sid row"
  by (simp add: postgresql_row_check_def sqlite_row_check_def)

lemma bind_in_range: "int4 n \<Longrightarrow> bind_int4 n stmt = stmt"
  by (simp add: bind_int4_def fun_eq_iff)

lemma exec_agree: "agree (fst (exec ce f stmt st)) (fst (exec ce' f stmt st)) \<and> snd (exec ce f stmt st) = snd (exec ce' f stmt st)"
  by (auto simp: exec_def split: option.splits sum.splits)

lemma sqlite_postgresql_Get: "agree (sqlite_Get c f sid st) (postgresql_Get c f sid st)"
  by (auto simp: sqlite_Get_def postgresql_Get_def query_row_def agree_def split: option.splits sum.splits)

lemma sqlite_postgresql_Update_read:
  "agree (sqlite_Update_read c env sid d st) (postgresql_Update_read c env sid d st)"
  using sqlite_postgresql_Get [of c "env_get_fault env" sid st]
  by (auto simp: sqlite_Update_read_def postgresql_Update_read_def and_then_def agree_def split: sum.splits)



text \<open>Outside that range PostgreSQL refuses what SQLite stores: a session whose expiry does not fit
  into 32 bits is not added, in particular one of a token without an expiry (the zero time), and
  after January 2038 no purge succeeds.\<close>

lemma postgresql_range:
  assumes "conn_open st" "env_fault env = None" "encryptArgs c (env_nonces env) d = Inr enc"
  shows "(\<not> int4 (unix (ExpiresAt d)) \<longrightarrow>
      postgresql_Add c env d st = (Inl (StmtErr IntegerOutOfRange), st) \<and>
      (sqlite_row_check (env_uuid env) (row_of enc) = None \<and> env_uuid env \<notin> ids st \<longrightarrow>
        fst (sqlite_Add c env d st) = Inr (env_uuid env))) \<and>
    (ExpiresAt d = zero_time \<longrightarrow> \<not> int4 (unix (ExpiresAt d))) \<and>
    (\<not> int4 (unix (env_now env)) \<longrightarrow> postgresql_Purge env st = (Inl (StmtErr IntegerOutOfRange), st))"
  using assms encryptArgs_keeps [OF assms(3)]
  by (auto simp: postgresql_Add_def sqlite_Add_def postgresql_Purge_def Let_def exec_def bind_int4_def
      sql_insert_def ids_def zero_time_def int4_def split: option.splits)

definition never_empty :: "cipher \<Rightarrow> bool" where
  "never_empty k \<longleftrightarrow> (\<forall>n p x. EncryptToHexString k n p = Inr x \<longrightarrow> x \<noteq> [])"

text \<open>The \<open>CHECK\<close> constraints on the token columns only bite without encryption: with a cipher whose
  ciphertexts are never empty, a session without a refresh token is stored, and without a
  cipher the same session is refused.\<close>

lemma encryption_bypasses_checks:
  assumes "conn_open st" "env_fault env = None" "env_uuid env \<notin> ids st" "Subject d \<noteq> []" "RefreshToken d = []"
    and "never_empty k" "encryptArgs (Some k) (env_nonces env) d = Inr enc"
  shows "fst (sqlite_Add (Some k) env d st) = Inr (env_uuid env) \<and>
    sqlite_Add None env d st = (Inl (StmtErr CheckViolation), st)"
proof -
  have "AccessToken enc \<noteq> []" "RefreshToken enc \<noteq> []" "IDToken enc \<noteq> []" "Subject enc \<noteq> []"
    using assms(4,6,7) by (auto simp: encryptArgs_def and_then_Inr_iff map_err_Inr_iff never_empty_def)
  then have "sqlite_row_check sid (row_of enc) = None" for sid
    by (simp add: sqlite_row_check_def row_of_def)
  then show ?thesis
    using assms by (auto simp: sqlite_Add_def Let_def exec_def sql_insert_def ids_def sqlite_row_check_def row_of_def
        encryptArgs_def [of None] split: option.splits)
qed

definition ex_cipher :: cipher where
  "ex_cipher = \<lparr>EncryptToHexString = (\<lambda>n p. Inr (CHR ''e'' # p)), DecryptFromHexString = (\<lambda>x. Inr (tl x))\<rparr>"

end
