(* ===== verification/Proxy.thy ===== *)
theory Proxy
  imports Shared_Logger
begin

text \<open>
  \<open>proxy.go\<close> and the route handler of \<open>main.go\<close> around it: the \<open>Director\<close> and \<open>ErrorHandler\<close>
  given to \<open>httputil.ReverseProxy\<close>, and what \<open>ReverseProxy.ServeHTTP\<close> (Go 1.20) does before and
  after them: it strips hop-by-hop headers after the \<open>Director\<close> has run and extends
  \<open>X-Forwarded-For\<close>. Protocol upgrades, trailers and the default \<open>User-Agent\<close> are left out.

  The transport is a parameter, and so is the propagator that injects trace headers.
\<close>

section \<open>Requests with headers\<close>

record url =
  url_scheme :: string
  url_host :: string
  url_path :: string
  url_query :: string

text \<open>The values of a header in order, under canonical names.\<close>

type_synonym header = "(string \<times> string) list"

record proxy_request =
  pr_method :: string
  pr_url :: url
  pr_host :: string
  pr_header :: header
  pr_remote_addr :: string

definition header_values :: "header \<Rightarrow> string \<Rightarrow> string list" where
  "header_values h k = map snd (filter (\<lambda>kv. fst kv = k) h)"

definition header_del :: "string \<Rightarrow> header \<Rightarrow> header" where
  "header_del k h = filter (\<lambda>kv. fst kv \<noteq> k) h"

definition header_set :: "string \<Rightarrow> string \<Rightarrow> header \<Rightarrow> header" where
  "header_set k v h = header_del k h @ [(k, v)]"

definition header_add :: "string \<Rightarrow> string \<Rightarrow> header \<Rightarrow> header" where
  "header_add k v h = h @ [(k, v)]"

section \<open>The director\<close>

definition Director :: "(header \<Rightarrow> header) \<Rightarrow> url \<Rightarrow> gvalue option \<Rightarrow> proxy_request \<Rightarrow> proxy_request" where
  "Director inject targetURL context_token r =
     (let r1 = r\<lparr>pr_url := targetURL, pr_host := url_host targetURL\<rparr>;
          r2 = (case as_string context_token of
                  Some accessToken \<Rightarrow> r1\<lparr>pr_header := header_set ''Authorization'' (''Bearer '' @ accessToken) (pr_header r1)\<rparr>
                | None \<Rightarrow> r1);
          r3 = r2\<lparr>pr_header := header_add ''X-Forwarded-For'' (pr_remote_addr r2) (pr_header r2)\<rparr>
      in r3\<lparr>pr_header := inject (pr_header r3)\<rparr>)"

section \<open>ReverseProxy.ServeHTTP\<close>

fun canonical_from :: "bool \<Rightarrow> string \<Rightarrow> string" where
  "canonical_from up [] = []"
| "canonical_from up (c # s) =
     (let n = (of_char c :: nat);
          c' = (if up \<and> 97 \<le> n \<and> n \<le> 122 then char_of (n - 32)
                else if \<not> up \<and> 65 \<le> n \<and> n \<le> 90 then char_of (n + 32) else c)
      in c' # canonical_from (c = CHR ''-'') s)"

definition canonical :: "string \<Rightarrow> string" where
  "canonical s = canonical_from True s"

definition trim :: "string \<Rightarrow> string" where
  "trim s = (let blank = (\<lambda>c. c = CHR '' '' \<or> c = CHR 0x09)
             in rev (dropWhile blank (rev (dropWhile blank s))))"

text \<open>The headers a \<open>Connection\<close> header names, and the fixed hop-by-hop headers.\<close>

definition connection_tokens :: "header \<Rightarrow> string list" where
  "connection_tokens h =
     concat (map (\<lambda>v. map (\<lambda>t. canonical (trim t)) (split_on (CHR '','') v)) (header_values h ''Connection''))"

definition hop_headers :: "string list" where
  "hop_headers =
     [''Connection'', ''Proxy-Connection'', ''Keep-Alive'', ''Proxy-Authenticate'', ''Proxy-Authorization'',
      ''Te'', ''Trailer'', ''Transfer-Encoding'', ''Upgrade'']"

definition remove_hop_headers :: "header \<Rightarrow> header" where
  "remove_hop_headers h =
     filter (\<lambda>kv. fst kv \<notin> set (connection_tokens h) \<and> fst kv \<notin> set hop_headers) h"

text \<open>\<open>net.SplitHostPort\<close> for the address of a connection: the part before the last colon.\<close>

definition client_ip :: "string \<Rightarrow> string option" where
  "client_ip addr =
     (if CHR '':'' \<in> set addr
      then Some (rev (tl (dropWhile (\<lambda>c. c \<noteq> CHR '':'') (rev addr)))) else None)"

fun join :: "string \<Rightarrow> string list \<Rightarrow> string" where
  "join sep [] = []"
| "join sep [x] = x"
| "join sep (x # y # xs) = x @ sep @ join sep (y # xs)"

definition forward_for :: "string \<Rightarrow> header \<Rightarrow> header" where
  "forward_for addr h =
     (case client_ip addr of
        None \<Rightarrow> h
      | Some ip \<Rightarrow> header_set ''X-Forwarded-For'' (join '', '' (header_values h ''X-Forwarded-For'' @ [ip])) h)"

text \<open>The request that leaves for the back end.\<close>

definition outgoing :: "(header \<Rightarrow> header) \<Rightarrow> url \<Rightarrow> gvalue option \<Rightarrow> proxy_request \<Rightarrow> proxy_request" where
  "outgoing inject targetURL context_token r =
     (let out = Director inject targetURL context_token r
      in out\<lparr>pr_header := forward_for (pr_remote_addr r) (remove_hop_headers (pr_header out))\<rparr>)"

record proxy_response =
  px_status :: nat
  px_header :: header
  px_chunks :: "string list"
  px_aborted :: bool
    \<comment> \<open>copying the body failed: \<open>ServeHTTP\<close> panics with \<open>http.ErrAbortHandler\<close>\<close>

text \<open>\<open>ErrorHandler\<close>: its logger comes from the context \<open>main\<close> created, which has no span.\<close>

definition ErrorHandler :: "req_env \<Rightarrow> go_error \<Rightarrow> hop list" where
  "ErrorHandler env err = FromCtx [] [] # JsonError (timestamp env) 502 ''reverse proxy error'' (Some err)"

definition ProxyRequestHandler ::
    "req_env \<Rightarrow> (proxy_request \<Rightarrow> proxy_response result) \<Rightarrow> (header \<Rightarrow> header) \<Rightarrow> url \<Rightarrow> proxy_request
       \<Rightarrow> gvalue option \<Rightarrow> hop list" where
  "ProxyRequestHandler env transport inject targetURL r context_token =
     (case transport (outgoing inject targetURL context_token r) of
        Inl err \<Rightarrow> ErrorHandler env err
      | Inr res \<Rightarrow>
          map (\<lambda>(k, v). AddHeader k v) (remove_hop_headers (px_header res))
          @ [WriteHeader (px_status res)] @ map Write (px_chunks res)
          @ (if px_aborted res then [Panic] else []))"

section \<open>NewProxy\<close>

text \<open>
  What \<open>NewProxy\<close> puts into the \<open>httputil.ReverseProxy\<close> and its \<open>http.Transport\<close>, besides the \<open>Director\<close>
  for the target and the \<open>ErrorHandler\<close>; \<open>url.Parse\<close> is a parameter.
\<close>

record proxy_config =
  pc_Timeout :: duration
  pc_KeepAlive :: duration
  pc_MaxIdleConns :: int
  pc_IdleConnTimeout :: duration

record reverse_proxy =
  rp_target :: url
  rp_dial_timeout :: duration
  rp_dial_keep_alive :: duration
  rp_force_http2 :: bool
  rp_max_idle_conns :: int
  rp_idle_conn_timeout :: duration
  rp_flush_interval :: duration

definition NewProxy :: "(string \<Rightarrow> url result) \<Rightarrow> string \<Rightarrow> proxy_config \<Rightarrow> reverse_proxy result" where
  "NewProxy url_Parse targetHost cfg =
     and_then (url_Parse targetHost) (\<lambda>targetURL.
       Inr \<lparr>rp_target = targetURL, rp_dial_timeout = pc_Timeout cfg, rp_dial_keep_alive = pc_KeepAlive cfg,
            rp_force_http2 = True, rp_max_idle_conns = pc_MaxIdleConns cfg,
            rp_idle_conn_timeout = pc_IdleConnTimeout cfg, rp_flush_interval = - 1\<rparr>)"

section \<open>Lemmas\<close>

lemma header_values_filter:
  "header_values (filter (\<lambda>kv. P (fst kv)) h) k = (if P k then header_values h k else [])"
  by (induction h) (auto simp: header_values_def)

lemma header_values_append [simp]: "header_values (h @ h') k = header_values h k @ header_values h' k"
  by (simp add: header_values_def)

lemma header_values_simps [simp]:
  "header_values (header_del k h) k' = (if k' = k then [] else header_values h k')"
  "header_values (header_set k v h) k' = (if k' = k then [v] else header_values h k')"
  "header_values (header_add k v h) k' = header_values h k' @ (if k' = k then [v] else [])"
proof -
  show del: "header_values (header_del k h) k' = (if k' = k then [] else header_values h k')" for h
    by (simp add: header_del_def header_values_filter [where P = "\<lambda>x. x \<noteq> k"])
  show "header_values (header_set k v h) k' = (if k' = k then [v] else header_values h k')"
    by (simp add: header_set_def del) (simp add: header_values_def)
  show "header_values (header_add k v h) k' = header_values h k' @ (if k' = k then [v] else [])"
    by (simp add: header_add_def) (simp add: header_values_def)
qed

lemma header_values_remove:
  "header_values (remove_hop_headers h) k =
     (if k \<in> set (connection_tokens h) \<or> k \<in> set hop_headers then [] else header_values h k)"
  by (simp add: remove_hop_headers_def header_values_filter
      [where P = "\<lambda>x. x \<notin> set (connection_tokens h) \<and> x \<notin> set hop_headers"])

lemma header_values_forward_for: "k \<noteq> ''X-Forwarded-For'' \<Longrightarrow> header_values (forward_for a h) k = header_values h k"
  by (simp add: forward_for_def split: option.splits)

text \<open>The propagator only touches its own headers.\<close>

definition injects_trace_only :: "(header \<Rightarrow> header) \<Rightarrow> bool" where
  "injects_trace_only inject \<longleftrightarrow>
     (\<forall>h k. k \<notin> {''Traceparent'', ''Tracestate'', ''Baggage''} \<longrightarrow> header_values (inject h) k = header_values h k)"

lemma Director_header:
  assumes "injects_trace_only inject" "k \<notin> {''Traceparent'', ''Tracestate'', ''Baggage''}"
  shows "header_values (pr_header (Director inject u (Some (VString token)) r)) k =
    (if k = ''Authorization'' then [''Bearer '' @ token]
     else header_values (pr_header r) k @ (if k = ''X-Forwarded-For'' then [pr_remote_addr r] else []))"
  using assms by (simp add: Director_def Let_def injects_trace_only_def)

lemma connection_tokens_Director:
  assumes "injects_trace_only inject"
  shows "connection_tokens (pr_header (Director inject u (Some (VString token)) r)) = connection_tokens (pr_header r)"
  using Director_header [OF assms, of "''Connection''"] by (simp add: connection_tokens_def)

section \<open>Properties\<close>

lemma outgoing_header:
  assumes "injects_trace_only inject" "k \<notin> {''X-Forwarded-For'', ''Traceparent'', ''Tracestate'', ''Baggage''}"
  shows "header_values (pr_header (outgoing inject target (Some (VString token)) r)) k =
    (if k \<in> set (connection_tokens (pr_header r)) \<or> k \<in> set hop_headers then []
     else if k = ''Authorization'' then [''Bearer '' @ token] else header_values (pr_header r) k)"
  using assms Director_header [OF assms(1), of k]
  by (simp add: outgoing_def Let_def header_values_forward_for header_values_remove connection_tokens_Director)

lemma outgoing_target [simp]:
  "pr_url (outgoing inject target tok r) = target" "pr_host (outgoing inject target tok r) = url_host target"
  by (simp_all add: outgoing_def Director_def Let_def split: option.splits)

lemma outgoing_forwarded_for:
  assumes "injects_trace_only inject" "''X-Forwarded-For'' \<notin> set (connection_tokens (pr_header r))"
    and "client_ip (pr_remote_addr r) = Some ip"
  shows "header_values (pr_header (outgoing inject target (Some (VString token)) r)) ''X-Forwarded-For'' =
    [join '', '' (header_values (pr_header r) ''X-Forwarded-For'' @ [pr_remote_addr r, ip])]"
  using assms Director_header [OF assms(1), of "''X-Forwarded-For''"]
  by (simp add: outgoing_def Let_def forward_for_def header_values_remove connection_tokens_Director hop_headers_def)

definition ex_target :: url where
  "ex_target = \<lparr>url_scheme = ''http'', url_host = ''127.0.0.1:9081'', url_path = [], url_query = []\<rparr>"

definition ex_proxied :: proxy_request where
  "ex_proxied = \<lparr>pr_method = ''GET'',
     pr_url = \<lparr>url_scheme = [], url_host = [], url_path = ''/proxy/items'', url_query = ''page=2''\<rparr>,
     pr_host = ''app'', pr_header = [(''Authorization'', ''Bearer forged''), (''Cookie'', ''session=iuuid-0'')],
     pr_remote_addr = ''10.0.0.7:4711''\<rparr>"

lemma ex_inject: "injects_trace_only (header_set ''Traceparent'' ''00-1-2-01'')"
  by (simp add: injects_trace_only_def)

lemma ex_proxied_tokens: "connection_tokens (pr_header ex_proxied) = []"
  by (simp add: connection_tokens_def ex_proxied_def header_values_def)



text \<open>When the back end cannot be reached the client gets 502, and the log entry has that status, the
  error and the level \<open>error\<close>. But it has lost its trace: the error handler asks the context of
  \<open>main\<close> for the logger, which resets the trace fields that the middleware had set from the
  request.\<close>

lemma proxy_error_loses_trace:
  assumes "transport (outgoing inject target tok pr) = Inl err"
    and "hops = from_context r @ ProxyRequestHandler env transport inject target pr tok"
  shows "client_status hops = Some 502 \<and>
    (\<exists>entry. fst (Middleware q latency hops l) = Some entry \<and> entry_level entry = Error \<and>
      (''status'', FInt 502) \<in> set (entry_fields entry) \<and> (''error'', FErr err) \<in> set (entry_fields entry) \<and>
      (\<forall>v. (''trace-id'', v) \<notin> set (entry_fields entry)))"
proof -
  have hops: "hops = (from_context r @ [FromCtx [] []]) @ reply_error env 502 ''reverse proxy error'' (Some err)"
    by (simp add: assms ProxyRequestHandler_def ErrorHandler_def reply_error_def)
  have "client_status hops = Some 502" unfolding hops by (rule reply_client) simp
  moreover have "Panic \<notin> set hops" by (simp add: hops)
  ultimately show ?thesis
    by (simp add: hops Middleware_def Let_def http_defs log_request_def log_fields_def status_level_def
        split: option.splits)
qed

end
