(* ===== verification/Opentelemetry.thy ===== *)
theory Opentelemetry
  imports Go_Prelude
begin

text \<open>
  Package \<open>opentelemetry\<close> (\<open>opentelemetry/tracer.go\<close>): the set-up of the tracer provider, and the
  tracer in a context. The exporter is third-party code; whether it can be created is a
  parameter. A span is the list of the names on the path to it, from the root; of a context the
  model has the tracer and the current span. What is exported of a span are its attributes and its status, too.
\<close>

section \<open>InitTracer\<close>

datatype sampler = AlwaysSample | OtherSampler string

record tracer_provider =
  tp_service :: string
  tp_sampler :: sampler
  tp_agent :: "string \<times> string"

text \<open>The package variables of \<open>otel\<close> that are set.\<close>

record otel_globals =
  otel_provider :: "tracer_provider option"
  otel_propagators :: "string list"

definition initial_otel :: otel_globals where
  "initial_otel = \<lparr>otel_provider = None, otel_propagators = []\<rparr>"

definition InitTracer ::
    "(string \<Rightarrow> string \<Rightarrow> unit result) \<Rightarrow> string \<Rightarrow> string \<Rightarrow> string \<Rightarrow> otel_globals \<Rightarrow> tracer_provider result \<times> otel_globals" where
  "InitTracer jaeger_New service host port g =
     (case jaeger_New host port of
        Inl err \<Rightarrow> (Inl err, g)
      | Inr _ \<Rightarrow>
          (let tp = \<lparr>tp_service = service, tp_sampler = AlwaysSample, tp_agent = (host, port)\<rparr>
           in (Inr tp, g\<lparr>otel_provider := Some tp, otel_propagators := [''tracecontext'', ''baggage'']\<rparr>)))"

section \<open>Contexts, tracers and spans\<close>

type_synonym tracer = string
type_synonym span = "string list"

record go_context =
  ctx_tracer :: "tracer option"
  ctx_span :: span

text \<open>\<open>trace.Tracer.Start\<close>: a child of the context's span, and a context with it.\<close>

definition tracer_Start :: "tracer \<Rightarrow> go_context \<Rightarrow> string \<Rightarrow> go_context \<times> span" where
  "tracer_Start t ctx spanName =
     (let sp = ctx_span ctx @ [spanName] in (ctx\<lparr>ctx_span := sp\<rparr>, sp))"

definition tracer_NewContext :: "go_context \<Rightarrow> tracer option \<Rightarrow> go_context" where
  "tracer_NewContext parent t = parent\<lparr>ctx_tracer := t\<rparr>"

definition NewSpanFromContext :: "go_context \<Rightarrow> string \<Rightarrow> go_context \<times> span option" where
  "NewSpanFromContext ctx spanName =
     (case ctx_tracer ctx of
        None \<Rightarrow> (ctx, None)
      | Some t \<Rightarrow> (let (ctx', sp) = tracer_Start t ctx spanName in (ctx', Some sp)))"

definition TracerFromContext :: "go_context \<Rightarrow> tracer option" where
  "TracerFromContext ctx = ctx_tracer ctx"

section \<open>What is exported\<close>

text \<open>Times and errors are exported as their text, \<open>String()\<close> and \<open>Error()\<close>; the model keeps the value.\<close>

datatype attribute = TextAttribute string | TimeAttribute time | ErrorAttribute go_error

record span_data =
  span_path :: span
  span_attributes :: "(string \<times> attribute) list"
  span_error :: "string option"
    \<comment> \<open>the description given to \<open>SetStatus(codes.Error, ..)\<close>\<close>

definition started :: "span \<Rightarrow> span_data" where
  "started sp = \<lparr>span_path = sp, span_attributes = [], span_error = None\<rparr>"

definition SetAttributes :: "(string \<times> attribute) list \<Rightarrow> span_data \<Rightarrow> span_data" where
  "SetAttributes kvs d = d\<lparr>span_attributes := span_attributes d @ kvs\<rparr>"

definition SetStatusError :: "string \<Rightarrow> span_data \<Rightarrow> span_data" where
  "SetStatusError description d = d\<lparr>span_error := Some description\<rparr>"

text \<open>What every failed call of a back end does with its span.\<close>

definition failed_span :: "string \<Rightarrow> go_error \<Rightarrow> span_data \<Rightarrow> span_data" where
  "failed_span description err d =
     SetAttributes [(''error.message'', ErrorAttribute err)] (SetStatusError description d)"

lemma span_data_simps [simp]:
  "span_path (started sp) = sp" "span_attributes (started sp) = []" "span_error (started sp) = None"
  "span_path (SetAttributes kvs d) = span_path d" "span_error (SetAttributes kvs d) = span_error d"
  "span_attributes (SetAttributes kvs d) = span_attributes d @ kvs"
  "span_path (SetStatusError t d) = span_path d" "span_error (SetStatusError t d) = Some t"
  "span_attributes (SetStatusError t d) = span_attributes d"
  "span_path (failed_span t e d) = span_path d" "span_error (failed_span t e d) = Some t"
  "span_attributes (failed_span t e d) = span_attributes d @ [(''error.message'', ErrorAttribute e)]"
  by (simp_all add: started_def SetAttributes_def SetStatusError_def failed_span_def)

text \<open>
  \<open>Middleware\<close>: the handler of \<open>otelhttp\<close> opens the span of the request, the wrapped function
  puts the tracer of that name into the context.
\<close>

definition tracer_Middleware ::
    "(go_context \<Rightarrow> span_data list option) \<Rightarrow> string \<Rightarrow> string \<Rightarrow> go_context \<Rightarrow> span_data list option" where
  "tracer_Middleware next_handler name operation ctx =
     (let ctx' = ctx\<lparr>ctx_span := ctx_span ctx @ [operation]\<rparr>
      in map_option (Cons (started (ctx_span ctx'))) (next_handler (tracer_NewContext ctx' (Some name))))"

end
