(* ===== verification/Startup.thy ===== *)
theory Startup
  imports Config Opentelemetry Store_Properties
begin

text \<open>
  The start of \<open>main.go\<close>: configuration, logger, tracer, cipher, back end, discovery, manager,
  each of which may end the process. The outcomes of third-party calls are arguments. What the
  other theories say of the constructors and of the key pairs is put together here.
\<close>

section \<open>Starting up\<close>

record startup_env =
  viper_bind :: "unit result"
  viper_unmarshal :: "config result"
  zap :: zap_lib
  jaeger_New :: "string \<Rightarrow> string \<Rightarrow> unit result"
  NewXChaCha20Cipher :: "string \<Rightarrow> string \<Rightarrow> cipher option \<times> go_error option"
  no_encryption_keys :: go_error
    \<comment> \<open>\<open>encryption.ErrNoEncryptionKeys\<close>\<close>
  db_open :: open_env
  discovery :: discovery_env

text \<open>The \<open>switch\<close> on the database type; without a match the error of the cipher is still there.\<close>

definition connect :: "startup_env \<Rightarrow> config \<Rightarrow> cipher option \<Rightarrow> go_error option \<Rightarrow> db_globals
    \<Rightarrow> (session_iface \<times> go_error option) \<times> db_globals" where
  "connect env c cipher err g =
     (if DBType c = ''sqlite'' then NewSQLiteSessionImpl (db_open env) cipher (DBName c) g
      else if DBType c = ''postgresql''
        then NewPostgresqlSessionImpl (db_open env) cipher (DBHost c) (DBName c) (DBUsername c) (DBPassword c) g
      else ((NilIface, err), g))"

definition session_configuration :: "config \<Rightarrow> session_iface \<Rightarrow> manager_config" where
  "session_configuration c iface =
     \<lparr>NewKeyPair = \<lparr>Authentication = SessionAuthSecret c, Encryption = SessionEncSecret c\<rparr>,
      OldKeyPair = \<lparr>Authentication = SessionOldAuthSecret c, Encryption = SessionOldEncSecret c\<rparr>,
      CookieNameOf = CookieName c, CookieDomainOf = CookieDomain c,
      LoginTimeout = 5 * minute, SessionTimeout = 30 * minute, SessionImpl = iface\<rparr>"

text \<open>What \<open>main\<close> has in its hands when all constructors have succeeded.\<close>

record started =
  st_config :: config
  st_logger :: zap_logger
  st_tracer :: tracer_provider
  st_manager :: manager_base
  st_iface :: session_iface
  st_oidc :: oidc_config

definition start :: "startup_env \<Rightarrow> db_globals \<Rightarrow> started result \<times> db_globals" where
  "start env g =
     (case LoadConfig (viper_bind env) (viper_unmarshal env) of
        Inl e \<Rightarrow> (Inl e, g)
      | Inr c \<Rightarrow>
     (case NewLogger (zap env) (LogLevel c) (IsProduction c) of
        Inl e \<Rightarrow> (Inl e, g)
      | Inr (zlog, _) \<Rightarrow>
     (case InitTracer (jaeger_New env) ''token-handler'' ''localhost'' ''6831'' initial_otel of
        (Inl e, _) \<Rightarrow> (Inl e, g)
      | (Inr tp, _) \<Rightarrow>
     (case NewXChaCha20Cipher env (SessionDBKey c) (SessionOldDBKey c) of
        (cipher, err) \<Rightarrow>
          if err \<noteq> None \<and> \<not> errors_is (the err) (no_encryption_keys env) then (Inl (the err), g)
          else
     (case connect env c cipher err g of
        ((iface, Some e), g') \<Rightarrow> (Inl e, g')
      | ((iface, None), g') \<Rightarrow>
     (case NewConfiguration (discovery env) (OidcClientID c) (OidcClientSecret c) (OidcIssuer c) (OidcRedirectURL c) of
        Inl e \<Rightarrow> (Inl e, g')
      | Inr oidcConfig \<Rightarrow>
     (case NewManager (session_configuration c iface) of
        Inl e \<Rightarrow> (Inl e, g')
      | Inr (m, i) \<Rightarrow>
          (Inr \<lparr>st_config = c, st_logger = zlog, st_tracer = tp, st_manager = m, st_iface = i, st_oidc = oidcConfig\<rparr>, g'))))))))"

section \<open>What a valid configuration is\<close>

definition present :: "config \<Rightarrow> bool" where
  "present c \<longleftrightarrow>
     list_all (\<lambda>f. f c \<noteq> [])
       [OidcIssuer, OidcClientID, OidcClientSecret, OidcRedirectURL, OidcPostLoginRedirectURL,
        OidcPostLogoutRedirectURL, ListenAddr, CookieDomain, CookieName, SessionAuthSecret]"

definition sized :: "nat set \<Rightarrow> string \<Rightarrow> bool" where
  "sized sizes s \<longleftrightarrow> s = [] \<or> length s \<in> sizes"

definition valid_config :: "config \<Rightarrow> bool" where
  "valid_config c \<longleftrightarrow>
     present c \<and>
     (IsProduction c \<longrightarrow> CookieDomain c \<noteq> defaultCookieDomain \<and> SessionAuthSecret c \<noteq> defaultSessionAuthSecret) \<and>
     length (SessionAuthSecret c) \<in> {32, 64} \<and> sized {16, 24, 32} (SessionEncSecret c) \<and>
     sized {32, 64} (SessionOldAuthSecret c) \<and> sized {16, 24, 32} (SessionOldEncSecret c) \<and>
     sized {32} (SessionDBKey c) \<and> sized {32} (SessionOldDBKey c) \<and>
     (DBType c = ''sqlite'' \<and> DBName c \<noteq> [] \<or>
      DBType c = ''postgresql'' \<and> DBHost c \<noteq> [] \<and> DBName c \<noteq> [] \<and> DBUsername c \<noteq> [] \<and> DBPassword c \<noteq> [])"

lemma first_error_None: "first_error es = None \<longleftrightarrow> list_all (\<lambda>e. e = None) es"
  by (induction es) (auto simp: first_error_def)

lemma validate_mandatory_None: "validate_mandatory c = None \<longleftrightarrow> present c"
  by (simp add: validate_mandatory_def present_def)

lemma validate_production_None:
  "validate_production c = None \<longleftrightarrow>
     (IsProduction c \<longrightarrow> CookieDomain c \<noteq> defaultCookieDomain \<and> SessionAuthSecret c \<noteq> defaultSessionAuthSecret)"
  by (auto simp: validate_production_def)

lemma validate_secrets_None:
  "validate_secrets c = None \<longleftrightarrow>
     length (SessionAuthSecret c) \<in> {32, 64} \<and> sized {16, 24, 32} (SessionEncSecret c) \<and>
     sized {32, 64} (SessionOldAuthSecret c) \<and> sized {16, 24, 32} (SessionOldEncSecret c) \<and>
     sized {32} (SessionDBKey c) \<and> sized {32} (SessionOldDBKey c)"
  unfolding validate_secrets_def Let_def sized_def
  by (simp only: if_split_eq1 option.distinct simp_thms insert_iff empty_iff de_Morgan_conj not_not) blast

lemma validate_database_None:
  "validate_database c = None \<longleftrightarrow>
     (DBType c = ''sqlite'' \<and> DBName c \<noteq> [] \<or>
      DBType c = ''postgresql'' \<and> DBHost c \<noteq> [] \<and> DBName c \<noteq> [] \<and> DBUsername c \<noteq> [] \<and> DBPassword c \<noteq> [])"
  by (auto simp: validate_database_def)

lemma configValidate_None: "snd (configValidate c) = None \<longleftrightarrow> valid_config c"
  by (simp add: configValidate_def first_error_None validate_mandatory_None validate_production_None
      validate_secrets_None validate_database_None valid_config_def)

lemma fst_configValidate [simp]: "fst (configValidate c) = c"
  by (simp add: configValidate_def)

section \<open>Key pairs\<close>

lemma keyPairsAsSlice_ok:
  assumes "auth_size_ok (NewKeyPair mc)" "enc_size_ok (NewKeyPair mc)"
    and "Authentication (OldKeyPair mc) \<noteq> [] \<Longrightarrow> auth_size_ok (OldKeyPair mc) \<and> enc_size_ok (OldKeyPair mc)"
  shows "\<exists>ks. keyPairsAsSlice mc = Inr ks"
proof -
  have "appendSlice mc [] ParseCurrent = Inr (slices_of (NewKeyPair mc))"
    using assms(1,2) by (simp add: appendSlice_Inr_iff key_pair_of_def)
  moreover have "appendSlice mc [] ParseOld = Inr (slices_of (OldKeyPair mc))" if "Authentication (OldKeyPair mc) \<noteq> []"
    using assms(3) that by (simp add: appendSlice_Inr_iff key_pair_of_def)
  ultimately show ?thesis by (simp add: keyPairsAsSlice_def)
qed

definition keys_of :: "config \<Rightarrow> key_config" where
  "keys_of c =
     \<lparr>NewKeyPair = \<lparr>Authentication = SessionAuthSecret c, Encryption = SessionEncSecret c\<rparr>,
      OldKeyPair = \<lparr>Authentication = SessionOldAuthSecret c, Encryption = SessionOldEncSecret c\<rparr>\<rparr>"

lemma NewManager_configuration:
  "NewManager (session_configuration c i) =
     (if i = NilIface then Inl (Wrapf ''%w: %s'' ErrNilValue [''Configuration.DB''])
      else and_then (keyPairsAsSlice (keys_of c)) (\<lambda>ks.
        Inr (\<lparr>m_cookieName = CookieName c, m_loginTimeout = 300, m_sessionTimeout = 30 * minute,
              m_store = \<lparr>key_slices = ks, store_options = manager_cookie_options (CookieDomain c)\<rparr>\<rparr>, i)))"
  by (simp add: NewManager_def session_configuration_def keys_of_def key_config.truncate_def go_div_def minute_def second_def)

lemma valid_keys:
  assumes "valid_config c" "length (SessionEncSecret c) \<noteq> 24"
    and "SessionOldAuthSecret c \<noteq> [] \<Longrightarrow> length (SessionOldEncSecret c) \<noteq> 24"
  shows "\<exists>ks. keyPairsAsSlice (keys_of c) = Inr ks"
  using assms by (intro keyPairsAsSlice_ok)
    (auto simp: valid_config_def sized_def keys_of_def auth_size_ok_def enc_size_ok_def)

text \<open>\<open>configValidate\<close> accepts encryption secrets of 16, 24 or 32 bytes, \<open>appendSlice\<close> 16, 32 or 64.\<close>

lemma enc_secret_of_24_bytes:
  assumes "valid_config c" "length (SessionEncSecret c) = 24" "iface \<noteq> NilIface"
  shows "NewManager (session_configuration c iface) =
    Inl (Wrapf ''%w: %s encryption key'' SessErrWrongEncSecretSize [''current''])"
proof -
  have "SessionEncSecret c \<noteq> []" using assms(2) by auto
  moreover have "SessionAuthSecret c \<noteq> []" "length (SessionAuthSecret c) = 32 \<or> length (SessionAuthSecret c) = 64"
    using assms(1) by (auto simp: valid_config_def present_def)
  ultimately have "keyPairsAsSlice (keys_of c) = Inl (Wrapf ''%w: %s encryption key'' SessErrWrongEncSecretSize [''current''])"
    using assms(2) by (auto simp: keyPairsAsSlice_def appendSlice_def keys_of_def Let_def)
  then show ?thesis using assms(3) by (simp add: NewManager_configuration)
qed

lemma LoadConfig_valid: "valid_config c \<Longrightarrow> LoadConfig (Inr ()) (Inr c) = Inr c"
  using configValidate_None [of c] fst_configValidate [of c] by (cases "configValidate c") (simp add: LoadConfig_def)

section \<open>Properties\<close>

text \<open>C31. The configuration is accepted if and only if it is valid: every mandatory parameter is given,
  production does not run on the defaults, each secret has one of its sizes, and the database
  type is one of the two with the parameters it needs. A rejected configuration comes back
  with the error, and an accepted one unchanged.\<close>

theorem config_accepted_iff:
  "(LoadConfig (Inr ()) (Inr c) = Inr c \<longleftrightarrow> valid_config c) \<and>
   (\<not> valid_config c \<longrightarrow> (\<exists>e. LoadConfig (Inr ()) (Inr c) = Inl e))"
proof (cases "snd (configValidate c)")
  case None
  then have "configValidate c = (c, None)" by (metis fst_configValidate prod.collapse)
  with configValidate_None [of c] show ?thesis by (simp add: LoadConfig_def)
next
  case (Some e)
  then have "configValidate c = (c, Some e)" by (metis fst_configValidate prod.collapse)
  with configValidate_None [of c] show ?thesis by (simp add: LoadConfig_def)
qed

definition ex_app_config :: "string \<Rightarrow> config" where
  "ex_app_config enc = default_config
     \<lparr>OidcIssuer := ''https://idp'', OidcClientID := ''app'', OidcClientSecret := ''secret'',
      OidcRedirectURL := ''https://app/callback'', OidcPostLoginRedirectURL := ''https://app/'',
      OidcPostLogoutRedirectURL := ''https://app/bye'', SessionEncSecret := enc, DBName := ''sessions.db''\<rparr>"

lemma ex_app_config_valid: "sized {16, 24, 32} enc \<Longrightarrow> valid_config (ex_app_config enc)"
  by (simp add: valid_config_def present_def sized_def ex_app_config_def default_config_def
      defaultCookieDomain_def defaultSessionAuthSecret_def)

theorem config_accepted_iff_witness:
  "LoadConfig (Inr ()) (Inr (ex_app_config [])) = Inr (ex_app_config []) \<and>
   (\<exists>e. LoadConfig (Inr ()) (Inr default_config) = Inl e)"
  using config_accepted_iff [of "ex_app_config []"] config_accepted_iff [of default_config]
    ex_app_config_valid [of "[]"]
  by (simp add: sized_def) (simp add: valid_config_def present_def default_config_def)

lemma LoadConfig_Inr_valid:
  assumes "LoadConfig b u = Inr c"
  shows "valid_config c"
proof -
  obtain c' where u: "b = Inr ()" "u = Inr c'"
    using assms by (cases b; cases u) (auto simp: LoadConfig_def and_then_def)
  obtain e where e: "configValidate c' = (c', e)" using fst_configValidate [of c'] by (metis prod.collapse)
  with assms u have "e = None" "c' = c" by (cases e; simp add: LoadConfig_def)+
  with e configValidate_None [of c] show ?thesis by simp
qed

lemma connect_first:
  assumes "connect env c k err initial_db_globals = ((iface, None), g)" "DBType c = ''sqlite'' \<or> DBType c = ''postgresql''"
  shows "\<exists>I. backend k I \<and> impl_of_iface iface = Some I"
  using assms by (auto simp: connect_def NewSQLiteSessionImpl_def NewPostgresqlSessionImpl_def initial_db_globals_def Let_def
      split: sum.splits)

text \<open>A first start that succeeded.\<close>

lemma start_Inr:
  assumes "start env initial_db_globals = (Inr x, g)"
  shows "valid_config (st_config x)"
    "NewManager (session_configuration (st_config x) (st_iface x)) = Inr (st_manager x, st_iface x)"
    "\<exists>I. backend (fst (NewXChaCha20Cipher env (SessionDBKey (st_config x)) (SessionOldDBKey (st_config x)))) I \<and>
       impl_of_iface (st_iface x) = Some I"
    "issuer (st_oidc x) = OidcIssuer (st_config x)" "ClientID (st_oidc x) = OidcClientID (st_config x)"
proof -
  obtain c where c: "LoadConfig (viper_bind env) (viper_unmarshal env) = Inr c"
    using assms by (cases "LoadConfig (viper_bind env) (viper_unmarshal env)") (simp_all add: start_def)
  obtain k err where k: "NewXChaCha20Cipher env (SessionDBKey c) (SessionOldDBKey c) = (k, err)" by fastforce
  from c k assms obtain iface g' m i oc where
    conn: "connect env c k err initial_db_globals = ((iface, None), g')"
    and m: "NewManager (session_configuration c iface) = Inr (m, i)"
    and oc: "NewConfiguration (discovery env) (OidcClientID c) (OidcClientSecret c) (OidcIssuer c) (OidcRedirectURL c) = Inr oc"
    and x: "st_config x = c" "st_manager x = m" "st_iface x = i" "st_oidc x = oc"
    by (auto simp: start_def split: sum.splits prod.splits option.splits if_splits)
  from m have i: "i = iface" by (auto simp: NewManager_configuration and_then_Inr_iff split: if_splits)
  show v: "valid_config (st_config x)" using LoadConfig_Inr_valid [OF c] x by simp
  then have "DBType c = ''sqlite'' \<or> DBType c = ''postgresql''" using x by (auto simp: valid_config_def)
  from connect_first [OF conn this] show "\<exists>I. backend (fst (NewXChaCha20Cipher env (SessionDBKey (st_config x)) (SessionOldDBKey (st_config x)))) I \<and>
       impl_of_iface (st_iface x) = Some I"
    using x i k by simp
  show "NewManager (session_configuration (st_config x) (st_iface x)) = Inr (st_manager x, st_iface x)"
    using m x i by simp
  have "issuer oc = OidcIssuer c" "ClientID oc = OidcClientID c"
    using oc by (auto simp: NewConfiguration_def and_then_Inr_iff)
  with x show "issuer (st_oidc x) = OidcIssuer (st_config x)" "ClientID (st_oidc x) = OidcClientID (st_config x)" by simp_all
qed

lemma start_valid:
  assumes "viper_bind env = Inr ()" "viper_unmarshal env = Inr c" "valid_config c"
    and "level_Set (zap env) (LogLevel c) = Inr l" "jaeger_New env ''localhost'' ''6831'' = Inr ()"
    and "NewXChaCha20Cipher env (SessionDBKey c) (SessionOldDBKey c) = (k, err)"
    and "err = None \<or> err = Some (no_encryption_keys env)"
    and "\<And>dsn. open_result (db_open env) dsn = Inr ()" "\<And>dsn. create_result (db_open env) dsn = Inr ()"
    and "NewConfiguration (discovery env) (OidcClientID c) (OidcClientSecret c) (OidcIssuer c) (OidcRedirectURL c) = Inr oc"
  shows "(length (SessionEncSecret c) \<noteq> 24 \<and> length (SessionOldEncSecret c) \<noteq> 24 \<longrightarrow>
      (\<exists>x g. start env initial_db_globals = (Inr x, g) \<and> st_config x = c \<and> st_oidc x = oc \<and> zap_level (st_logger x) = l \<and>
        impl_of_iface (st_iface x) = Some (if DBType c = ''sqlite'' then sqlite_impl k else postgresql_impl k) \<and>
        m_cookieName (st_manager x) = CookieName c \<and> m_loginTimeout (st_manager x) = 300 \<and>
        m_sessionTimeout (st_manager x) = 30 * minute)) \<and>
    (length (SessionEncSecret c) = 24 \<longrightarrow>
      fst (start env initial_db_globals) = Inl (Wrapf ''%w: %s encryption key'' SessErrWrongEncSecretSize [''current'']))"
proof -
  have db: "DBType c = ''sqlite'' \<or> DBType c = ''postgresql''"
    using assms(3) by (auto simp: valid_config_def)
  obtain iface g where conn: "connect env c k err initial_db_globals = ((iface, None), g)" "iface \<noteq> NilIface"
      "impl_of_iface iface = Some (if DBType c = ''sqlite'' then sqlite_impl k else postgresql_impl k)"
    using db assms(8,9)
    by (auto simp: connect_def NewSQLiteSessionImpl_def NewPostgresqlSessionImpl_def initial_db_globals_def Let_def)
  obtain z where z: "NewLogger (zap env) (LogLevel c) (IsProduction c) = Inr (z, new_logger)" "zap_level z = l"
    using assms(4) by (simp add: NewLogger_def Let_def)
  obtain tp otel where tp: "InitTracer (jaeger_New env) ''token-handler'' ''localhost'' ''6831'' initial_otel = (Inr tp, otel)"
    using assms(5) by (simp add: InitTracer_def Let_def)
  have err: "\<not> (err \<noteq> None \<and> \<not> errors_is (the err) (no_encryption_keys env))" using assms(7) by auto
  have run: "start env initial_db_globals =
      (case NewManager (session_configuration c iface) of
         Inl e \<Rightarrow> (Inl e, g)
       | Inr (m, i) \<Rightarrow> (Inr \<lparr>st_config = c, st_logger = z, st_tracer = tp, st_manager = m, st_iface = i, st_oidc = oc\<rparr>, g))"
    unfolding start_def
    by (simp only: assms(1,2,6,10) LoadConfig_valid [OF assms(3)] z(1) tp sum.case prod.case option.case err if_False conn(1))
  show ?thesis
  proof (intro conjI impI)
    assume "length (SessionEncSecret c) \<noteq> 24 \<and> length (SessionOldEncSecret c) \<noteq> 24"
    then obtain ks where "keyPairsAsSlice (keys_of c) = Inr ks" using valid_keys [OF assms(3)] by blast
    then show "\<exists>x g. start env initial_db_globals = (Inr x, g) \<and> st_config x = c \<and> st_oidc x = oc \<and> zap_level (st_logger x) = l \<and>
        impl_of_iface (st_iface x) = Some (if DBType c = ''sqlite'' then sqlite_impl k else postgresql_impl k) \<and>
        m_cookieName (st_manager x) = CookieName c \<and> m_loginTimeout (st_manager x) = 300 \<and>
        m_sessionTimeout (st_manager x) = 30 * minute"
      using run conn z(2) by (simp add: NewManager_configuration)
  next
    assume "length (SessionEncSecret c) = 24"
    then show "fst (start env initial_db_globals) = Inl (Wrapf ''%w: %s encryption key'' SessErrWrongEncSecretSize [''current''])"
      using run enc_secret_of_24_bytes [OF assms(3) _ conn(2)] by simp
  qed
qed

text \<open>C30. A valid configuration starts, with one exception: on a first start, when its log level is one,
  the tracer, the database and the discovery come up and the cipher is made (or no database key
  is configured), \<open>main\<close> gets a manager on the back end the configuration names, with that
  cipher, and a logger of that level. The exception is an encryption secret of 24 bytes, which the validation lets
  through and the manager refuses.\<close>

theorem valid_config_starts:
  assumes "viper_bind env = Inr ()" "viper_unmarshal env = Inr c" "valid_config c"
    and "level_Set (zap env) (LogLevel c) = Inr l" "jaeger_New env ''localhost'' ''6831'' = Inr ()"
    and "NewXChaCha20Cipher env (SessionDBKey c) (SessionOldDBKey c) = (k, err)"
    and "err = None \<or> err = Some (no_encryption_keys env)"
    and "\<And>dsn. open_result (db_open env) dsn = Inr ()" "\<And>dsn. create_result (db_open env) dsn = Inr ()"
    and "NewConfiguration (discovery env) (OidcClientID c) (OidcClientSecret c) (OidcIssuer c) (OidcRedirectURL c) = Inr oc"
  shows "(length (SessionEncSecret c) \<noteq> 24 \<and> length (SessionOldEncSecret c) \<noteq> 24 \<longrightarrow>
      (\<exists>x g. start env initial_db_globals = (Inr x, g) \<and> st_config x = c \<and> st_oidc x = oc \<and> zap_level (st_logger x) = l \<and>
        impl_of_iface (st_iface x) = Some (if DBType c = ''sqlite'' then sqlite_impl k else postgresql_impl k) \<and>
        m_cookieName (st_manager x) = CookieName c \<and> m_loginTimeout (st_manager x) = 300 \<and>
        m_sessionTimeout (st_manager x) = 30 * minute)) \<and>
    (length (SessionEncSecret c) = 24 \<longrightarrow>
      fst (start env initial_db_globals) = Inl (Wrapf ''%w: %s encryption key'' SessErrWrongEncSecretSize [''current'']))"
  using start_valid [OF assms] by blast

definition ex_startup :: "string \<Rightarrow> startup_env" where
  "ex_startup enc =
     \<lparr>viper_bind = Inr (), viper_unmarshal = Inr (ex_app_config enc), zap = ex_zap, jaeger_New = (\<lambda>_ _. Inr ()),
      NewXChaCha20Cipher = (\<lambda>new old. (None, Some (ErrVar ''encryption.ErrNoEncryptionKeys'' ''no keys''))),
      no_encryption_keys = ErrVar ''encryption.ErrNoEncryptionKeys'' ''no keys'',
      db_open = \<lparr>open_result = (\<lambda>_. Inr ()), create_result = (\<lambda>_. Inr ())\<rparr>,
      discovery = \<lparr>http_get = (\<lambda>_. Inr ''{}''), decode_endpoints = (\<lambda>_. Inr (OidcEndpoints ex_config))\<rparr>\<rparr>"

lemma ex_discovery:
  "\<exists>oc. NewConfiguration (discovery (ex_startup enc)) (OidcClientID c) (OidcClientSecret c) (OidcIssuer c) (OidcRedirectURL c) = Inr oc"
  by (simp add: ex_startup_def NewConfiguration_def getOidcEndpoints_def)

theorem valid_config_starts_witness:
  "(\<exists>x g. start (ex_startup []) initial_db_globals = (Inr x, g) \<and> impl_of_iface (st_iface x) = Some (sqlite_impl None)) \<and>
   isl (fst (start (ex_startup (replicate 24 CHR ''k'')) initial_db_globals))"
proof -
  have run: "(length (SessionEncSecret (ex_app_config enc)) \<noteq> 24 \<and> length (SessionOldEncSecret (ex_app_config enc)) \<noteq> 24 \<longrightarrow>
      (\<exists>x g. start (ex_startup enc) initial_db_globals = (Inr x, g) \<and>
        impl_of_iface (st_iface x) = Some (if DBType (ex_app_config enc) = ''sqlite'' then sqlite_impl None else postgresql_impl None))) \<and>
    (length (SessionEncSecret (ex_app_config enc)) = 24 \<longrightarrow> isl (fst (start (ex_startup enc) initial_db_globals)))"
    if "sized {16, 24, 32} enc" for enc
  proof -
    obtain oc where oc: "NewConfiguration (discovery (ex_startup enc)) (OidcClientID (ex_app_config enc)) (OidcClientSecret (ex_app_config enc))
        (OidcIssuer (ex_app_config enc)) (OidcRedirectURL (ex_app_config enc)) = Inr oc" using ex_discovery by blast
    have lvl: "level_Set (zap (ex_startup enc)) (LogLevel (ex_app_config enc)) = Inr Info"
      by (simp add: ex_startup_def ex_zap_def ex_app_config_def default_config_def Let_def)
    have "viper_bind (ex_startup enc) = Inr ()" "viper_unmarshal (ex_startup enc) = Inr (ex_app_config enc)"
      "jaeger_New (ex_startup enc) ''localhost'' ''6831'' = Inr ()"
      "NewXChaCha20Cipher (ex_startup enc) a b = (None, Some (no_encryption_keys (ex_startup enc)))"
      "open_result (db_open (ex_startup enc)) dsn = Inr ()" "create_result (db_open (ex_startup enc)) dsn = Inr ()" for a b dsn
      by (simp_all add: ex_startup_def)
    note hyps = this
    show ?thesis
      using valid_config_starts [OF hyps(1,2) ex_app_config_valid [OF that] lvl hyps(3,4) _ hyps(5,6) oc] by fastforce
  qed
  have "DBType (ex_app_config []) = ''sqlite''" "SessionEncSecret (ex_app_config enc) = enc"
      "SessionOldEncSecret (ex_app_config []) = []" for enc
    by (simp_all add: ex_app_config_def default_config_def)
  with run [of "[]"] run [of "replicate 24 CHR ''k''"] show ?thesis by (simp add: sized_def)
qed

text \<open>Key rotation does not work: once an old key pair is configured, the cookie store gets the old
  pair only. The new keys are checked and then dropped, so cookies go on being made with the
  old keys.\<close>

lemma old_keys_replace_new:
  assumes "keyPairsAsSlice mc = Inr ks" "Authentication (NewKeyPair mc) \<noteq> []"
  shows "ks = slices_of (if Authentication (OldKeyPair mc) = [] then NewKeyPair mc else OldKeyPair mc)"
  using assms by (auto simp: keyPairsAsSlice_def and_then_Inr_iff appendSlice_Inr_iff key_pair_of_def split: if_splits)

definition lower_char :: "char \<Rightarrow> char" where
  "lower_char c = (if 65 \<le> (of_char c :: nat) \<and> (of_char c :: nat) \<le> 90 then char_of (of_char c + 32 :: nat) else c)"

lemma flags_have_dash: "list_all (\<lambda>f. CHR ''-'' \<in> set f) flag_names"
  by (simp add: flag_names_def)

lemma keys_have_no_dash: "list_all (\<lambda>k. CHR ''-'' \<notin> set k) config_keys"
  by (simp add: config_keys_def)

lemma lower_char_dash: "lower_char c = CHR ''-'' \<longleftrightarrow> c = CHR ''-''"
proof (cases "65 \<le> (of_char c :: nat) \<and> (of_char c :: nat) \<le> 90")
  case True
  then have "(of_char (lower_char c) :: nat) = of_char c + 32" by (simp add: lower_char_def)
  with True have "(of_char (lower_char c) :: nat) \<noteq> of_char (CHR ''-'')" by simp
  moreover have "(of_char c :: nat) \<noteq> of_char (CHR ''-'')" using True by simp
  ultimately show ?thesis by metis
next
  case False
  then show ?thesis by (simp only: lower_char_def if_False)
qed

text \<open>The command line flags do not reach the configuration: flags are bound under their own names,
  and no flag name is the key of a field, in upper or lower case, since all flag names have a
  dash where the keys have an underscore.\<close>

lemma flags_bind_to_nothing:
  assumes "f \<in> set flag_names" "k \<in> set config_keys"
  shows "map lower_char f \<noteq> map lower_char k"
proof -
  have "CHR ''-'' \<in> set f" "CHR ''-'' \<notin> set k"
    using flags_have_dash keys_have_no_dash assms by (auto simp: list_all_iff)
  moreover have "CHR ''-'' \<in> set (map lower_char s) \<longleftrightarrow> CHR ''-'' \<in> set s" for s
    using lower_char_dash by (auto simp: image_iff eq_commute [of "CHR ''-''"])
  ultimately show ?thesis by metis
qed

text \<open>After a failed first attempt to open the database, the next call of the constructor reports
  success and hands out an interface around a nil pointer: \<open>NewManager\<close>, which tests the
  interface for nil, accepts it, and every later use of the manager's back end would
  dereference nil.\<close>

lemma failed_open_is_forgotten:
  assumes "open_result env ( ''file:'' @ file) = Inl e"
    and "NewSQLiteSessionImpl env c file initial_db_globals = (res1, g1)"
    and "NewSQLiteSessionImpl env' c' file' g1 = ((iface, err), g2)"
    and "valid_config cfg" "length (SessionEncSecret cfg) \<noteq> 24" "length (SessionOldEncSecret cfg) \<noteq> 24"
  shows "res1 = (NilIface, Some e) \<and> err = None \<and> impl_of_iface iface = None \<and>
    (\<exists>m. NewManager (session_configuration cfg iface) = Inr (m, iface) \<and> manager_of (m, iface) = None)"
proof -
  have 1: "res1 = (NilIface, Some e)" "g1 = initial_db_globals\<lparr>sqliteOnce := True\<rparr>"
    using assms(1,2) by (simp_all add: NewSQLiteSessionImpl_def initial_db_globals_def Let_def)
  then have 2: "iface = SqliteIface None" "err = None"
    using assms(3) NewSQLiteSessionImpl_again [of g1 env' c' file'] by (simp_all add: initial_db_globals_def)
  obtain ks where "keyPairsAsSlice (keys_of cfg) = Inr ks"
    using valid_keys [OF assms(4,5)] assms(6) by blast
  then show ?thesis using 1 2 by (simp add: NewManager_configuration manager_of_def)
qed

end
