(* ===== verification/Go_Path.thy ===== *)
theory Go_Path
  imports Go_Query
begin

text \<open>
  Paths of URLs as \<open>http.ServeMux\<close> (Go 1.20) treats them before it looks for a handler: \<open>path.Clean\<close>
  and \<open>cleanPath\<close>, the escaping of a path when a URL is printed, and the host without its port.
\<close>

section \<open>path.Clean of a rooted path\<close>

text \<open>Empty elements and \<open>.\<close> are dropped, \<open>..\<close> takes the element before it away.\<close>

definition path_push :: "string \<Rightarrow> string list \<Rightarrow> string list" where
  "path_push e stack =
     (if e = [] \<or> e = ''.'' then stack
      else if e = ''..'' then tl stack
      else e # stack)"

definition path_elements :: "string \<Rightarrow> string list" where
  "path_elements p = rev (fold path_push (split_on (CHR ''/'') p) [])"

fun rooted :: "string list \<Rightarrow> string" where
  "rooted [] = ''/''"
| "rooted [e] = CHR ''/'' # e"
| "rooted (e # es) = CHR ''/'' # e @ rooted es"

definition path_Clean :: "string \<Rightarrow> string" where
  "path_Clean p = rooted (path_elements p)"

text \<open>\<open>cleanPath\<close> of \<open>net/http\<close> roots the path first and keeps a slash at its end.\<close>

definition clean_path :: "string \<Rightarrow> string" where
  "clean_path p =
     (if p = [] then ''/''
      else let p' = (if hd p = CHR ''/'' then p else CHR ''/'' # p); np = path_Clean p'
           in if last p' = CHR ''/'' \<and> np \<noteq> ''/'' then np @ ''/'' else np)"

section \<open>Printing a path\<close>

text \<open>\<open>url.URL.String\<close> of a URL with a path and a query only; \<open>?\<close> and all that is not allowed in a path is escaped.\<close>

definition escape_path_char :: "char \<Rightarrow> string" where
  "escape_path_char c =
     (if unreserved c \<or> c \<in> set ''$&+,/:;=@'' then [c]
      else [CHR ''%'', upper_hex ! (of_char c div 16), upper_hex ! (of_char c mod 16)])"

definition escape_path :: "string \<Rightarrow> string" where
  "escape_path p = concat (map escape_path_char p)"

definition path_and_query :: "string \<Rightarrow> string \<Rightarrow> string" where
  "path_and_query p query = escape_path p @ (if query = [] then [] else CHR ''?'' # query)"

text \<open>The path of a request as the server reads it from the request line: \<open>unescape\<close> in the mode of a path.\<close>

fun path_unescape :: "string \<Rightarrow> string option" where
  "path_unescape [] = Some []"
| "path_unescape (c # s) =
     (if c = CHR ''%'' then
        (case s of
           a # b # rest \<Rightarrow>
             (case (unhex a, unhex b) of
                (Some h, Some l) \<Rightarrow> map_option ((#) (char_of (h * 16 + l))) (path_unescape rest)
              | _ \<Rightarrow> None)
         | _ \<Rightarrow> None)
      else map_option ((#) c) (path_unescape s))"

section \<open>The host without its port\<close>

text \<open>\<open>net.SplitHostPort\<close>; \<open>None\<close> where it returns an error.\<close>

definition split_host_port :: "string \<Rightarrow> string option" where
  "split_host_port h =
     (if CHR '':'' \<notin> set h then None
      else let before_last = rev (tl (dropWhile (\<lambda>c. c \<noteq> CHR '':'') (rev h)))
           in if hd h = CHR ''['' then
                (let inside = takeWhile (\<lambda>c. c \<noteq> CHR '']'') (tl h); outside = drop (length inside + 2) h
                 in if CHR '']'' \<notin> set h \<or> before_last \<noteq> CHR ''['' # inside @ '']'' \<or> CHR ''['' \<in> set (inside @ outside)
                       \<or> CHR '']'' \<in> set outside
                    then None else Some inside)
              else if CHR '':'' \<in> set before_last \<or> CHR ''['' \<in> set h \<or> CHR '']'' \<in> set h then None
              else Some before_last)"

definition strip_host_port :: "string \<Rightarrow> string" where
  "strip_host_port h = (case split_host_port h of None \<Rightarrow> h | Some host \<Rightarrow> host)"

section \<open>Cleaning twice\<close>

definition plain_element :: "string \<Rightarrow> bool" where
  "plain_element e \<longleftrightarrow> e \<noteq> [] \<and> e \<noteq> ''.'' \<and> e \<noteq> ''..'' \<and> CHR ''/'' \<notin> set e"

lemma split_on_nonempty [simp]: "split_on sep p \<noteq> []"
  by (cases p) (auto split: list.splits)

lemma split_on_no_sep: "e \<in> set (split_on sep p) \<Longrightarrow> sep \<notin> set e"
  by (induction p arbitrary: e) (auto split: if_splits list.splits)

lemma fold_path_push:
  assumes "\<And>e. e \<in> set es \<Longrightarrow> CHR ''/'' \<notin> set e" "list_all plain_element stack"
  shows "list_all plain_element (fold path_push es stack)"
  using assms
proof (induction es arbitrary: stack)
  case (Cons e es)
  have "list_all plain_element (path_push e stack)"
    using Cons.prems by (cases stack) (simp_all add: path_push_def, simp_all add: plain_element_def)
  with Cons show ?case by simp
qed simp

lemma path_elements_plain: "list_all plain_element (path_elements p)"
  using fold_path_push [of "split_on (CHR ''/'') p" "[]"] split_on_no_sep [of _ "CHR ''/''" p]
  by (auto simp: path_elements_def list_all_iff)

lemma fold_path_push_plain: "list_all plain_element es \<Longrightarrow> fold path_push es stack = rev es @ stack"
  by (induction es arbitrary: stack) (auto simp: path_push_def plain_element_def)

lemma rooted_Cons: "es \<noteq> [] \<Longrightarrow> rooted (e # es) = CHR ''/'' # e @ rooted es"
  by (cases es) auto

lemma rooted_hd: "\<exists>q. rooted es = CHR ''/'' # q"
  by (cases es rule: rooted.cases) auto

lemma split_rooted: "es \<noteq> [] \<Longrightarrow> list_all plain_element es \<Longrightarrow> split_on (CHR ''/'') (rooted es @ t) =
    (case split_on (CHR ''/'') t of u # us \<Rightarrow> [] # butlast es @ [last es @ u] @ us | [] \<Rightarrow> [])"
proof (induction es rule: rooted.induct)
  case (2 e)
  have "split_on (CHR ''/'') (e @ t) = (case split_on (CHR ''/'') t of u # us \<Rightarrow> (e @ u) # us | [] \<Rightarrow> [])"
    if "CHR ''/'' \<notin> set e" for e
    using that by (induction e) (auto split: list.splits)
  with 2 show ?case by (auto simp: plain_element_def split: list.splits)
next
  case (3 e e' es)
  have "split_on (CHR ''/'') (e @ CHR ''/'' # x) = e # split_on (CHR ''/'') x" for x
    using 3(3) by (intro split_on_append) (simp add: plain_element_def)
  moreover obtain q where q: "rooted (e' # es) @ t = CHR ''/'' # q" using rooted_hd by (metis append_Cons)
  ultimately show ?case using 3 by (auto split: list.splits)
qed simp

text \<open>The elements of what has been put together are the elements it was put together from.\<close>

lemma path_elements_rooted:
  assumes "list_all plain_element es"
  shows "path_elements (rooted es) = es" and "path_elements (rooted es @ ''/'') = es"
proof -
  have "fold path_push (split_on (CHR ''/'') (rooted es)) [] = rev es \<and>
      fold path_push (split_on (CHR ''/'') (rooted es @ ''/'')) [] = rev es"
  proof (cases "es = []")
    case True
    then show ?thesis by (simp add: path_push_def)
  next
    case False
    then have "split_on (CHR ''/'') (rooted es) = [] # es" "split_on (CHR ''/'') (rooted es @ ''/'') = ([] # es) @ [[]]"
      using split_rooted [OF False assms, of "[]"] split_rooted [OF False assms, of "''/''"] by simp_all
    then show ?thesis using fold_path_push_plain [OF assms, of "[]"] by (simp add: path_push_def)
  qed
  then show "path_elements (rooted es) = es" "path_elements (rooted es @ ''/'') = es"
    by (simp_all add: path_elements_def)
qed

lemma last_rooted: "list_all plain_element es \<Longrightarrow> es \<noteq> [] \<Longrightarrow> last (rooted es) \<noteq> CHR ''/''"
proof (induction es rule: rooted.induct)
  case (2 e)
  then show ?case by (auto simp: plain_element_def dest: last_in_set)
next
  case (3 e e' es)
  moreover have "rooted (e' # es) \<noteq> []" using rooted_hd [of "e' # es"] by auto
  ultimately show ?case by simp
qed simp

text \<open>A clean path: its elements, with or without a slash at the end.\<close>

lemma clean_path_shape:
  obtains es where "list_all plain_element es" "clean_path p = rooted es \<or> es \<noteq> [] \<and> clean_path p = rooted es @ ''/''"
proof (cases "p = []")
  case True
  then show thesis by (intro that [of "[]"]) (simp_all add: clean_path_def)
next
  case False
  define es where "es = path_elements (if hd p = CHR ''/'' then p else CHR ''/'' # p)"
  have "clean_path p = rooted es \<or> rooted es \<noteq> ''/'' \<and> clean_path p = rooted es @ ''/''"
    using False by (auto simp: clean_path_def path_Clean_def Let_def es_def)
  then show thesis
    using path_elements_plain by (intro that [of es]) (auto simp: es_def)
qed

lemma clean_rooted:
  assumes "list_all plain_element es"
  shows "clean_path (rooted es) = rooted es" and "es \<noteq> [] \<Longrightarrow> clean_path (rooted es @ ''/'') = rooted es @ ''/''"
proof -
  obtain q where q: "rooted es = CHR ''/'' # q" using rooted_hd by blast
  then have "hd (rooted es) = CHR ''/''" "rooted es \<noteq> []" by simp_all
  then show "clean_path (rooted es) = rooted es"
    using last_rooted [OF assms] path_elements_rooted [OF assms] by (cases "es = []") (auto simp: clean_path_def path_Clean_def Let_def)
  assume "es \<noteq> []"
  moreover have "rooted es \<noteq> ''/''" using last_rooted [OF assms \<open>es \<noteq> []\<close>] by auto
  ultimately show "clean_path (rooted es @ ''/'') = rooted es @ ''/''"
    using \<open>hd (rooted es) = CHR ''/''\<close> \<open>rooted es \<noteq> []\<close>
    by (simp add: clean_path_def path_Clean_def Let_def path_elements_rooted(2) [OF assms])
qed

lemma clean_path_idem [simp]: "clean_path (clean_path p) = clean_path p"
  by (rule clean_path_shape [of p]) (auto simp: clean_rooted)

lemma clean_path_slash:
  assumes "clean_path p = p" "last p \<noteq> CHR ''/''"
  shows "clean_path (p @ ''/'') = p @ ''/''"
proof (rule clean_path_shape [of p])
  fix es assume es: "list_all plain_element es" "clean_path p = rooted es \<or> es \<noteq> [] \<and> clean_path p = rooted es @ ''/''"
  with assms have "p = rooted es" "es \<noteq> []" by auto
  with clean_rooted(2) [OF es(1)] show ?thesis by simp
qed

lemma clean_path_hd: "\<exists>q. clean_path p = CHR ''/'' # q"
proof (rule clean_path_shape [of p])
  fix es assume "list_all plain_element es" "clean_path p = rooted es \<or> es \<noteq> [] \<and> clean_path p = rooted es @ ''/''"
  moreover obtain q where "rooted es = CHR ''/'' # q" using rooted_hd by blast
  ultimately show ?thesis by auto
qed

text \<open>No element of a clean path climbs or stands still.\<close>

lemma clean_path_elements: "e \<in> set (split_on (CHR ''/'') (clean_path p)) \<Longrightarrow> e \<noteq> ''..'' \<and> e \<noteq> ''.''"
proof (rule clean_path_shape [of p])
  fix es assume es: "list_all plain_element es" "clean_path p = rooted es \<or> es \<noteq> [] \<and> clean_path p = rooted es @ ''/''"
    and e: "e \<in> set (split_on (CHR ''/'') (clean_path p))"
  show ?thesis
  proof (cases "es = []")
    case True
    with es(2) e show ?thesis by auto
  next
    case False
    have "set (split_on (CHR ''/'') (clean_path p)) \<subseteq> insert [] (set es)"
      using es(2) split_rooted [OF False es(1), of "[]"] split_rooted [OF False es(1), of "''/''"] False
      by (auto dest: in_set_butlastD)
    with e es(1) show ?thesis by (auto simp: list_all_iff plain_element_def)
  qed
qed

section \<open>Escaping and reading back\<close>

lemma path_unescape_escape_char: "path_unescape (escape_path_char c @ s) = map_option ((#) c) (path_unescape s)"
proof -
  have "of_char c div 16 * 16 + of_char c mod 16 = (of_char c :: nat)" by simp
  then show ?thesis by (auto simp: escape_path_char_def)
qed

lemma path_unescape_escape: "path_unescape (escape_path p) = Some p"
  by (induction p) (simp_all add: escape_path_def path_unescape_escape_char)

lemma escape_path_no_query: "CHR ''?'' \<notin> set (escape_path p)"
proof -
  have q: "c \<noteq> CHR ''?''" if "unreserved c" for c
    using that by (auto simp: unreserved_def)
  then have "upper_hex ! n \<noteq> CHR ''?''" if "n < 16" for n
    using that by simp
  then have "CHR ''?'' \<notin> set (escape_path_char c)" for c
    using q [of c] by (auto simp: escape_path_char_def dest: sym)
  then show ?thesis by (auto simp: escape_path_def)
qed

lemma path_and_query_read:
  "path_unescape (before (CHR ''?'') (path_and_query p q)) = Some p"
  "after (CHR ''?'') (path_and_query p q) = q"
proof -
  have "before (CHR ''?'') (path_and_query p q) = escape_path p \<and> after (CHR ''?'') (path_and_query p q) = q"
  proof (cases "q = []")
    case True
    have "\<forall>c\<in>set (escape_path p). c \<noteq> CHR ''?''" using escape_path_no_query [of p] by blast
    then have "takeWhile (\<lambda>c. c \<noteq> CHR ''?'') (escape_path p) = escape_path p" "dropWhile (\<lambda>c. c \<noteq> CHR ''?'') (escape_path p) = []"
      by (simp_all add: takeWhile_eq_all_conv dropWhile_eq_Nil_conv)
    with True show ?thesis by (simp add: path_and_query_def before_def after_def del: dropWhile_eq_Nil_conv)
  next
    case False
    with escape_path_no_query [of p] show ?thesis by (simp add: path_and_query_def before_append after_append)
  qed
  then show "path_unescape (before (CHR ''?'') (path_and_query p q)) = Some p" "after (CHR ''?'') (path_and_query p q) = q"
    by (simp_all add: path_unescape_escape)
qed

end
