(* ===== verification/Routes.thy ===== *)
theory Routes
  imports Proxy Go_Path
begin

text \<open>
  The routes of \<open>main.go\<close> on an \<open>http.ServeMux\<close> (Go 1.20): the four handlers of the package
  \<open>sessions\<close>, one authenticated proxy for each endpoint of the proxy configuration, and the root
  handler. \<open>opentelemetry.Middleware\<close>, wrapped around every one of them, puts a tracer into the
  context and calls the handler; it is left out here and modelled in \<open>Tracing\<close>. The mux itself answers with a
  redirect where the path is not clean, or where only the subtree of the path is registered.
\<close>

section \<open>ServeMux\<close>

datatype route =
    LoginRoute
  | CallbackRoute
  | LogoutRoute
  | UserinfoRoute
  | ProxyRoute url
  | RootRoute

type_synonym mux = "(string \<times> route) list"

text \<open>\<open>mux.Handle\<close> panics on an empty pattern and on one that is registered already.\<close>

definition mux_handle :: "string \<Rightarrow> route \<Rightarrow> mux \<Rightarrow> mux option" where
  "mux_handle pattern h t =
     (if pattern = [] \<or> pattern \<in> fst ` set t then None else Some (t @ [(pattern, h)]))"

fun mux_handle_all :: "(string \<times> route) list \<Rightarrow> mux \<Rightarrow> mux option" where
  "mux_handle_all [] t = Some t"
| "mux_handle_all ((p, h) # phs) t =
     (case mux_handle p h t of None \<Rightarrow> None | Some t' \<Rightarrow> mux_handle_all phs t')"

text \<open>An exact match first, then the longest registered subtree the path lies in.\<close>

definition subtrees :: "mux \<Rightarrow> mux" where
  "subtrees t = sort_key (\<lambda>e. - int (length (fst e))) (filter (\<lambda>e. fst e \<noteq> [] \<and> last (fst e) = CHR ''/'') t)"

definition starts_with :: "string \<Rightarrow> string \<Rightarrow> bool" where
  "starts_with p s \<longleftrightarrow> take (length p) s = p"

definition mux_match :: "mux \<Rightarrow> string \<Rightarrow> route option" where
  "mux_match t path =
     (case map_of t path of
        Some h \<Rightarrow> Some h
      | None \<Rightarrow> map_option snd (List.find (\<lambda>e. starts_with (fst e) path) (subtrees t)))"

text \<open>Patterns that do not start with a slash are for one host; they take precedence.\<close>

definition mux_handler :: "mux \<Rightarrow> string \<Rightarrow> string \<Rightarrow> route option" where
  "mux_handler t host path =
     (case (if list_ex (\<lambda>e. hd (fst e) \<noteq> CHR ''/'') t then mux_match t (host @ path) else None) of
        Some h \<Rightarrow> Some h
      | None \<Rightarrow> mux_match t path)"

text \<open>
  \<open>ServeMux.Handler\<close>. A path that is not registered while the same path with a slash is, is sent there;
  a path that is not clean is sent to the clean one. The path and host of a \<open>CONNECT\<close> request are
  taken as they come. \<open>http.Redirect\<close>, which writes the answer, cleans the path once more.
\<close>

datatype mux_reply = Redirect string | Dispatch "route option"

definition should_redirect :: "mux \<Rightarrow> string \<Rightarrow> string \<Rightarrow> bool" where
  "should_redirect t host path \<longleftrightarrow>
     path \<notin> fst ` set t \<and> host @ path \<notin> fst ` set t \<and> path \<noteq> [] \<and>
     (path @ ''/'' \<in> fst ` set t \<or> host @ path @ ''/'' \<in> fst ` set t) \<and> last path \<noteq> CHR ''/''"

definition redirect_location :: "string \<Rightarrow> string \<Rightarrow> string" where
  "redirect_location path query = path_and_query (clean_path path) query"

definition mux_dispatch :: "mux \<Rightarrow> string \<Rightarrow> string \<Rightarrow> url \<Rightarrow> mux_reply" where
  "mux_dispatch t meth host u =
     (if meth = ''CONNECT'' then
        (if should_redirect t (url_host u) (url_path u) then Redirect (redirect_location (url_path u @ ''/'') (url_query u))
         else Dispatch (mux_handler t host (url_path u)))
      else
        (let host' = strip_host_port host; path = clean_path (url_path u) in
         if should_redirect t host' path then Redirect (redirect_location (path @ ''/'') (url_query u))
         else if path \<noteq> url_path u then Redirect (redirect_location path (url_query u))
         else Dispatch (mux_handler t host' path)))"

section \<open>The routes of the program\<close>

definition fixed_routes :: "(string \<times> route) list" where
  "fixed_routes =
     [(''/login'', LoginRoute), (''/callback'', CallbackRoute), (''/logout'', LogoutRoute), (''/userinfo'', UserinfoRoute)]"

definition routes :: "(string \<times> url) list \<Rightarrow> mux option" where
  "routes proxies =
     mux_handle_all (fixed_routes @ map (\<lambda>(e, u). (e, ProxyRoute u)) proxies @ [(''/'', RootRoute)]) []"

text \<open>\<open>http.NotFoundHandler\<close>, which the mux uses where nothing is registered.\<close>

definition not_found :: "hop list" where
  "not_found =
     [SetHeader ''Content-Type'' ''text/plain; charset=utf-8'', SetHeader ''X-Content-Type-Options'' ''nosniff'',
      WriteHeader 404, Write (''404 page not found'' @ [CHR 0x0A])]"

definition rootHandler :: "req_env \<Rightarrow> request \<Rightarrow> hop list" where
  "rootHandler env r = from_context r @ reply_error env 404 [] None"

section \<open>Lemmas\<close>

lemma mux_handle_all_iff:
  "mux_handle_all phs t = Some t' \<longleftrightarrow>
     t' = t @ phs \<and> [] \<notin> fst ` set phs \<and> distinct (map fst phs) \<and> fst ` set t \<inter> fst ` set phs = {}"
proof (induction phs arbitrary: t)
  case (Cons ph phs)
  then show ?case by (cases ph) (auto simp: mux_handle_def)
qed auto

lemma mux_handle_all_ok:
  "mux_handle_all phs [] \<noteq> None \<longleftrightarrow> [] \<notin> fst ` set phs \<and> distinct (map fst phs)"
proof (cases "mux_handle_all phs []")
  case None
  then show ?thesis using mux_handle_all_iff [of phs "[]" phs] by simp
next
  case (Some t)
  then show ?thesis using mux_handle_all_iff [of phs "[]" t] by simp
qed

lemma subtrees_set: "set (subtrees t) = {e \<in> set t. fst e \<noteq> [] \<and> last (fst e) = CHR ''/''}"
  by (auto simp: subtrees_def)

lemma mux_match_from:
  assumes "mux_match t path = Some h"
  shows "\<exists>p. (p, h) \<in> set t \<and> (p = path \<or> last p = CHR ''/'' \<and> starts_with p path)"
proof (cases "map_of t path")
  case None
  then obtain e where "List.find (\<lambda>e. starts_with (fst e) path) (subtrees t) = Some e" "snd e = h"
    using assms by (auto simp: mux_match_def)
  then have "e \<in> set (subtrees t)" "starts_with (fst e) path" "snd e = h"
    by (auto simp: find_Some_iff)
  then have "(fst e, h) \<in> set t" "last (fst e) = CHR ''/''" "starts_with (fst e) path"
    by (auto simp: subtrees_set)
  then show ?thesis by blast
next
  case (Some h')
  with assms show ?thesis by (auto simp: mux_match_def dest: map_of_SomeD)
qed

lemma mux_match_exact: "distinct (map fst t) \<Longrightarrow> (path, h) \<in> set t \<Longrightarrow> mux_match t path = Some h"
  by (simp add: mux_match_def)

lemma mux_match_total:
  assumes "(''/'', h) \<in> set t" "starts_with ''/'' path"
  shows "mux_match t path \<noteq> None"
proof (cases "map_of t path")
  case None
  have "(''/'', h) \<in> set (subtrees t)" using assms(1) by (simp add: subtrees_set)
  then have "List.find (\<lambda>e. starts_with (fst e) path) (subtrees t) \<noteq> None"
    using assms(2) by (auto simp: find_None_iff)
  with None show ?thesis by (auto simp: mux_match_def)
qed (simp add: mux_match_def)

text \<open>The first of the sorted subtrees that fits is the longest that fits.\<close>

lemma find_sorted:
  "sorted (map f xs) \<Longrightarrow> List.find P xs = Some x \<Longrightarrow> y \<in> set xs \<Longrightarrow> P y \<Longrightarrow> f x \<le> f y"
  by (induction xs) (auto split: if_splits)

lemma mux_match_longest:
  assumes "map_of t path = None" "mux_match t path = Some h"
  shows "\<exists>p. (p, h) \<in> set t \<and> starts_with p path \<and>
    (\<forall>q h'. (q, h') \<in> set t \<and> q \<noteq> [] \<and> last q = CHR ''/'' \<and> starts_with q path \<longrightarrow> length q \<le> length p)"
proof -
  obtain e where e: "List.find (\<lambda>e. starts_with (fst e) path) (subtrees t) = Some e" "snd e = h"
    using assms by (auto simp: mux_match_def)
  have mem: "e \<in> set (subtrees t)" "starts_with (fst e) path" using e(1) by (auto simp: find_Some_iff)
  have "length q \<le> length (fst e)"
    if "(q, h') \<in> set t" "q \<noteq> []" "last q = CHR ''/''" "starts_with q path" for q h'
    using find_sorted [of "\<lambda>e. - int (length (fst e))", OF _ e(1), of "(q, h')"] that
    by (simp add: subtrees_set) (simp add: subtrees_def)
  moreover have "(fst e, h) \<in> set t" using mem(1) e(2) by (auto simp: subtrees_set)
  ultimately show ?thesis using mem(2) by blast
qed

text \<open>What the mux answers, for any table of patterns.\<close>

lemma mux_redirects_once:
  assumes "meth \<noteq> ''CONNECT''"
  shows "case mux_dispatch t meth host u of
      Dispatch h \<Rightarrow> h = mux_handler t (strip_host_port host) (url_path u) \<and>
        (\<forall>e\<in>set (split_on (CHR ''/'') (url_path u)). e \<noteq> ''.'' \<and> e \<noteq> ''..'') \<and> ((''/'', r) \<in> set t \<longrightarrow> h \<noteq> None)
    | Redirect loc \<Rightarrow>
        (\<exists>path. path_unescape (before (CHR ''?'') loc) = Some path \<and> after (CHR ''?'') loc = url_query u \<and>
          path \<in> {clean_path (url_path u), clean_path (url_path u) @ ''/''} \<and>
          (\<exists>h. mux_dispatch t meth host (u\<lparr>url_path := path\<rparr>) = Dispatch h \<and> ((''/'', r) \<in> set t \<longrightarrow> h \<noteq> None)))"
proof -
  let ?h = "strip_host_port host" and ?p = "clean_path (url_path u)"
  have found: "mux_handler t ?h path \<noteq> None" if "(''/'', r) \<in> set t" "clean_path path = path" for path
  proof -
    have "starts_with ''/'' path" using clean_path_hd [of path] that(2) by (auto simp: starts_with_def)
    with mux_match_total [OF that(1)] show ?thesis by (auto simp: mux_handler_def split: option.splits)
  qed
  consider (slash) "should_redirect t ?h ?p" | (clean) "\<not> should_redirect t ?h ?p" "?p \<noteq> url_path u"
    | (handled) "\<not> should_redirect t ?h ?p" "?p = url_path u" by blast
  then show ?thesis
  proof cases
    case slash
    then have c: "clean_path (?p @ ''/'') = ?p @ ''/''" by (intro clean_path_slash) (auto simp: should_redirect_def)
    moreover have "\<not> should_redirect t ?h (?p @ ''/'')" by (simp add: should_redirect_def)
    ultimately show ?thesis
      using slash assms path_and_query_read [of "?p @ ''/''" "url_query u"] found [of "?p @ ''/''"]
      by (simp add: mux_dispatch_def Let_def redirect_location_def)
  next
    case clean
    then show ?thesis
      using assms path_and_query_read [of ?p "url_query u"] found [of ?p]
      by (simp add: mux_dispatch_def Let_def redirect_location_def)
  next
    case handled
    then show ?thesis
      using assms clean_path_elements [of _ "url_path u"] found [of "url_path u"] by (simp add: mux_dispatch_def Let_def)
  qed
qed

section \<open>Properties\<close>

text \<open>C28. Routing: the program starts to serve exactly when the endpoints of the proxy configuration
  are not empty, differ from each other and are none of its own paths. Then, with endpoints
  that start with a slash, its four handlers are reached under their paths whatever is
  proxied; every other path is served too; a proxy only ever serves its endpoint, or, when the
  endpoint ends in a slash, the paths below it; and of several such subtrees the longest wins.\<close>

theorem routes_serve:
  shows "(routes proxies \<noteq> None \<longleftrightarrow>
      [] \<notin> fst ` set proxies \<and> distinct (map fst proxies) \<and>
      fst ` set proxies \<inter> {''/login'', ''/callback'', ''/logout'', ''/userinfo'', ''/''} = {}) \<and>
    (\<forall>t. routes proxies = Some t \<and> list_all (\<lambda>e. starts_with ''/'' (fst e)) proxies \<longrightarrow>
      mux_handler t host ''/login'' = Some LoginRoute \<and> mux_handler t host ''/callback'' = Some CallbackRoute \<and>
      mux_handler t host ''/logout'' = Some LogoutRoute \<and> mux_handler t host ''/userinfo'' = Some UserinfoRoute \<and>
      (starts_with ''/'' path \<longrightarrow> mux_handler t host path \<noteq> None) \<and>
      (\<forall>u. mux_handler t host path = Some (ProxyRoute u) \<longrightarrow>
        (\<exists>e. (e, u) \<in> set proxies \<and> (e = path \<or> last e = CHR ''/'' \<and> starts_with e path))) \<and>
      (\<forall>h. path \<notin> fst ` set t \<and> mux_handler t host path = Some h \<longrightarrow>
        (\<exists>p. (p, h) \<in> set t \<and> starts_with p path \<and>
          (\<forall>q h'. (q, h') \<in> set t \<and> q \<noteq> [] \<and> last q = CHR ''/'' \<and> starts_with q path \<longrightarrow> length q \<le> length p))))"
proof (intro conjI allI impI)
  let ?ps = "map (\<lambda>(e, u). (e, ProxyRoute u)) proxies"
  let ?all = "fixed_routes @ ?ps @ [(''/'', RootRoute)]"
  let ?own = "[''/login'', ''/callback'', ''/logout'', ''/userinfo'']"
  have all: "map fst ?all = ?own @ map fst proxies @ [''/'']"
    by (simp add: fixed_routes_def case_prod_beta)
  have "routes proxies \<noteq> None \<longleftrightarrow> [] \<notin> set (map fst ?all) \<and> distinct (map fst ?all)"
    unfolding routes_def set_map by (rule mux_handle_all_ok)
  also have "\<dots> \<longleftrightarrow> [] \<notin> fst ` set proxies \<and> distinct (map fst proxies) \<and> fst ` set proxies \<inter> set (?own @ [''/'']) = {}"
    unfolding all by (simp del: distinct_map) blast
  finally show "routes proxies \<noteq> None \<longleftrightarrow> [] \<notin> fst ` set proxies \<and> distinct (map fst proxies) \<and>
      fst ` set proxies \<inter> {''/login'', ''/callback'', ''/logout'', ''/userinfo'', ''/''} = {}"
    by simp
next
  fix t
  assume h: "routes proxies = Some t \<and> list_all (\<lambda>e. starts_with ''/'' (fst e)) proxies"
  then have t: "t = fixed_routes @ map (\<lambda>(e, u). (e, ProxyRoute u)) proxies @ [(''/'', RootRoute)]" "distinct (map fst t)"
    by (auto simp: routes_def mux_handle_all_iff)
  have slash: "hd p = CHR ''/''" if "starts_with ''/'' p" for p
    using that by (cases p) (auto simp: starts_with_def)
  have "\<not> list_ex (\<lambda>e. hd (fst e) \<noteq> CHR ''/'') t"
    using h slash by (auto simp: t(1) fixed_routes_def list_ex_iff list_all_iff)
  then have mh: "mux_handler t host p = mux_match t p" for p by (simp add: mux_handler_def)
  show "mux_handler t host ''/login'' = Some LoginRoute" "mux_handler t host ''/callback'' = Some CallbackRoute"
    "mux_handler t host ''/logout'' = Some LogoutRoute" "mux_handler t host ''/userinfo'' = Some UserinfoRoute"
    unfolding mh by (rule mux_match_exact [OF t(2)], simp add: t(1) fixed_routes_def)+
  show "mux_handler t host path \<noteq> None" if "starts_with ''/'' path"
    unfolding mh using that by (intro mux_match_total [of RootRoute]) (simp_all add: t(1))
  show "\<exists>e. (e, u) \<in> set proxies \<and> (e = path \<or> last e = CHR ''/'' \<and> starts_with e path)"
    if "mux_handler t host path = Some (ProxyRoute u)" for u
    using mux_match_from [of t path "ProxyRoute u"] that unfolding mh by (auto simp: t(1) fixed_routes_def)
  show "\<exists>p. (p, h) \<in> set t \<and> starts_with p path \<and>
      (\<forall>q h'. (q, h') \<in> set t \<and> q \<noteq> [] \<and> last q = CHR ''/'' \<and> starts_with q path \<longrightarrow> length q \<le> length p)"
    if "path \<notin> fst ` set t \<and> mux_handler t host path = Some h" for h
    using mux_match_longest [of t path h] that unfolding mh map_of_eq_None_iff by blast
qed

theorem routes_serve_witness:
  "\<exists>t. routes [(''/proxy/'', ex_target)] = Some t \<and> mux_handler t ''app'' ''/login'' = Some LoginRoute \<and>
     mux_handler t ''app'' ''/proxy/items'' \<noteq> None"
  using routes_serve [of "[(''/proxy/'', ex_target)]" "''app''" "''/proxy/items''"]
  by (simp add: starts_with_def) blast

text \<open>C29. Every path leads somewhere, after one redirect at most: in the program that serves, a request of any method but
  \<open>CONNECT\<close> is either handed to a handler, the one of its path, and then no element of the path is \<open>.\<close> or
  \<open>..\<close>; or it is redirected to the clean path, perhaps with a slash added, and a client that
  follows the redirect, with the same query, is handed to a handler.\<close>

theorem redirected_once:
  assumes "routes proxies = Some t" "meth \<noteq> ''CONNECT''"
  shows "case mux_dispatch t meth host u of
      Dispatch h \<Rightarrow> h \<noteq> None \<and> h = mux_handler t (strip_host_port host) (url_path u) \<and>
        (\<forall>e\<in>set (split_on (CHR ''/'') (url_path u)). e \<noteq> ''.'' \<and> e \<noteq> ''..'')
    | Redirect loc \<Rightarrow>
        (\<exists>path. path_unescape (before (CHR ''?'') loc) = Some path \<and> after (CHR ''?'') loc = url_query u \<and>
          path \<in> {clean_path (url_path u), clean_path (url_path u) @ ''/''} \<and>
          (\<exists>h. mux_dispatch t meth host (u\<lparr>url_path := path\<rparr>) = Dispatch (Some h)))"
proof -
  have root: "(''/'', RootRoute) \<in> set t"
    using assms(1) by (auto simp: routes_def mux_handle_all_iff)
  show ?thesis
    using mux_redirects_once [where meth = meth and t = t and host = host and u = u and r = RootRoute] assms(2) root
    by (auto split: mux_reply.splits)
qed

theorem redirected_once_witness:
  "\<exists>t path h. routes [(''/proxy/'', ex_target)] = Some t \<and>
     mux_dispatch t ''GET'' ''app:8080'' \<lparr>url_scheme = [], url_host = [], url_path = ''/login/..//proxy'', url_query = ''q=1''\<rparr> =
       Redirect ''/proxy/?q=1'' \<and>
     path_unescape (before (CHR ''?'') ''/proxy/?q=1'') = Some path \<and>
     mux_dispatch t ''GET'' ''app:8080'' \<lparr>url_scheme = [], url_host = [], url_path = path, url_query = ''q=1''\<rparr> = Dispatch (Some h)"
proof -
  let ?u = "\<lparr>url_scheme = [], url_host = [], url_path = ''/login/..//proxy'', url_query = ''q=1''\<rparr>"
  obtain t where t: "routes [(''/proxy/'', ex_target)] = Some t" "set t = set (fixed_routes @ [(''/proxy/'', ProxyRoute ex_target), (''/'', RootRoute)])"
    by (simp add: routes_def mux_handle_def fixed_routes_def)
  have "clean_path ''/login/..//proxy'' = ''/proxy''" "clean_path ''/proxy/'' = ''/proxy/''"
    "path_and_query ''/proxy/'' ''q=1'' = ''/proxy/?q=1''" "strip_host_port ''app:8080'' = ''app''"
    by code_simp+
  then have "mux_dispatch t ''GET'' ''app:8080'' ?u = Redirect ''/proxy/?q=1''"
    by (simp add: mux_dispatch_def should_redirect_def redirect_location_def t(2) fixed_routes_def)
  with redirected_once [OF t(1), where meth = "''GET''" and host = "''app:8080''" and u = ?u] t(1) show ?thesis by auto
qed

end
