(* ===== verification/System.thy ===== *)
theory System
  imports Routes Store_Properties
begin

text \<open>
  The program as a whole: requests routed to their handlers and ticks of the cleaner, in any
  order, on one database. The step relation runs whole requests one after the other; requests that
  overlap are in \<open>Concurrency\<close>, and what they do to the shared logger in \<open>Shared_Logger\<close>.
\<close>

section \<open>Requests and ticks\<close>

record 's system =
  sys_manager :: "'s manager"
  sys_oidc :: oidc_config
  sys_login_uri :: string
  sys_logout_uri :: string
  sys_mux :: mux

text \<open>A request with its surroundings: the back ends behind the proxy and the propagator included.\<close>

record incoming =
  arr_env :: req_env
  arr_request :: request
  arr_http :: proxy_request
  arr_transport :: "proxy_request \<Rightarrow> proxy_response result"
  arr_inject :: "header \<Rightarrow> header"

datatype event = Request incoming | Tick db_env

definition serve_request :: "'s system \<Rightarrow> incoming \<Rightarrow> 's \<Rightarrow> hop list \<times> 's" where
  "serve_request sys a st =
     (let env = arr_env a; r = arr_request a; m = sys_manager sys; c = sys_oidc sys in
      case mux_dispatch (sys_mux sys) (pr_method (arr_http a)) (pr_host (arr_http a)) (pr_url (arr_http a)) of
        Redirect location \<Rightarrow> (http_redirect (pr_method (arr_http a)) location 301, st)
      | Dispatch None \<Rightarrow> (not_found, st)
      | Dispatch (Some LoginRoute) \<Rightarrow> (LoginHandlerOidc env m c r, st)
      | Dispatch (Some CallbackRoute) \<Rightarrow> CallbackHandlerOidc env m c (sys_login_uri sys) r st
      | Dispatch (Some LogoutRoute) \<Rightarrow> LogoutHandlerOidc env m c (sys_logout_uri sys) r st
      | Dispatch (Some UserinfoRoute) \<Rightarrow> UserInfoHandlerOidc env m c r st
      | Dispatch (Some (ProxyRoute target)) \<Rightarrow>
          AuthenticationMiddleware env m c
            (\<lambda>token st'. (ProxyRequestHandler env (arr_transport a) (arr_inject a) target (arr_http a)
                            (Some (VString token)), st')) r st
      | Dispatch (Some RootRoute) \<Rightarrow> (rootHandler env r, st))"

definition serve :: "'s system \<Rightarrow> event \<Rightarrow> 's \<Rightarrow> 's" where
  "serve sys ev st =
     (case ev of
        Request a \<Rightarrow> snd (serve_request sys a st)
      | Tick env \<Rightarrow> snd (Purge (m_impl (sys_manager sys)) env st))"

text \<open>The databases the program can leave behind, with the requests and ticks that led there.\<close>

inductive reachable :: "store system \<Rightarrow> event list \<Rightarrow> store \<Rightarrow> bool" for sys where
  fresh_database: "reachable sys [] \<lparr>table = Map.empty, conn_open = True\<rparr>"
| next_event: "reachable sys evs st \<Longrightarrow> reachable sys (evs @ [ev]) (serve sys ev st)"

section \<open>What one event can do\<close>

text \<open>A request makes at most one call that changes the database, with data the provider verified.\<close>

lemma serve_request_call:
  assumes "serve_request sys a st = (hops, st')"
  shows "st' = st \<or>
    (\<exists>token g d. newData (arr_env a) token (session_for (sys_manager sys) (sys_oidc sys) g) = Inr d \<and>
      (st' = snd (Add (m_impl (sys_manager sys)) (db_write (arr_env a)) d st) \<or>
       (\<exists>sid. st' = snd (Update (m_impl (sys_manager sys)) (db_write (arr_env a)) sid d st)))) \<or>
    (\<exists>sid. st' = snd (Delete (m_impl (sys_manager sys)) (db_write (arr_env a)) sid st))"
proof -
  consider "st' = st"
    | uri where "CallbackHandlerOidc (arr_env a) (sys_manager sys) (sys_oidc sys) uri (arr_request a) st = (hops, st')"
    | uri where "LogoutHandlerOidc (arr_env a) (sys_manager sys) (sys_oidc sys) uri (arr_request a) st = (hops, st')"
    | f where "AuthenticationMiddleware (arr_env a) (sys_manager sys) (sys_oidc sys) (\<lambda>t s. (f t, s)) (arr_request a) st = (hops, st')"
    using assms
    by (auto simp: serve_request_def Let_def UserInfoHandlerOidc_def split: mux_reply.splits option.splits route.splits)
  then show ?thesis
  proof cases
    case (2 uri)
    from callback_call [OF this] show ?thesis by blast
  next
    case (3 uri)
    from logout_call [OF this] show ?thesis by blast
  next
    case (4 f)
    from middleware_call [OF this] show ?thesis by blast
  qed simp
qed

text \<open>One event is at most one successful call of the database, with data the provider verified.\<close>

inductive db_effect :: "store system \<Rightarrow> event \<Rightarrow> store \<Rightarrow> store \<Rightarrow> bool" for sys ev st where
  no_effect: "db_effect sys ev st st"
| added: "ev = Request a \<Longrightarrow> newData (arr_env a) token (session_for (sys_manager sys) (sys_oidc sys) g) = Inr d \<Longrightarrow>
    Add (m_impl (sys_manager sys)) env d st = (Inr sid, st') \<Longrightarrow> db_effect sys ev st st'"
| updated: "ev = Request a \<Longrightarrow> newData (arr_env a) token (session_for (sys_manager sys) (sys_oidc sys) g) = Inr d \<Longrightarrow>
    Update (m_impl (sys_manager sys)) env sid d st = (Inr (), st') \<Longrightarrow> db_effect sys ev st st'"
| deleted: "ev = Request a \<Longrightarrow> Delete (m_impl (sys_manager sys)) env sid st = (Inr (), st') \<Longrightarrow> db_effect sys ev st st'"
| purged: "ev = Tick env \<Longrightarrow> Purge (m_impl (sys_manager sys)) env st = (Inr (), st') \<Longrightarrow> db_effect sys ev st st'"

inductive_cases db_effectE: "db_effect sys ev st st'"

lemma serve_effect:
  assumes "backend c (m_impl (sys_manager sys))"
  shows "db_effect sys ev st (serve sys ev st)"
proof -
  let ?m = "sys_manager sys" and ?I = "m_impl (sys_manager sys)"
  obtain no_rows where S: "session_store ?I (stored c) ids conn_open no_rows (cipher_correct c)"
    using assms by (rule backend_store)
  show ?thesis
  proof (cases ev)
    case (Request a)
    obtain hops st' where run: "serve_request sys a st = (hops, st')" by fastforce
    then have "db_effect sys (Request a) st st'"
      using serve_request_call [OF run] session_store.call_effect [OF S] by (metis db_effect.intros)
    with run Request show ?thesis by (simp add: serve_def)
  next
    case (Tick env)
    obtain res st' where P: "Purge ?I env st = (res, st')" by fastforce
    then have "db_effect sys ev st st'"
    proof (cases res)
      case (Inl e)
      with P have "st' = st" using session_store.Purge_Inl [OF S] by simp
      then show ?thesis by (simp add: no_effect)
    next
      case (Inr u)
      with P Tick show ?thesis by (intro purged) auto
    qed
    with P Tick show ?thesis by (simp add: serve_def)
  qed
qed

section \<open>Invariants of reachable databases\<close>

text \<open>Some request of the history came with a provider that verified this token for this subject.\<close>

definition vouched :: "'s system \<Rightarrow> event list \<Rightarrow> string \<Rightarrow> string \<Rightarrow> bool" where
  "vouched sys evs raw sub \<longleftrightarrow>
     (\<exists>a. Request a \<in> set evs \<and>
        verified_for (oidc_lib (arr_env a)) (issuer (sys_oidc sys)) (ClientID (sys_oidc sys)) raw sub)"

lemma vouched_mono: "vouched sys evs raw sub \<Longrightarrow> vouched sys (evs @ [ev]) raw sub"
  by (auto simp: vouched_def)

lemma newData_vouched_now:
  "newData (arr_env a) token (session_for (sys_manager sys) (sys_oidc sys) g) = Inr d \<Longrightarrow>
     vouched sys (evs @ [Request a]) (IDToken (store_precision d)) (Subject (store_precision d))"
  by (auto simp: newData_Inr_iff vouched_def store_precision_def)

lemma effect_keeps_provenance:
  assumes "db_effect sys ev st st'" "backend c (m_impl (sys_manager sys))" "cipher_correct c"
    and "\<And>sid d. stored c st sid = Some d \<Longrightarrow> vouched sys evs (IDToken d) (Subject d)"
    and "stored c st' sid = Some d"
  shows "vouched sys (evs @ [ev]) (IDToken d) (Subject d)"
proof -
  let ?I = "m_impl (sys_manager sys)"
  obtain no_rows where S: "session_store ?I (stored c) ids conn_open no_rows (cipher_correct c)"
    using assms(2) by (rule backend_store)
  have old: "vouched sys (evs @ [ev]) (IDToken d) (Subject d)" if "stored c st sid = Some d"
    using assms(4) [OF that] by (rule vouched_mono)
  from assms(1) show ?thesis
  proof (cases rule: db_effect.cases)
    case no_effect
    with assms(5) old show ?thesis by simp
  next
    case (added a token g d' env sid')
    show ?thesis
    proof (cases "sid = sid'")
      case True
      with assms(5) session_store.Add_view [OF S assms(3) added(3)] have "d = store_precision d'" by simp
      with newData_vouched_now [OF added(2), of evs] added(1) show ?thesis by simp
    next
      case False
      with assms(5) session_store.Add_Inr [OF S added(3)] old show ?thesis by simp
    qed
  next
    case (updated a token g d' env sid')
    show ?thesis
    proof (cases "sid = sid'")
      case True
      with assms(5) session_store.Update_view [OF S assms(3) updated(3)] have "d = store_precision d'" by simp
      with newData_vouched_now [OF updated(2), of evs] updated(1) show ?thesis by simp
    next
      case False
      with assms(5) session_store.Update_Inr [OF S updated(3)] old show ?thesis by simp
    qed
  next
    case (deleted a env sid')
    with assms(5) session_store.Delete_Inr [OF S deleted(2)] old show ?thesis by (simp split: if_splits)
  next
    case (purged env)
    with assms(5) session_store.Purge_Inr [OF S purged(2)] old show ?thesis
      by (auto simp: spec_purge_def split: option.splits if_splits)
  qed
qed

text \<open>What every row of a table satisfies: the constraints of the statements that wrote it.\<close>

definition rows_ok :: "row_check \<Rightarrow> store \<Rightarrow> bool" where
  "rows_ok check st \<longleftrightarrow> (\<forall>sid row. table st sid = Some row \<longrightarrow> check sid row = None)"

lemma sqlite_effect_rows:
  assumes "db_effect sys ev st st'" "m_impl (sys_manager sys) = sqlite_impl c" "rows_ok sqlite_row_check st"
  shows "rows_ok sqlite_row_check st'"
  using assms by (cases rule: db_effectE)
    (auto simp: rows_ok_def sqlite_iffs sql_purge_def split: if_splits option.splits)

lemma postgresql_effect_rows:
  assumes "db_effect sys ev st st'" "m_impl (sys_manager sys) = postgresql_impl c"
    and "rows_ok postgresql_row_check st" "\<forall>sid row. table st sid = Some row \<longrightarrow> int4 (row_expires_at row)"
  shows "rows_ok postgresql_row_check st' \<and> (\<forall>sid row. table st' sid = Some row \<longrightarrow> int4 (row_expires_at row))"
  using assms by (cases rule: db_effectE)
    (auto simp: rows_ok_def postgresql_iffs sql_purge_def split: if_splits option.splits)

lemma reachable_vouched:
  assumes "reachable sys evs st" "backend c (m_impl (sys_manager sys))" "cipher_correct c" "stored c st sid = Some d"
  shows "\<exists>a. Request a \<in> set evs \<and>
    verified_for (oidc_lib (arr_env a)) (issuer (sys_oidc sys)) (ClientID (sys_oidc sys)) (IDToken d) (Subject d)"
proof -
  have "\<forall>sid d. stored c st sid = Some d \<longrightarrow> vouched sys evs (IDToken d) (Subject d)"
    using assms(1)
  proof (induction rule: reachable.induct)
    case fresh_database
    show ?case by (simp add: stored_def)
  next
    case (next_event evs st ev)
    then show ?case
      using effect_keeps_provenance [OF serve_effect [OF assms(2)] assms(2,3), of st evs] by blast
  qed
  with assms(4) show ?thesis by (simp add: vouched_def)
qed

lemma reachable_rows_ok:
  assumes "reachable sys evs st"
  shows "(m_impl (sys_manager sys) = sqlite_impl c \<longrightarrow> rows_ok sqlite_row_check st) \<and>
    (m_impl (sys_manager sys) = postgresql_impl c \<longrightarrow>
       rows_ok postgresql_row_check st \<and> (\<forall>sid row. table st sid = Some row \<longrightarrow> int4 (row_expires_at row)))"
  using assms
proof (induction rule: reachable.induct)
  case fresh_database
  show ?case by (simp add: rows_ok_def)
next
  case (next_event evs st ev)
  have "rows_ok sqlite_row_check (serve sys ev st)" if "m_impl (sys_manager sys) = sqlite_impl c"
    using sqlite_effect_rows [OF serve_effect [of c] that] next_event.IH that by simp
  moreover have "rows_ok postgresql_row_check (serve sys ev st) \<and>
      (\<forall>sid row. table (serve sys ev st) sid = Some row \<longrightarrow> int4 (row_expires_at row))"
    if "m_impl (sys_manager sys) = postgresql_impl c"
    using postgresql_effect_rows [OF serve_effect [of c] that, of st ev] next_event.IH that by simp
  ultimately show ?case by blast
qed

section \<open>An example run\<close>

definition ex_arrival :: incoming where
  "ex_arrival =
     \<lparr>arr_env = ex_env, arr_request = ex_callback,
      arr_http = ex_proxied\<lparr>pr_url := \<lparr>url_scheme = [], url_host = [], url_path = ''/callback'', url_query = []\<rparr>\<rparr>,
      arr_transport = (\<lambda>_. Inl (Errorf ''connection refused'' [])), arr_inject = (\<lambda>h. h)\<rparr>"

definition ex_system :: "store system" where
  "ex_system =
     \<lparr>sys_manager = ex_manager (sqlite_impl None), sys_oidc = ex_config, sys_login_uri = ''https://app/'',
      sys_logout_uri = ''https://app/bye'', sys_mux = fixed_routes @ [(''/'', RootRoute)]\<rparr>"

definition ex_database :: store where
  "ex_database = ex_new_store ''uuid-1'' \<lparr>table = Map.empty, conn_open = True\<rparr>"

lemma ex_callback_dispatched:
  "mux_dispatch (sys_mux ex_system) (pr_method (arr_http ex_arrival)) (pr_host (arr_http ex_arrival)) (pr_url (arr_http ex_arrival)) =
     Dispatch (Some CallbackRoute)"
proof -
  have "clean_path ''/callback'' = ''/callback''" by code_simp
  then show ?thesis
    by (simp add: ex_system_def ex_arrival_def ex_proxied_def mux_dispatch_def should_redirect_def fixed_routes_def mux_handler_def mux_match_def)
qed

lemma ex_reachable: "reachable ex_system [Request ex_arrival] ex_database"
proof -
  let ?st = "\<lparr>table = Map.empty, conn_open = True\<rparr> :: store"
  note ex_callback_dispatched
  moreover have "snd (CallbackHandlerOidc ex_env (ex_manager (sqlite_impl None)) ex_config uri ex_callback ?st) = ex_database" for uri
    using ex_callback_run [of ?st uri] by (simp add: ex_database_def ids_def)
  ultimately have "serve ex_system (Request ex_arrival) ?st = ex_database"
    by (simp add: serve_def serve_request_def Let_def) (simp add: ex_system_def ex_arrival_def)
  then show ?thesis
    using next_event [OF fresh_database, of ex_system "Request ex_arrival"] by simp
qed

lemma ex_database_stored: "stored None ex_database ''uuid-1'' = Some ex_new_data"
  by (simp add: ex_database_def ex_new_store_def stored_def decryptArgs_def row_of_def data_of_def ex_new_data_def)

end
