(* ===== verification/Statements.thy ===== *)
theory Statements
  imports Store_Properties
begin

text \<open>
  The session table seen by concurrent goroutines. Every method of \<open>database/sqlite.go\<close> and
  \<open>database/postgresql.go\<close> is one SQL statement, except \<open>Update\<close>: it reads the row (to compare
  the subjects) and then writes it, and the statements of other requests, and the purges of the
  cleaner, may run in between. Here a schedule names the statements in the order the database
  executes them. The locale \<open>two_phase_store\<close> says what an \<open>Update\<close> in two statements
  promises; both back ends interpret it.
\<close>

section \<open>Schedules of statements\<close>

type_synonym 's update_read = "db_env \<Rightarrow> string \<Rightarrow> session_data \<Rightarrow> 's \<Rightarrow> session_data result"
type_synonym 's update_write = "db_env \<Rightarrow> string \<Rightarrow> session_data \<Rightarrow> 's \<Rightarrow> unit result \<times> 's"

text \<open>An update that has read its row: its call, and the encrypted data it is about to write.\<close>

record pending_update =
  pend_env :: db_env
  pend_id :: string
  pend_data :: session_data
  pend_encrypted :: session_data

record 's shared_db =
  db_state :: 's
  pending :: "nat \<rightharpoonup> pending_update"
    \<comment> \<open>by goroutine\<close>

datatype stmt =
    StmtAdd db_env session_data
  | StmtDelete db_env string
  | StmtPurge db_env
  | BeginUpdate nat db_env string session_data
    \<comment> \<open>the goroutine's \<open>Update\<close> up to the encryption of the new data\<close>
  | FinishUpdate nat
    \<comment> \<open>its write\<close>

fun stmt_exec :: "'s session_impl \<Rightarrow> 's update_read \<Rightarrow> 's update_write \<Rightarrow> stmt \<Rightarrow> 's shared_db \<Rightarrow> 's shared_db" where
  "stmt_exec I rd wr (StmtAdd env d) s = s\<lparr>db_state := snd (Add I env d (db_state s))\<rparr>"
| "stmt_exec I rd wr (StmtDelete env sid) s = s\<lparr>db_state := snd (Delete I env sid (db_state s))\<rparr>"
| "stmt_exec I rd wr (StmtPurge env) s = s\<lparr>db_state := snd (Purge I env (db_state s))\<rparr>"
| "stmt_exec I rd wr (BeginUpdate n env sid d) s =
     (case (pending s n, rd env sid d (db_state s)) of
        (None, Inr enc) \<Rightarrow>
          s\<lparr>pending := (pending s)(n \<mapsto>
              \<lparr>pend_env = env, pend_id = sid, pend_data = d, pend_encrypted = enc\<rparr>)\<rparr>
      | _ \<Rightarrow> s)"
| "stmt_exec I rd wr (FinishUpdate n) s =
     (case pending s n of
        None \<Rightarrow> s
      | Some p \<Rightarrow>
          s\<lparr>db_state := snd (wr (pend_env p) (pend_id p) (pend_encrypted p) (db_state s)),
            pending := (pending s)(n := None)\<rparr>)"

definition stmts_exec :: "'s session_impl \<Rightarrow> 's update_read \<Rightarrow> 's update_write \<Rightarrow> stmt list \<Rightarrow> 's shared_db \<Rightarrow> 's shared_db" where
  "stmts_exec I rd wr ss s = fold (stmt_exec I rd wr) ss s"

text \<open>The atomic calls a schedule stands for: an update counts where it writes.\<close>

fun atomic_call :: "stmt \<Rightarrow> 's shared_db \<Rightarrow> db_call list" where
  "atomic_call (StmtAdd env d) s = [CallAdd env d]"
| "atomic_call (StmtDelete env sid) s = [CallDelete env sid]"
| "atomic_call (StmtPurge env) s = [CallPurge env]"
| "atomic_call (BeginUpdate n env sid d) s = []"
| "atomic_call (FinishUpdate n) s =
     (case pending s n of None \<Rightarrow> [] | Some p \<Rightarrow> [CallUpdate (pend_env p) (pend_id p) (pend_data p)])"

fun atomic_calls :: "'s session_impl \<Rightarrow> 's update_read \<Rightarrow> 's update_write \<Rightarrow> stmt list \<Rightarrow> 's shared_db \<Rightarrow> db_call list" where
  "atomic_calls I rd wr [] s = []"
| "atomic_calls I rd wr (x # xs) s = atomic_call x s @ atomic_calls I rd wr xs (stmt_exec I rd wr x s)"

text \<open>The ids drawn by the insertions of a schedule, in order.\<close>

fun drawn_ids :: "stmt list \<Rightarrow> string list" where
  "drawn_ids [] = []"
| "drawn_ids (StmtAdd env d # xs) = env_uuid env # drawn_ids xs"
| "drawn_ids (_ # xs) = drawn_ids xs"

lemma stmts_exec_simps [simp]:
  "stmts_exec I rd wr [] s = s"
  "stmts_exec I rd wr (x # xs) s = stmts_exec I rd wr xs (stmt_exec I rd wr x s)"
  by (simp_all add: stmts_exec_def)

lemma run_calls_append [simp]: "run_calls I (cs @ cs') s = run_calls I cs' (run_calls I cs s)"
  by (simp add: run_calls_def)

lemma drawn_ids_append [simp]: "drawn_ids (xs @ ys) = drawn_ids xs @ drawn_ids ys"
  by (induction xs rule: drawn_ids.induct) simp_all

lemma atomic_calls_ids:
  "sid \<notin> set (drawn_ids xs) \<Longrightarrow> Some sid \<notin> uuid_of_call ` set (atomic_calls I rd wr xs s)"
proof (induction xs arbitrary: s)
  case (Cons x xs)
  then show ?case by (cases x) (auto split: option.splits)
qed simp

section \<open>The contract of an update in two statements\<close>

locale two_phase_store = session_store I view known ready no_rows reliable
  for I :: "'s session_impl"
    and view :: "'s \<Rightarrow> session_map"
    and known :: "'s \<Rightarrow> string set"
    and ready :: "'s \<Rightarrow> bool"
    and no_rows :: go_error
    and reliable :: bool +
  fixes rd :: "'s update_read"
    and wr :: "'s update_write"
    and encode :: "db_env \<Rightarrow> session_data \<Rightarrow> session_data result"
  assumes Update_phases: "Update I env sid d s =
          (case rd env sid d s of Inl e \<Rightarrow> (Inl e, s) | Inr enc \<Rightarrow> wr env sid enc s)"
    and rd_Inr_iff: "rd env sid d s = Inr enc \<longleftrightarrow>
          (\<exists>old. ready s \<and> env_get_fault env = None \<and> view s sid = Some old \<and>
             Subject d = Subject old \<and> encode env d = Inr enc)"
    and wr_unready: "\<not> ready s \<Longrightarrow> \<exists>e. wr env sid enc s = (Inl e, s)"
    and wr_unknown: "sid \<notin> known s \<Longrightarrow> snd (wr env sid enc s) = s"
    and Purge_keeps: "Purge I env s = (Inr (), s') \<Longrightarrow> sid \<in> known s' \<Longrightarrow> view s' sid = view s sid"
    and Close_keeps: "view (snd (CloseConnection I env s)) = view s" "known (snd (CloseConnection I env s)) = known s"
begin

lemma wr_unready_state: "\<not> ready s \<Longrightarrow> snd (wr env sid enc s) = s"
  using wr_unready by (metis snd_conv)

text \<open>A pending update could still read what it has read: nobody else took over its id.\<close>

definition may_write :: "string set \<Rightarrow> 's \<Rightarrow> pending_update \<Rightarrow> bool" where
  "may_write used s p \<longleftrightarrow>
     pend_id p \<in> used \<and> env_get_fault (pend_env p) = None \<and>
     encode (pend_env p) (pend_data p) = Inr (pend_encrypted p) \<and>
     (\<forall>old. view s (pend_id p) = Some old \<longrightarrow> Subject (pend_data p) = Subject old)"

definition consistent :: "string set \<Rightarrow> 's shared_db \<Rightarrow> bool" where
  "consistent used s \<longleftrightarrow>
     known (db_state s) \<subseteq> used \<and> known (db_state s) \<subseteq> dom (view (db_state s)) \<and>
     (\<forall>n p. pending s n = Some p \<longrightarrow> may_write used (db_state s) p)"

lemma write_is_update:
  assumes "may_write used s p" "known s \<subseteq> dom (view s)"
  shows "snd (wr (pend_env p) (pend_id p) (pend_encrypted p) s) = snd (Update I (pend_env p) (pend_id p) (pend_data p) s)"
proof (cases "ready s \<and> pend_id p \<in> known s")
  case True
  then obtain old where "view s (pend_id p) = Some old" using assms(2) by blast
  with True assms(1) have "rd (pend_env p) (pend_id p) (pend_data p) s = Inr (pend_encrypted p)"
    by (auto simp: rd_Inr_iff may_write_def)
  then show ?thesis by (simp add: Update_phases)
next
  case False
  then obtain e where "rd (pend_env p) (pend_id p) (pend_data p) s = Inl e"
    by (cases "rd (pend_env p) (pend_id p) (pend_data p) s") (auto simp: rd_Inr_iff dest: view_known)
  moreover have "snd (wr (pend_env p) (pend_id p) (pend_encrypted p) s) = s"
    using False by (auto intro: wr_unready_state wr_unknown)
  ultimately show ?thesis by (simp add: Update_phases)
qed

lemma pending_write:
  assumes "consistent used s" "pending s n = Some p"
  shows "snd (wr (pend_env p) (pend_id p) (pend_encrypted p) (db_state s)) =
    snd (Update I (pend_env p) (pend_id p) (pend_data p) (db_state s))"
  using assms by (intro write_is_update [of used]) (auto simp: consistent_def)

lemma stmt_exec_atomic:
  assumes "consistent used s"
  shows "db_state (stmt_exec I rd wr x s) = run_calls I (atomic_call x s) (db_state s)"
  by (cases x) (auto simp: pending_write [OF assms] split: option.splits sum.splits)

lemma dom_viewI:
  assumes "known s \<subseteq> dom (view s)" "known s' \<subseteq> insert sid (known s)"
    and "\<forall>x. x \<noteq> sid \<longrightarrow> view s' x = view s x" "view s' sid = Some d"
  shows "known s' \<subseteq> dom (view s')"
proof
  fix x
  assume "x \<in> known s'"
  with assms show "x \<in> dom (view s')" by (cases "x = sid") auto
qed

lemma run_call_dom:
  assumes reliable "known s \<subseteq> dom (view s)"
  shows "known (run_call I c s) \<subseteq> dom (view (run_call I c s))"
proof (cases c s rule: call_cases)
  case unchanged
  with assms(2) show ?thesis by simp
next
  case (added env d sid)
  show ?thesis
    using Add_Inr [OF added(2)] by (intro dom_viewI [OF assms(2) _ _ Add_view [OF assms(1) added(2)]]) auto
next
  case (deleted env sid)
  show ?thesis using assms(2) Delete_Inr [OF deleted(2)] by auto
next
  case (updated env sid d)
  show ?thesis
    using Update_Inr [OF updated(2)] by (intro dom_viewI [OF assms(2) _ _ Update_view [OF assms(1) updated(2)]]) auto
next
  case (purged env)
  have "x \<in> dom (view (run_call I c s))" if "x \<in> known (run_call I c s)" for x
    using that assms(2) Purge_Inr [OF purged(2)] Purge_keeps [OF purged(2) that] by (auto simp: domIff)
  then show ?thesis ..
qed

lemma run_call_known_new: "known (run_call I c s) \<subseteq> known s \<union> set_option (uuid_of_call c)"
  using run_call_known by (metis UnCI elem_set subsetI)

lemma may_write_call:
  assumes "may_write used s p" "uuid_of_call c \<noteq> Some (pend_id p)"
  shows "may_write (used \<union> set_option (uuid_of_call c)) (run_call I c s) p"
proof -
  have "Subject (pend_data p) = Subject old" if new: "view (run_call I c s) (pend_id p) = Some old" for old
  proof (cases "view s (pend_id p)")
    case None
    with run_call_view_None [OF None assms(2)] new show ?thesis by simp
  next
    case (Some d)
    with run_call_subject [OF Some new] assms(1) show ?thesis by (simp add: may_write_def)
  qed
  with assms(1) show ?thesis by (simp add: may_write_def)
qed

lemma consistent_call:
  assumes reliable "consistent used s" "set_option (uuid_of_call c) \<inter> used = {}"
    and "\<forall>n p. pd n = Some p \<longrightarrow> may_write used (db_state s) p"
  shows "consistent (used \<union> set_option (uuid_of_call c)) (s\<lparr>db_state := run_call I c (db_state s), pending := pd\<rparr>)"
proof -
  have "may_write (used \<union> set_option (uuid_of_call c)) (run_call I c (db_state s)) p" if "pd n = Some p" for n p
    using assms(3,4) that by (intro may_write_call) (auto simp: may_write_def)
  then show ?thesis
    using assms(2) run_call_known_new [of c "db_state s"] run_call_dom [OF assms(1), of "db_state s" c]
    by (auto simp: consistent_def)
qed

lemma consistent_begin:
  assumes "consistent used s" "rd env sid d (db_state s) = Inr enc"
  shows "may_write used (db_state s) \<lparr>pend_env = env, pend_id = sid, pend_data = d, pend_encrypted = enc\<rparr>"
  using assms by (auto simp: consistent_def may_write_def rd_Inr_iff dest: view_known)

lemma consistent_exec:
  assumes reliable "consistent used s" "set (drawn_ids [x]) \<inter> used = {}"
  shows "consistent (used \<union> set (drawn_ids [x])) (stmt_exec I rd wr x s)"
proof (cases x)
  case (StmtAdd env d)
  with consistent_call [OF assms(1,2), of "CallAdd env d" "pending s"] assms(2,3) show ?thesis
    by (simp add: consistent_def)
next
  case (StmtDelete env sid)
  with consistent_call [OF assms(1,2), of "CallDelete env sid" "pending s"] assms(2) show ?thesis
    by (simp add: consistent_def)
next
  case (StmtPurge env)
  with consistent_call [OF assms(1,2), of "CallPurge env" "pending s"] assms(2) show ?thesis
    by (simp add: consistent_def)
next
  case (BeginUpdate n env sid d)
  with assms(2) consistent_begin [OF assms(2), of env sid d] show ?thesis
    by (auto simp: consistent_def split: option.splits sum.splits)
next
  case (FinishUpdate n)
  show ?thesis
  proof (cases "pending s n")
    case None
    with FinishUpdate assms(2) show ?thesis by simp
  next
    case (Some p)
    let ?c = "CallUpdate (pend_env p) (pend_id p) (pend_data p)"
    have "consistent used (s\<lparr>db_state := run_call I ?c (db_state s), pending := (pending s)(n := None)\<rparr>)"
      using consistent_call [OF assms(1,2), of ?c "(pending s)(n := None)"] assms(2) by (simp add: consistent_def)
    with Some FinishUpdate show ?thesis by (simp add: pending_write [OF assms(2) Some])
  qed
qed

text \<open>Every schedule is a history of atomic calls.\<close>

lemma schedule_linearizes:
  assumes reliable "consistent used s" "distinct (drawn_ids xs)" "set (drawn_ids xs) \<inter> used = {}"
  shows "db_state (stmts_exec I rd wr xs s) = run_calls I (atomic_calls I rd wr xs s) (db_state s)"
  using assms(2-)
proof (induction xs arbitrary: used s)
  case (Cons x xs)
  have ids: "drawn_ids (x # xs) = drawn_ids [x] @ drawn_ids xs" by (cases x) simp_all
  with Cons.prems have "consistent (used \<union> set (drawn_ids [x])) (stmt_exec I rd wr x s)"
    by (intro consistent_exec [OF assms(1)]) auto
  then have "db_state (stmts_exec I rd wr xs (stmt_exec I rd wr x s)) =
      run_calls I (atomic_calls I rd wr xs (stmt_exec I rd wr x s)) (db_state (stmt_exec I rd wr x s))"
    using Cons.prems(2,3) unfolding ids by (intro Cons.IH) auto
  then show ?case by (simp add: stmt_exec_atomic [OF Cons.prems(1)])
qed simp

lemma consistent_schedule:
  assumes reliable "consistent used s" "distinct (drawn_ids xs)" "set (drawn_ids xs) \<inter> used = {}"
  shows "consistent (used \<union> set (drawn_ids xs)) (stmts_exec I rd wr xs s)"
  using assms(2-)
proof (induction xs arbitrary: used s)
  case (Cons x xs)
  have ids: "drawn_ids (x # xs) = drawn_ids [x] @ drawn_ids xs" by (cases x) simp_all
  with Cons.prems have "consistent (used \<union> set (drawn_ids [x])) (stmt_exec I rd wr x s)"
    by (intro consistent_exec [OF assms(1)]) auto
  then have "consistent (used \<union> set (drawn_ids [x]) \<union> set (drawn_ids xs)) (stmts_exec I rd wr xs (stmt_exec I rd wr x s))"
    using Cons.prems(2,3) unfolding ids by (intro Cons.IH) auto
  then show ?case unfolding ids by (simp add: Un_assoc)
qed simp

text \<open>A row that is gone at some point of a schedule stays gone, pending updates or not.\<close>

lemma gone_stays_gone:
  assumes reliable "consistent used s" "distinct (drawn_ids xs)" "set (drawn_ids xs) \<inter> used = {}"
    and "sid \<notin> known (db_state s)" "sid \<notin> set (drawn_ids xs)"
  shows "sid \<notin> known (db_state (stmts_exec I rd wr xs s))"
  unfolding schedule_linearizes [OF assms(1-4)]
  using assms(5) atomic_calls_ids [OF assms(6)] by (rule unknown_stays)

lemma deleted_stays_gone:
  assumes reliable "consistent used s" "distinct (drawn_ids (xs @ ys))" "set (drawn_ids (xs @ ys)) \<inter> used = {}"
    and "sid \<notin> set (drawn_ids ys)" "fst (Delete I env sid (db_state (stmts_exec I rd wr xs s))) = Inr ()"
  shows "sid \<notin> known (db_state (stmts_exec I rd wr (xs @ StmtDelete env sid # ys) s))"
proof -
  let ?s = "stmts_exec I rd wr (xs @ [StmtDelete env sid]) s"
  have "stmts_exec I rd wr (xs @ StmtDelete env sid # ys) s = stmts_exec I rd wr ys ?s"
    by (simp add: stmts_exec_def)
  moreover have "consistent (used \<union> set (drawn_ids (xs @ [StmtDelete env sid]))) ?s"
    using assms(3,4) by (intro consistent_schedule [OF assms(1,2)]) auto
  moreover have "sid \<notin> known (db_state ?s)"
    using Delete_Inr [of env sid "db_state (stmts_exec I rd wr xs s)"] assms(6) by (simp add: stmts_exec_def prod_eq_iff)
  ultimately show ?thesis
    using assms(3,4,5) by (auto dest!: gone_stays_gone [OF assms(1), of _ ?s ys sid])
qed

end

section \<open>Both back ends\<close>

lemma purge_keeps:
  "sql_purge now (table st) = Inr t \<Longrightarrow> sid \<in> ids (st\<lparr>table := t\<rparr>) \<Longrightarrow> stored c (st\<lparr>table := t\<rparr>) sid = stored c st sid"
  by (auto simp: sql_purge_def ids_def stored_def split: option.splits if_splits)

interpretation sqlite_phases: two_phase_store "sqlite_impl c" "stored c" ids conn_open SqlErrNoRows "cipher_correct c"
    "sqlite_Update_read c" sqlite_Update_write "\<lambda>env. encryptArgs c (env_nonces env)"
  for c :: "cipher option"
proof (unfold_locales, goal_cases)
  case 1 then show ?case by (simp add: sqlite_Update_def)
next
  case 2 then show ?case by (auto simp: sqlite_Update_read_Inr_iff)
next
  case 3 then show ?case by (simp add: sqlite_Update_write_def exec_def)
next
  case 4 then show ?case
    by (auto simp: sqlite_Update_write_def exec_def sql_update_def ids_def split: option.splits)
next
  case 5 then show ?case by (auto simp: sqlite_Purge_Inr_iff purge_keeps)
next
  case 6 show ?case by (simp add: sqlite_CloseConnection_def fun_eq_iff stored_def split: option.splits)
next
  case 7 show ?case by (simp add: sqlite_CloseConnection_def ids_def split: option.splits)
qed

interpretation postgresql_phases: two_phase_store "postgresql_impl c" "stored c" ids conn_open PgxErrNoRows "cipher_correct c"
    "postgresql_Update_read c" postgresql_Update_write "\<lambda>env. encryptArgs c (env_nonces env)"
  for c :: "cipher option"
proof (unfold_locales, goal_cases)
  case 1 then show ?case by (simp add: postgresql_Update_def)
next
  case 2 then show ?case by (auto simp: postgresql_Update_read_Inr_iff)
next
  case 3 then show ?case by (simp add: postgresql_Update_write_def exec_def)
next
  case 4 then show ?case
    by (auto simp: postgresql_Update_write_def exec_def bind_int4_def sql_update_def ids_def split: option.splits)
next
  case 5 then show ?case by (auto simp: postgresql_Purge_Inr_iff purge_keeps)
next
  case 6 show ?case by (simp add: postgresql_CloseConnection_def fun_eq_iff stored_def split: option.splits)
next
  case 7 show ?case by (simp add: postgresql_CloseConnection_def ids_def split: option.splits)
qed

definition backend_phases :: "cipher option \<Rightarrow> store session_impl \<Rightarrow> store update_read \<Rightarrow> store update_write \<Rightarrow> bool" where
  "backend_phases c I rd wr \<longleftrightarrow>
     I = sqlite_impl c \<and> rd = sqlite_Update_read c \<and> wr = sqlite_Update_write \<or>
     I = postgresql_impl c \<and> rd = postgresql_Update_read c \<and> wr = postgresql_Update_write"

lemma backend_phases_store:
  assumes "backend_phases c I rd wr"
  obtains no_rows where "two_phase_store I (stored c) ids conn_open no_rows (cipher_correct c) rd wr
    (\<lambda>env. encryptArgs c (env_nonces env))"
  using assms sqlite_phases.two_phase_store_axioms postgresql_phases.two_phase_store_axioms
  by (auto simp: backend_phases_def)

section \<open>Properties\<close>

text \<open>C13. Concurrent statements: take any order of the SQL statements of concurrent requests and purges, with
  other statements between the read and the write of an update, on a database whose rows can
  be read, and with ids never drawn twice. The database ends up as if every call had been executed at
  once, an update at the moment of its write. So a session keeps its subject, and a session
  that was deleted stays deleted, even when an update of it had been half way.\<close>

theorem statements_linearize:
  assumes "backend_phases c I rd wr" "cipher_correct c" "ids st \<subseteq> dom (stored c st)"
    and "distinct (drawn_ids xs)" "set (drawn_ids xs) \<inter> ids st = {}"
    and "s = \<lparr>db_state = st, pending = Map.empty\<rparr>"
  shows "db_state (stmts_exec I rd wr xs s) = run_calls I (atomic_calls I rd wr xs s) st \<and>
    (\<forall>sid d d'. stored c st sid = Some d \<and> stored c (db_state (stmts_exec I rd wr xs s)) sid = Some d' \<longrightarrow>
       Subject d' = Subject d) \<and>
    (\<forall>ys env sid zs. xs = ys @ StmtDelete env sid # zs \<and> sid \<notin> set (drawn_ids zs) \<and>
       fst (Delete I env sid (db_state (stmts_exec I rd wr ys s))) = Inr () \<longrightarrow>
       sid \<notin> ids (db_state (stmts_exec I rd wr xs s)))"
proof -
  obtain no_rows where S: "two_phase_store I (stored c) ids conn_open no_rows (cipher_correct c) rd wr
      (\<lambda>env. encryptArgs c (env_nonces env))"
    using assms(1) by (rule backend_phases_store)
  then have S': "session_store I (stored c) ids conn_open no_rows (cipher_correct c)"
    by (rule two_phase_store.axioms)
  have c0: "two_phase_store.consistent (stored c) ids (\<lambda>env. encryptArgs c (env_nonces env)) (ids st) s"
    using assms(3,6) by (simp add: two_phase_store.consistent_def [OF S])
  have lin: "db_state (stmts_exec I rd wr xs s) = run_calls I (atomic_calls I rd wr xs s) st"
    using two_phase_store.schedule_linearizes [OF S assms(2) c0 assms(4,5)] assms(6) by simp
  moreover have "Subject d' = Subject d"
    if d: "stored c st sid = Some d" "stored c (db_state (stmts_exec I rd wr xs s)) sid = Some d'" for sid d d'
  proof -
    have "sid \<in> ids st" using d(1) by (rule stored_ids)
    with assms(5) have "Some sid \<notin> uuid_of_call ` set (atomic_calls I rd wr xs s)"
      by (intro atomic_calls_ids) auto
    then show ?thesis by (rule session_store.subject_stable [OF S' d(1) _ d(2) [unfolded lin]])
  qed
  moreover have "sid \<notin> ids (db_state (stmts_exec I rd wr xs s))"
    if "xs = ys @ StmtDelete env sid # zs" "sid \<notin> set (drawn_ids zs)"
      "fst (Delete I env sid (db_state (stmts_exec I rd wr ys s))) = Inr ()" for ys env sid zs
    using two_phase_store.deleted_stays_gone [OF S assms(2) c0, of ys zs sid env] assms(4,5) that(2,3)
    unfolding that(1) by simp
  ultimately show ?thesis by blast
qed

text \<open>A logout between the two halves of a renewal.\<close>

definition ex_schedule :: "stmt list" where
  "ex_schedule =
     [StmtAdd (ex_db_env ''uuid-1'') (ex_data 2000), BeginUpdate 1 (ex_db_env []) ''uuid-0'' ex_new_data,
      StmtDelete (ex_db_env []) ''uuid-0'', FinishUpdate 1]"

theorem statements_linearize_witness:
  "''uuid-0'' \<notin> ids (db_state (stmts_exec (sqlite_impl None) (sqlite_Update_read None) sqlite_Update_write
     ex_schedule \<lparr>db_state = ex_store 500, pending = Map.empty\<rparr>))"
proof -
  let ?s = "\<lparr>db_state = ex_store 500, pending = Map.empty\<rparr>"
  let ?ys = "[StmtAdd (ex_db_env ''uuid-1'') (ex_data 2000), BeginUpdate 1 (ex_db_env []) ''uuid-0'' ex_new_data]"
  have hyps: "backend_phases None (sqlite_impl None) (sqlite_Update_read None) sqlite_Update_write" "cipher_correct None"
      "ids (ex_store 500) \<subseteq> dom (stored None (ex_store 500))" "distinct (drawn_ids ex_schedule)"
      "set (drawn_ids ex_schedule) \<inter> ids (ex_store 500) = {}"
    by (simp_all add: backend_phases_def cipher_correct_def ex_schedule_def) auto
  have "conn_open (snd (sqlite_Add None env d (ex_store 500)))" for env d
    by (auto simp: sqlite_Add_def Let_def exec_def split: sum.splits option.splits)
  then have "conn_open (db_state (stmts_exec (sqlite_impl None) (sqlite_Update_read None) sqlite_Update_write ?ys ?s))"
    by (simp split: sum.splits)
  then have "fst (Delete (sqlite_impl None) (ex_db_env []) ''uuid-0'' (db_state (stmts_exec (sqlite_impl None)
      (sqlite_Update_read None) sqlite_Update_write ?ys ?s))) = Inr ()"
    by (simp add: sqlite_Delete_def exec_def sql_delete_def del: stmts_exec_simps)
  moreover have "ex_schedule = ?ys @ StmtDelete (ex_db_env []) ''uuid-0'' # [FinishUpdate 1]"
      "''uuid-0'' \<notin> set (drawn_ids [FinishUpdate 1])"
    by (simp_all add: ex_schedule_def)
  ultimately show ?thesis using statements_linearize [OF hyps refl] by blast
qed

end
