(* ===== verification/Token_Secrecy.thy ===== *)
theory Token_Secrecy
  imports System
begin

text \<open>
  The tokens stay on the server. The access and the refresh token of a session are the secrets
  that the program keeps away from the browser: what a client is sent, and what the request
  logger records, must not depend on them. This is stated as a comparison of two runs of the
  program that differ by a renaming of the tokens: wherever the provider hands out a token
  \<open>x\<close> in the first run, it hands out \<open>f x\<close> in the second. The contract that a back end has to
  keep for this, the locale \<open>renaming_store\<close>, is interpreted by both back ends.
\<close>

section \<open>Renaming tokens\<close>

definition rename_data :: "(string \<Rightarrow> string) \<Rightarrow> session_data \<Rightarrow> session_data" where
  "rename_data f d = d\<lparr>AccessToken := f (AccessToken d), RefreshToken := f (RefreshToken d)\<rparr>"

definition rename_token :: "(string \<Rightarrow> string) \<Rightarrow> oauth_token \<Rightarrow> oauth_token" where
  "rename_token f t = t\<lparr>tok_AccessToken := f (tok_AccessToken t), tok_RefreshToken := f (tok_RefreshToken t)\<rparr>"

definition rename_session :: "(string \<Rightarrow> string) \<Rightarrow> 's session \<Rightarrow> 's session" where
  "rename_session f s = s\<lparr>sess_data := rename_data f (sess_data s)\<rparr>"

text \<open>A token is replaced by a token: the table refuses empty ones.\<close>

definition keeps_empty :: "(string \<Rightarrow> string) \<Rightarrow> bool" where
  "keeps_empty f \<longleftrightarrow> (\<forall>x. f x = [] \<longleftrightarrow> x = [])"

text \<open>
  The surroundings of the second run: the provider behaves on the renamed tokens as in the
  first run on the original ones. All else, the clock and the random bytes included, is equal.
\<close>

definition env_renamed :: "(string \<Rightarrow> string) \<Rightarrow> req_env \<Rightarrow> req_env \<Rightarrow> bool" where
  "env_renamed f e e' \<longleftrightarrow>
     e' = e\<lparr>Exchange := Exchange e', RefreshGrant := RefreshGrant e', client_Get := client_Get e'\<rparr> \<and>
     (\<forall>c code. Exchange e' c code = map_sum id (rename_token f) (Exchange e c code)) \<and>
     (\<forall>c x. RefreshGrant e' c (f x) = map_sum id (rename_token f) (RefreshGrant e c x)) \<and>
     (\<forall>c x u. client_Get e' c (f x) u = client_Get e c x u)"

text \<open>The back ends behind the proxy answer a request with the renamed token as with the original.\<close>

definition incoming_renamed :: "(string \<Rightarrow> string) \<Rightarrow> incoming \<Rightarrow> incoming \<Rightarrow> bool" where
  "incoming_renamed f a a' \<longleftrightarrow>
     a' = a\<lparr>arr_env := arr_env a', arr_transport := arr_transport a'\<rparr> \<and> env_renamed f (arr_env a) (arr_env a') \<and>
     (\<forall>target x. arr_transport a' (outgoing (arr_inject a) target (Some (VString (f x))) (arr_http a)) =
                  arr_transport a (outgoing (arr_inject a) target (Some (VString x)) (arr_http a)))"

fun event_renamed :: "(string \<Rightarrow> string) \<Rightarrow> event \<Rightarrow> event \<Rightarrow> bool" where
  "event_renamed f (Request a) (Request a') \<longleftrightarrow> incoming_renamed f a a'"
| "event_renamed f (Tick env) (Tick env') \<longleftrightarrow> env' = env"
| "event_renamed f _ _ \<longleftrightarrow> False"

text \<open>What the program does in answer to each event: the calls on the response and on the logger.\<close>

fun responses :: "store system \<Rightarrow> event list \<Rightarrow> store \<Rightarrow> hop list list" where
  "responses sys [] st = []"
| "responses sys (Request a # evs) st =
     (case serve_request sys a st of (hops, st') \<Rightarrow> hops # responses sys evs st')"
| "responses sys (Tick env # evs) st = [] # responses sys evs (serve sys (Tick env) st)"

section \<open>What does not look at tokens\<close>

lemma env_renamedD:
  assumes "env_renamed f e e'"
  shows "clock e' = clock e" "timestamp e' = timestamp e" "random_bytes e' = random_bytes e"
    "cookies_lib e' = cookies_lib e" "oidc_lib e' = oidc_lib e" "AuthCodeURL e' = AuthCodeURL e"
    "db_read e' = db_read e" "db_write e' = db_write e"
    "Exchange e' c code = map_sum id (rename_token f) (Exchange e c code)"
    "RefreshGrant e' c (f x) = map_sum id (rename_token f) (RefreshGrant e c x)"
    "client_Get e' c (f x) u = client_Get e c x u"
proof -
  have e': "e' = e\<lparr>Exchange := Exchange e', RefreshGrant := RefreshGrant e', client_Get := client_Get e'\<rparr>"
    using assms by (simp add: env_renamed_def)
  show "clock e' = clock e" "timestamp e' = timestamp e" "random_bytes e' = random_bytes e"
    "cookies_lib e' = cookies_lib e" "oidc_lib e' = oidc_lib e" "AuthCodeURL e' = AuthCodeURL e"
    "db_read e' = db_read e" "db_write e' = db_write e"
    by (subst e', simp)+
qed (use assms in \<open>simp_all add: env_renamed_def\<close>)

lemma rename_simps [simp]:
  "AccessToken (rename_data f d) = f (AccessToken d)" "RefreshToken (rename_data f d) = f (RefreshToken d)"
  "Subject (rename_data f d) = Subject d" "IDToken (rename_data f d) = IDToken d" "ExpiresAt (rename_data f d) = ExpiresAt d"
  "IsExpired now (rename_data f d) = IsExpired now d"
  "sess_data (rename_session f s) = rename_data f (sess_data s)" "sess_cookie (rename_session f s) = sess_cookie s"
  "sess_impl (rename_session f s) = sess_impl s" "sess_oidc (rename_session f s) = sess_oidc s"
  "sess_timeout (rename_session f s) = sess_timeout s" "getState (rename_session f s) = getState s"
  by (simp_all add: rename_data_def rename_session_def IsExpired_def getState_def)

lemma rename_session_upd [simp]:
  "(rename_session f z)\<lparr>sess_data := rename_data f d\<rparr> = rename_session f (z\<lparr>sess_data := d\<rparr>)"
  by (simp add: rename_session_def)

lemma rename_empty: "keeps_empty f \<Longrightarrow> rename_data f empty_session_data = empty_session_data"
  by (simp add: rename_data_def empty_session_data_def keeps_empty_def)

lemma newData_renamed:
  "env_renamed f e e' \<Longrightarrow>
     newData e' (rename_token f t) (rename_session f s) = map_sum id (rename_data f) (newData e t s)"
  by (simp add: newData_def env_renamedD GetIdToken_def rename_token_def rename_data_def
      split: option.splits sum.splits)

lemma save_cookie_renamed: "env_renamed f e e' \<Longrightarrow> save_cookie e' g = save_cookie e g"
  by (simp add: save_cookie_def env_renamedD)

lemma saveSession_renamed:
  "env_renamed f e e' \<Longrightarrow> saveSession e' sid (rename_session f s) = map_prod id (rename_session f) (saveSession e sid s)"
  by (simp add: saveSession_def Let_def save_cookie_renamed rename_session_def)

lemma reply_error_renamed: "env_renamed f e e' \<Longrightarrow> reply_error e' = reply_error e"
  by (simp add: reply_error_def env_renamedD fun_eq_iff)

lemma NewSession_renamed:
  "env_renamed f e e' \<Longrightarrow> keeps_empty f \<Longrightarrow>
     NewSession e' m c r = NewSession e m c r \<and> map_sum id (rename_session f) (NewSession e m c r) = NewSession e m c r"
  by (auto simp: NewSession_def env_renamedD rename_session_def session_for_def rename_empty
      split: prod.splits option.splits)

lemma LoginHandlerOidc_renamed: "env_renamed f e e' \<Longrightarrow> LoginHandlerOidc e' m c r = LoginHandlerOidc e m c r"
  by (simp add: LoginHandlerOidc_def Let_def NewSession_def env_renamedD reply_error_renamed generateOAuthState_def
      saveState_def save_cookie_renamed split: sum.splits prod.splits option.splits)

section \<open>The contract\<close>

locale renaming_store = session_store I view known ready no_rows reliable
  for I :: "'s session_impl"
    and view :: "'s \<Rightarrow> session_map"
    and known :: "'s \<Rightarrow> string set"
    and ready :: "'s \<Rightarrow> bool"
    and no_rows :: go_error
    and reliable :: bool +
  fixes f :: "string \<Rightarrow> string"
    and same :: "'s \<Rightarrow> 's \<Rightarrow> bool"
    and tame :: bool
  assumes tame_f: "tame \<Longrightarrow> keeps_empty f"
    and Get_same: "tame \<Longrightarrow> same s t \<Longrightarrow> Get I env sid t = map_sum id (rename_data f) (Get I env sid s)"
    and Add_same: "tame \<Longrightarrow> same s t \<Longrightarrow> rel_prod (=) same (Add I env d s) (Add I env (rename_data f d) t)"
    and Update_same: "tame \<Longrightarrow> same s t \<Longrightarrow>
          rel_prod (=) same (Update I env sid d s) (Update I env sid (rename_data f d) t)"
    and Delete_same: "tame \<Longrightarrow> same s t \<Longrightarrow> rel_prod (=) same (Delete I env sid s) (Delete I env sid t)"
    and Purge_same: "tame \<Longrightarrow> same s t \<Longrightarrow> rel_prod (=) same (Purge I env s) (Purge I env t)"
begin

lemma GetSession_same:
  assumes tame "same s t" "env_renamed f e e'" "m_impl m = I"
  shows "GetSession e' m c r t = map_sum id (rename_session f) (GetSession e m c r s)"
  using assms(4) Get_same [OF assms(1,2)] tame_f [OF assms(1)]
  by (simp add: GetSession_def Let_def dataFromDB_def env_renamedD [OF assms(3)] rename_session_def rename_empty
      session_for_def split: prod.splits option.splits sum.splits)

text \<open>The three operations on a session: the same error and the same calls, matching sessions and databases.\<close>

definition outcomes_match :: "'s outcome \<Rightarrow> 's outcome \<Rightarrow> bool" where
  "outcomes_match x y \<longleftrightarrow> rel_prod (=) (rel_prod (\<lambda>z z'. z' = rename_session f z) same) x y"

lemma Session_Save_same:
  assumes tame "same s t" "env_renamed f e e'" "sess_impl z = I"
  shows "outcomes_match (Session_Save e tok z s) (Session_Save e' (rename_token f tok) (rename_session f z) t)"
proof (cases "newData e tok z")
  case (Inl err)
  with newData_renamed [OF assms(3), of tok z] assms(2) tame_f [OF assms(1)] show ?thesis
    by (simp add: Session_Save_def outcomes_match_def rename_session_def rename_empty)
next
  case (Inr d)
  obtain res s' res' t' where R: "Add I (db_write e) d s = (res, s')" "Add I (db_write e) (rename_data f d) t = (res', t')"
    by fastforce
  with Add_same [OF assms(1,2), of "db_write e" d] have "res' = res" "same s' t'" by simp_all
  then show ?thesis
    using Inr R newData_renamed [OF assms(3), of tok z] assms(4)
    by (cases res) (simp_all add: Session_Save_def outcomes_match_def Let_def env_renamedD [OF assms(3)]
        saveSession_renamed [OF assms(3)] case_prod_beta rel_prod_sel)
qed

lemma Session_Update_same:
  assumes tame "same s t" "env_renamed f e e'" "sess_impl z = I"
  shows "outcomes_match (Session_Update e tok z s) (Session_Update e' (rename_token f tok) (rename_session f z) t)"
proof (cases "newData e tok z")
  case (Inl err)
  with newData_renamed [OF assms(3), of tok z] assms(2) tame_f [OF assms(1)] show ?thesis
    by (simp add: Session_Update_def outcomes_match_def rename_session_def rename_empty)
next
  case (Inr d)
  show ?thesis
  proof (cases "cookie_id (sess_cookie z)")
    case None
    with Inr newData_renamed [OF assms(3), of tok z] assms(2) show ?thesis
      by (simp add: Session_Update_def outcomes_match_def)
  next
    case (Some sid)
    obtain res s' res' t' where R: "Update I (db_write e) sid d s = (res, s')"
        "Update I (db_write e) sid (rename_data f d) t = (res', t')"
      by fastforce
    with Update_same [OF assms(1,2), of "db_write e" sid d] have "res' = res" "same s' t'" by simp_all
    then show ?thesis
      using Inr Some R newData_renamed [OF assms(3), of tok z] assms(4)
      by (cases res) (simp_all add: Session_Update_def outcomes_match_def Let_def env_renamedD [OF assms(3)]
          saveSession_renamed [OF assms(3)] case_prod_beta rel_prod_sel)
  qed
qed

lemma Session_Delete_same:
  assumes tame "same s t" "env_renamed f e e'" "sess_impl z = I"
  shows "outcomes_match (Session_Delete e z s) (Session_Delete e' (rename_session f z) t)"
proof (cases "cookie_id (sess_cookie z)")
  case None
  with assms(2) show ?thesis by (simp add: Session_Delete_def outcomes_match_def)
next
  case (Some sid)
  obtain res s' res' t' where R: "Delete I (db_write e) sid s = (res, s')" "Delete I (db_write e) sid t = (res', t')"
    by fastforce
  with Delete_same [OF assms(1,2), of "db_write e" sid] have "res' = res" "same s' t'" by simp_all
  then show ?thesis
    using Some R assms(4)
    by (cases res) (simp_all add: Session_Delete_def outcomes_match_def Let_def env_renamedD [OF assms(3)]
        save_cookie_renamed [OF assms(3)] rename_session_def)
qed

lemma outcomes_matchE:
  assumes "outcomes_match x y"
  obtains err hops z s t where "x = ((err, hops), z, s)" "y = ((err, hops), rename_session f z, t)" "same s t"
  using assms by (cases x; cases y) (auto simp: outcomes_match_def rel_prod_conv)

lemma CallbackHandlerOidc_same:
  assumes tame "same s t" "env_renamed f e e'" "m_impl m = I"
  shows "rel_prod (=) same (CallbackHandlerOidc e m c uri r s) (CallbackHandlerOidc e' m c uri r t)"
proof (cases "GetSession e m c r s")
  case (Inl err)
  with GetSession_same [OF assms] assms(2) show ?thesis
    by (simp add: CallbackHandlerOidc_def reply_error_renamed [OF assms(3)])
next
  case session: (Inr session)
  note defs = CallbackHandlerOidc_def Let_def session GetSession_same [OF assms]
    reply_error_renamed [OF assms(3)] env_renamedD [OF assms(3)]
  note new = NewSession_renamed [OF assms(3) tame_f [OF assms(1)], of m c r]
  show ?thesis
  proof (cases "getState session = query_value r sessionStateName")
    case False
    with assms(2) show ?thesis by (simp add: defs)
  next
    case state: True
    show ?thesis
    proof (cases "Exchange e c (form_value r ''code'')")
      case (Inl err)
      with assms(2) state show ?thesis by (simp add: defs)
    next
      case tok: (Inr tok)
      show ?thesis
      proof (cases "NewSession e m c r")
        case (Inl err)
        with assms(2) state tok new show ?thesis by (simp add: defs)
      next
        case z: (Inr z)
        with new have "rename_session f z = z" by simp
        moreover have "sess_impl z = I" using z assms(4) by (auto simp: NewSession_def split: prod.splits option.splits)
        ultimately have "outcomes_match (Session_Save e tok z s) (Session_Save e' (rename_token f tok) z t)"
          using Session_Save_same [OF assms(1-3), of z tok] by simp
        then show ?thesis
          by (rule outcomes_matchE) (use state tok z new in \<open>auto simp: defs split: option.splits\<close>)
      qed
    qed
  qed
qed

lemma LogoutHandlerOidc_same:
  assumes tame "same s t" "env_renamed f e e'" "m_impl m = I"
  shows "rel_prod (=) same (LogoutHandlerOidc e m c uri r s) (LogoutHandlerOidc e' m c uri r t)"
proof (cases "GetSession e m c r s")
  case (Inl err)
  with GetSession_same [OF assms] assms(2) show ?thesis
    by (simp add: LogoutHandlerOidc_def reply_error_renamed [OF assms(3)])
next
  case (Inr z)
  note session = this
  have "sess_impl z = I" using session assms(4)
    by (cases rule: GetSession_cases [of e m r c s]) auto
  from Session_Delete_same [OF assms(1-3) this] show ?thesis
    by (rule outcomes_matchE) (use session GetSession_same [OF assms] in
      \<open>auto simp: LogoutHandlerOidc_def reply_error_renamed [OF assms(3)] split: option.splits\<close>)
qed

lemma AuthenticationMiddleware_same:
  assumes tame "same s t" "env_renamed f e e'" "m_impl m = I"
    and next_same: "\<And>x s t. same s t \<Longrightarrow> rel_prod (=) same (nxt x s) (nxt' (f x) t)"
  shows "rel_prod (=) same (AuthenticationMiddleware e m c nxt r s) (AuthenticationMiddleware e' m c nxt' r t)"
proof (cases "GetSession e m c r s")
  case (Inl err)
  with GetSession_same [OF assms(1-4)] assms(2) show ?thesis
    by (simp add: AuthenticationMiddleware_def reply_error_renamed [OF assms(3)])
next
  case session: (Inr z)
  note defs = AuthenticationMiddleware_def session GetSession_same [OF assms(1-4)]
    reply_error_renamed [OF assms(3)] env_renamedD [OF assms(3)]
  have impl: "sess_impl z = I" using session assms(4)
    by (cases rule: GetSession_cases [of e m r c s]) auto
  show ?thesis
  proof (cases "IsExpired (clock e) (sess_data z)")
    case False
    with next_same [OF assms(2), of "AccessToken (sess_data z)"] show ?thesis
      by (auto simp: defs rel_prod_sel case_prod_beta)
  next
    case expired: True
    show ?thesis
    proof (cases "RefreshGrant e c (RefreshToken (sess_data z))")
      case (Inl err)
      with expired assms(2) show ?thesis by (simp add: defs)
    next
      case tok: (Inr tok)
      from Session_Update_same [OF assms(1-3) impl, of tok] show ?thesis
        by (rule outcomes_matchE) (use expired tok next_same in
          \<open>auto simp: defs rel_prod_sel case_prod_beta split: option.splits\<close>)
    qed
  qed
qed

end

section \<open>Both back ends\<close>

text \<open>A cipher that works on every token, with ciphertexts that are never empty.\<close>

definition total_cipher :: "cipher option \<Rightarrow> bool" where
  "total_cipher c \<longleftrightarrow> cipher_correct c \<and>
     (case c of None \<Rightarrow> True | Some k \<Rightarrow> (\<forall>n p. \<exists>x. EncryptToHexString k n p = Inr x \<and> x \<noteq> []))"

definition row_renamed :: "cipher option \<Rightarrow> (string \<Rightarrow> string) \<Rightarrow> sql_row \<Rightarrow> sql_row \<Rightarrow> bool" where
  "row_renamed c f row row' \<longleftrightarrow>
     (\<exists>d. decryptArgs c (data_of row) = Inr d \<and> decryptArgs c (data_of row') = Inr (rename_data f d))"

definition tables_renamed :: "cipher option \<Rightarrow> (string \<Rightarrow> string) \<Rightarrow> sessions_table \<Rightarrow> sessions_table \<Rightarrow> bool" where
  "tables_renamed c f t t' \<longleftrightarrow> (\<forall>sid. rel_option (row_renamed c f) (t sid) (t' sid))"

definition stores_renamed :: "cipher option \<Rightarrow> (string \<Rightarrow> string) \<Rightarrow> store \<Rightarrow> store \<Rightarrow> bool" where
  "stores_renamed c f st st' \<longleftrightarrow> conn_open st' = conn_open st \<and> tables_renamed c f (table st) (table st')"

text \<open>What the constraints of the tables see of encrypted data.\<close>

definition looks_alike :: "session_data \<Rightarrow> session_data \<Rightarrow> bool" where
  "looks_alike e e' \<longleftrightarrow>
     Subject e' = Subject e \<and> IDToken e' = IDToken e \<and> ExpiresAt e' = ExpiresAt e \<and>
     (AccessToken e' = [] \<longleftrightarrow> AccessToken e = []) \<and> (RefreshToken e' = [] \<longleftrightarrow> RefreshToken e = [])"

lemma encrypt_renamed:
  assumes "total_cipher c" "keeps_empty f"
  obtains e e' where "encryptArgs c ns d = Inr e" "encryptArgs c ns (rename_data f d) = Inr e'"
    "looks_alike e e'" "row_renamed c f (row_of e) (row_of e')"
proof -
  have "\<exists>e e'. encryptArgs c ns d = Inr e \<and> encryptArgs c ns (rename_data f d) = Inr e' \<and> looks_alike e e'"
  proof (cases c)
    case None
    with assms(2) show ?thesis by (simp add: encryptArgs_def looks_alike_def keeps_empty_def)
  next
    case (Some k)
    with assms(1) have enc: "\<exists>x. EncryptToHexString k n p = Inr x \<and> x \<noteq> []" for n p by (simp add: total_cipher_def)
    obtain a r i a' r' where "EncryptToHexString k (nonce_access ns) (AccessToken d) = Inr a" "a \<noteq> []"
      "EncryptToHexString k (nonce_refresh ns) (RefreshToken d) = Inr r" "r \<noteq> []"
      "EncryptToHexString k (nonce_id ns) (IDToken d) = Inr i"
      "EncryptToHexString k (nonce_access ns) (f (AccessToken d)) = Inr a'" "a' \<noteq> []"
      "EncryptToHexString k (nonce_refresh ns) (f (RefreshToken d)) = Inr r'" "r' \<noteq> []"
      using enc by metis
    then show ?thesis by (simp add: Some encryptArgs_def looks_alike_def)
  qed
  then obtain e e' where e: "encryptArgs c ns d = Inr e" "encryptArgs c ns (rename_data f d) = Inr e'" "looks_alike e e'"
    by blast
  have "cipher_correct c" using assms(1) by (simp add: total_cipher_def)
  from decrypt_row_of_encrypted [OF this e(1)] decrypt_row_of_encrypted [OF this e(2)]
  have "row_renamed c f (row_of e) (row_of e')"
    by (simp add: row_renamed_def store_precision_def rename_data_def)
  with e that show thesis by blast
qed

lemma checks_alike:
  assumes "looks_alike e e'"
  shows "sqlite_row_check sid (row_of e') = sqlite_row_check sid (row_of e)"
    "postgresql_row_check sid (row_of e') = postgresql_row_check sid (row_of e)"
  using assms by (simp_all add: looks_alike_def sqlite_row_check_def postgresql_row_check_def row_of_def)

text \<open>Statements on matching tables.\<close>

lemma row_renamed_expiry: "row_renamed c f row row' \<Longrightarrow> row_expires_at row' = row_expires_at row"
  by (auto simp: row_renamed_def data_of_def from_unix_def second_def dest!: decryptArgs_keeps)

lemma insert_same:
  assumes "tables_renamed c f t t'" "row_renamed c f row row'" "check sid row' = check sid row"
  shows "rel_sum (=) (tables_renamed c f) (sql_insert check sid row t) (sql_insert check sid row' t')"
proof -
  have "t' sid = None \<longleftrightarrow> t sid = None" using assms(1) by (metis tables_renamed_def rel_option_None1 rel_option_None2)
  with assms show ?thesis by (auto simp: sql_insert_def tables_renamed_def split: option.splits)
qed

lemma update_same:
  assumes "tables_renamed c f t t'" "row_renamed c f row row'" "check sid row' = check sid row"
  shows "rel_sum (=) (tables_renamed c f) (sql_update check sid row t) (sql_update check sid row' t')"
proof -
  have "t' sid = None \<longleftrightarrow> t sid = None" using assms(1) by (metis tables_renamed_def rel_option_None1 rel_option_None2)
  with assms show ?thesis by (auto simp: sql_update_def tables_renamed_def split: option.splits)
qed

lemma delete_same:
  "tables_renamed c f t t' \<Longrightarrow> rel_sum (=) (tables_renamed c f) (sql_delete sid t) (sql_delete sid t')"
  by (simp add: sql_delete_def tables_renamed_def)

lemma purge_same:
  assumes "tables_renamed c f t t'"
  shows "rel_sum (=) (tables_renamed c f) (sql_purge now t) (sql_purge now t')"
proof -
  have "rel_option (row_renamed c f) (case t sid of None \<Rightarrow> None | Some row \<Rightarrow> if row_expires_at row < now then None else Some row)
      (case t' sid of None \<Rightarrow> None | Some row \<Rightarrow> if row_expires_at row < now then None else Some row)" for sid
    using assms [unfolded tables_renamed_def, THEN spec, of sid] row_renamed_expiry
    by (cases "t sid"; cases "t' sid") auto
  then show ?thesis by (simp add: sql_purge_def tables_renamed_def)
qed

lemma bind_same:
  "rel_sum (=) R (stmt t) (stmt' t') \<Longrightarrow> rel_sum (=) R (bind_int4 n stmt t) (bind_int4 n stmt' t')"
  by (simp add: bind_int4_def)

lemma exec_same:
  assumes "stores_renamed c f st st'" "rel_sum (=) (tables_renamed c f) (stmt (table st)) (stmt' (table st'))"
  shows "rel_prod (=) (stores_renamed c f) (exec ce ft stmt st) (exec ce ft stmt' st')"
  using assms by (cases "stmt (table st)"; cases "stmt' (table st')")
    (auto simp: exec_def stores_renamed_def split: option.splits)

lemma query_row_same:
  assumes "stores_renamed c f st st'"
  shows "rel_sum (=) (row_renamed c f) (query_row ce nr ft sid st) (query_row ce nr ft sid st')"
proof -
  have "rel_option (row_renamed c f) (table st sid) (table st' sid)" "conn_open st' = conn_open st"
    using assms by (simp_all add: stores_renamed_def tables_renamed_def)
  then show ?thesis
    by (cases "table st sid"; cases "table st' sid") (auto simp: query_row_def sql_select_def split: option.splits)
qed

text \<open>The operations of both back ends.\<close>

lemma Get_renamed:
  assumes "stores_renamed c f st st'"
  shows "sqlite_Get c ft sid st' = map_sum id (rename_data f) (sqlite_Get c ft sid st)"
    "postgresql_Get c ft sid st' = map_sum id (rename_data f) (postgresql_Get c ft sid st)"
proof -
  have "(case x' of Inl err \<Rightarrow> Inl err | Inr row \<Rightarrow> decryptArgs c (data_of row)) =
      map_sum id (rename_data f) (case x of Inl err \<Rightarrow> Inl err | Inr row \<Rightarrow> decryptArgs c (data_of row))"
    if "rel_sum (=) (row_renamed c f) x x'" for x x'
    using that by cases (auto simp: row_renamed_def)
  from this [OF query_row_same [OF assms]]
  show "sqlite_Get c ft sid st' = map_sum id (rename_data f) (sqlite_Get c ft sid st)"
    "postgresql_Get c ft sid st' = map_sum id (rename_data f) (postgresql_Get c ft sid st)"
    by (simp_all add: sqlite_Get_def postgresql_Get_def)
qed

lemma exec_result_same:
  assumes "rel_prod (=) R x x'"
  shows "rel_prod (=) R (case x of (Inl e, s) \<Rightarrow> (Inl e, s) | (Inr _, s) \<Rightarrow> (Inr v, s))
    (case x' of (Inl e, s) \<Rightarrow> (Inl e, s) | (Inr _, s) \<Rightarrow> (Inr v, s))"
  using assms by (cases x; cases x') (auto split: sum.splits)

lemma stores_insert:
  assumes "stores_renamed c f s t" "looks_alike e e'" "row_renamed c f (row_of e) (row_of e')"
  shows "rel_prod (=) (stores_renamed c f) (exec ce ft (sql_insert sqlite_row_check sid (row_of e)) s)
      (exec ce ft (sql_insert sqlite_row_check sid (row_of e')) t)"
    "rel_prod (=) (stores_renamed c f) (exec ce ft (bind_int4 n (sql_insert postgresql_row_check sid (row_of e))) s)
      (exec ce ft (bind_int4 n (sql_insert postgresql_row_check sid (row_of e'))) t)"
  using assms by (auto intro!: exec_same bind_same insert_same simp: checks_alike stores_renamed_def)

lemma stores_update:
  assumes "stores_renamed c f s t" "looks_alike e e'" "row_renamed c f (row_of e) (row_of e')"
  shows "rel_prod (=) (stores_renamed c f) (exec ce ft (sql_update sqlite_row_check sid (row_of e)) s)
      (exec ce ft (sql_update sqlite_row_check sid (row_of e')) t)"
    "rel_prod (=) (stores_renamed c f) (exec ce ft (bind_int4 n (sql_update postgresql_row_check sid (row_of e))) s)
      (exec ce ft (bind_int4 n (sql_update postgresql_row_check sid (row_of e'))) t)"
  using assms by (auto intro!: exec_same bind_same update_same simp: checks_alike stores_renamed_def)

lemma sqlite_Add_same:
  assumes "stores_renamed c f s t" "total_cipher c" "keeps_empty f"
  shows "rel_prod (=) (stores_renamed c f) (sqlite_Add c env d s) (sqlite_Add c env (rename_data f d) t)"
proof (rule encrypt_renamed [OF assms(2,3), of "env_nonces env" d])
  fix e e'
  assume e: "encryptArgs c (env_nonces env) d = Inr e" "encryptArgs c (env_nonces env) (rename_data f d) = Inr e'"
    "looks_alike e e'" "row_renamed c f (row_of e) (row_of e')"
  from stores_insert(1) [OF assms(1) e(3,4)]
  show ?thesis by (simp add: sqlite_Add_def Let_def e(1,2) exec_result_same)
qed

lemma postgresql_Add_same:
  assumes "stores_renamed c f s t" "total_cipher c" "keeps_empty f"
  shows "rel_prod (=) (stores_renamed c f) (postgresql_Add c env d s) (postgresql_Add c env (rename_data f d) t)"
proof (rule encrypt_renamed [OF assms(2,3), of "env_nonces env" d])
  fix e e'
  assume e: "encryptArgs c (env_nonces env) d = Inr e" "encryptArgs c (env_nonces env) (rename_data f d) = Inr e'"
    "looks_alike e e'" "row_renamed c f (row_of e) (row_of e')"
  from stores_insert(2) [OF assms(1) e(3,4)]
  show ?thesis using e(3) by (simp add: postgresql_Add_def Let_def e(1,2) exec_result_same looks_alike_def)
qed

lemma sqlite_Update_same:
  assumes "stores_renamed c f s t" "total_cipher c" "keeps_empty f"
  shows "rel_prod (=) (stores_renamed c f) (sqlite_Update c env sid d s) (sqlite_Update c env sid (rename_data f d) t)"
proof (rule encrypt_renamed [OF assms(2,3), of "env_nonces env" d])
  fix e e'
  assume e: "encryptArgs c (env_nonces env) d = Inr e" "encryptArgs c (env_nonces env) (rename_data f d) = Inr e'"
    "looks_alike e e'" "row_renamed c f (row_of e) (row_of e')"
  from stores_update(1) [OF assms(1) e(3,4)]
  have "rel_prod (=) (stores_renamed c f) (sqlite_Update_write env sid e s) (sqlite_Update_write env sid e' t)"
    by (simp add: sqlite_Update_write_def exec_result_same)
  then show ?thesis
    using Get_renamed(1) [OF assms(1)] assms(1) e(1,2)
    by (cases "sqlite_Get c (env_get_fault env) sid s")
       (auto simp: sqlite_Update_def sqlite_Update_read_def)
qed

lemma postgresql_Update_same:
  assumes "stores_renamed c f s t" "total_cipher c" "keeps_empty f"
  shows "rel_prod (=) (stores_renamed c f) (postgresql_Update c env sid d s) (postgresql_Update c env sid (rename_data f d) t)"
proof (rule encrypt_renamed [OF assms(2,3), of "env_nonces env" d])
  fix e e'
  assume e: "encryptArgs c (env_nonces env) d = Inr e" "encryptArgs c (env_nonces env) (rename_data f d) = Inr e'"
    "looks_alike e e'" "row_renamed c f (row_of e) (row_of e')"
  from stores_update(2) [OF assms(1) e(3,4)]
  have "rel_prod (=) (stores_renamed c f) (postgresql_Update_write env sid e s) (postgresql_Update_write env sid e' t)"
    using e(3) by (simp add: postgresql_Update_write_def exec_result_same looks_alike_def)
  then show ?thesis
    using Get_renamed(2) [OF assms(1)] assms(1) e(1,2)
    by (cases "postgresql_Get c (env_get_fault env) sid s")
       (auto simp: postgresql_Update_def postgresql_Update_read_def)
qed

lemma stores_delete:
  "stores_renamed c f s t \<Longrightarrow> rel_prod (=) (stores_renamed c f) (exec ce ft (sql_delete sid) s) (exec ce ft (sql_delete sid) t)"
  by (rule exec_same) (simp_all add: stores_renamed_def delete_same)

lemma stores_purge:
  "stores_renamed c f s t \<Longrightarrow> rel_prod (=) (stores_renamed c f) (exec ce ft (sql_purge now) s) (exec ce ft (sql_purge now) t)"
  "stores_renamed c f s t \<Longrightarrow>
     rel_prod (=) (stores_renamed c f) (exec ce ft (bind_int4 n (sql_purge now)) s) (exec ce ft (bind_int4 n (sql_purge now)) t)"
  by (auto intro!: exec_same bind_same purge_same simp: stores_renamed_def)

interpretation sqlite_renaming: renaming_store "sqlite_impl c" "stored c" ids conn_open SqlErrNoRows "cipher_correct c"
    f "stores_renamed c f" "total_cipher c \<and> keeps_empty f"
  for c :: "cipher option" and f
  by unfold_locales
    (simp_all add: Get_renamed sqlite_Add_same sqlite_Update_same sqlite_Delete_def sqlite_Purge_def Let_def
      exec_result_same stores_delete stores_purge)

interpretation postgresql_renaming: renaming_store "postgresql_impl c" "stored c" ids conn_open PgxErrNoRows "cipher_correct c"
    f "stores_renamed c f" "total_cipher c \<and> keeps_empty f"
  for c :: "cipher option" and f
  by unfold_locales
    (simp_all add: Get_renamed postgresql_Add_same postgresql_Update_same postgresql_Delete_def postgresql_Purge_def Let_def
      exec_result_same stores_delete stores_purge)

lemma backend_renaming:
  assumes "backend c I"
  obtains no_rows where "renaming_store I (stored c) ids conn_open no_rows (cipher_correct c)
    f (stores_renamed c f) (total_cipher c \<and> keeps_empty f)"
  using assms sqlite_renaming.renaming_store_axioms [of c f] postgresql_renaming.renaming_store_axioms [of c f]
  by (auto simp: backend_def)

section \<open>The whole program\<close>

lemma incoming_renamedD:
  assumes "incoming_renamed f a a'"
  shows "arr_request a' = arr_request a" "arr_http a' = arr_http a" "arr_inject a' = arr_inject a"
    "env_renamed f (arr_env a) (arr_env a')"
proof -
  have a': "a' = a\<lparr>arr_env := arr_env a', arr_transport := arr_transport a'\<rparr>"
    using assms by (simp add: incoming_renamed_def)
  show "arr_request a' = arr_request a" "arr_http a' = arr_http a" "arr_inject a' = arr_inject a"
    by (subst a', simp)+
qed (use assms in \<open>simp add: incoming_renamed_def\<close>)

lemma userinfo_renamed:
  assumes "env_renamed f e e'"
  shows "userinfo_inner e' c r (Some (VString (f x))) = userinfo_inner e c r (Some (VString x))"
  by (simp add: userinfo_inner_def as_string_def env_renamedD [OF assms] reply_error_renamed [OF assms]
      split: sum.splits option.splits)

lemma proxy_renamed:
  assumes "incoming_renamed f a a'"
  shows "ProxyRequestHandler (arr_env a') (arr_transport a') (arr_inject a) target (arr_http a) (Some (VString (f x))) =
    ProxyRequestHandler (arr_env a) (arr_transport a) (arr_inject a) target (arr_http a) (Some (VString x))"
proof -
  have "arr_transport a' (outgoing (arr_inject a) target (Some (VString (f x))) (arr_http a)) =
      arr_transport a (outgoing (arr_inject a) target (Some (VString x)) (arr_http a))"
    using assms by (simp add: incoming_renamed_def)
  then show ?thesis
    by (simp add: ProxyRequestHandler_def ErrorHandler_def env_renamedD [OF incoming_renamedD(4) [OF assms]]
        split: sum.splits)
qed

lemma serve_request_same:
  assumes "backend c (m_impl (sys_manager sys))" "total_cipher c" "keeps_empty f"
    and "incoming_renamed f a a'" "stores_renamed c f s t"
  shows "rel_prod (=) (stores_renamed c f) (serve_request sys a s) (serve_request sys a' t)"
proof -
  obtain no_rows where S: "renaming_store (m_impl (sys_manager sys)) (stored c) ids conn_open no_rows (cipher_correct c)
      f (stores_renamed c f) (total_cipher c \<and> keeps_empty f)"
    using assms(1) by (rule backend_renaming)
  have tame: "total_cipher c \<and> keeps_empty f" using assms(2,3) by simp
  note a = incoming_renamedD [OF assms(4)]
  note mid = renaming_store.AuthenticationMiddleware_same [OF S tame assms(5) a(4) refl]
  show ?thesis
    using assms(5)
    by (auto simp: serve_request_def Let_def a UserInfoHandlerOidc_def LoginHandlerOidc_renamed [OF a(4)]
        rootHandler_def reply_error_renamed [OF a(4)] userinfo_renamed [OF a(4)] proxy_renamed [OF assms(4)]
        split: mux_reply.splits option.splits route.splits
        intro!: mid renaming_store.CallbackHandlerOidc_same [OF S tame assms(5) a(4) refl]
          renaming_store.LogoutHandlerOidc_same [OF S tame assms(5) a(4) refl])
qed

lemma responses_same:
  assumes "backend c (m_impl (sys_manager sys))" "total_cipher c" "keeps_empty f"
    and "list_all2 (event_renamed f) evs evs'" "stores_renamed c f s t"
  shows "responses sys evs' t = responses sys evs s"
  using assms(4,5)
proof (induction arbitrary: s t rule: list_all2_induct)
  case (Cons ev evs ev' evs')
  obtain no_rows where S: "renaming_store (m_impl (sys_manager sys)) (stored c) ids conn_open no_rows (cipher_correct c)
      f (stores_renamed c f) (total_cipher c \<and> keeps_empty f)"
    using assms(1) by (rule backend_renaming)
  show ?case
  proof (cases ev)
    case (Request a)
    with Cons.hyps(1) obtain a' where "ev' = Request a'" "incoming_renamed f a a'" by (cases ev') auto
    with serve_request_same [OF assms(1-3) this(2) Cons.prems] Request Cons.IH show ?thesis
      by (auto simp: rel_prod_sel split: prod.splits)
  next
    case (Tick env)
    with Cons.hyps(1) have "ev' = Tick env" by (cases ev') auto
    with Tick Cons.IH renaming_store.Purge_same [OF S _ Cons.prems, of env] assms(2,3) show ?thesis
      by (simp add: serve_def rel_prod_sel)
  qed
qed simp

section \<open>Properties\<close>

text \<open>C2. Tokens stay on the server. Run the program twice on the same requests and purges, from an empty
  database, where in the second run the provider hands out \<open>f x\<close> for every access or refresh
  token \<open>x\<close> of the first and treats it alike. Then every response is the same in both runs, to
  the last byte, cookies included, and so is everything the request logger is told: neither the
  browser nor the log learns anything of an access or refresh token.\<close>

theorem tokens_stay_on_server:
  assumes "backend c (m_impl (sys_manager sys))" "total_cipher c" "keeps_empty f"
    and "list_all2 (event_renamed f) evs evs'"
  shows "responses sys evs' \<lparr>table = Map.empty, conn_open = True\<rparr> = responses sys evs \<lparr>table = Map.empty, conn_open = True\<rparr>"
  by (rule responses_same [OF assms]) (simp add: stores_renamed_def tables_renamed_def)

text \<open>A login at the example's provider, and at one that puts a letter in front of its tokens.\<close>

definition ex_rename :: "string \<Rightarrow> string" where
  "ex_rename x = (if x = [] then [] else CHR ''z'' # x)"

definition ex_renamed_env :: req_env where
  "ex_renamed_env = ex_env
     \<lparr>Exchange := (\<lambda>c code. map_sum id (rename_token ex_rename) (Exchange ex_env c code)),
      RefreshGrant := (\<lambda>c x. map_sum id (rename_token ex_rename) (RefreshGrant ex_env c (tl x))),
      client_Get := (\<lambda>c x. client_Get ex_env c (tl x))\<rparr>"

theorem tokens_stay_on_server_witness:
  "responses ex_system [Request (ex_arrival\<lparr>arr_env := ex_renamed_env\<rparr>)] \<lparr>table = Map.empty, conn_open = True\<rparr> =
     responses ex_system [Request ex_arrival] \<lparr>table = Map.empty, conn_open = True\<rparr> \<and>
   Exchange ex_renamed_env ex_config ''code'' \<noteq> Exchange ex_env ex_config ''code''"
proof
  have "tl (ex_rename x) = x" for x by (simp add: ex_rename_def)
  then have "event_renamed ex_rename (Request ex_arrival) (Request (ex_arrival\<lparr>arr_env := ex_renamed_env\<rparr>))"
    by (simp add: incoming_renamed_def ex_arrival_def env_renamed_def ex_renamed_env_def)
  moreover have "keeps_empty ex_rename" by (simp add: keeps_empty_def ex_rename_def)
  ultimately show "responses ex_system [Request (ex_arrival\<lparr>arr_env := ex_renamed_env\<rparr>)] \<lparr>table = Map.empty, conn_open = True\<rparr> =
     responses ex_system [Request ex_arrival] \<lparr>table = Map.empty, conn_open = True\<rparr>"
    by (intro tokens_stay_on_server [of None ex_system ex_rename])
       (simp_all add: ex_system_def total_cipher_def cipher_correct_def)
  show "Exchange ex_renamed_env ex_config ''code'' \<noteq> Exchange ex_env ex_config ''code''"
    by (simp add: ex_renamed_env_def ex_token_def rename_token_def ex_rename_def)
qed

end
