(* ===== verification/Cookie_Policy.thy ===== *)
theory Cookie_Policy
  imports System Startup
begin

text \<open>
  The cookies the program sets. \<open>NewManager\<close> (\<open>sessions/manager.go\<close>) fixes the options of its
  cookie store; every session gets a copy of them from the cookie library, of which the
  operations of \<open>sessions/session.go\<close> only change the maximal age. So every cookie of every
  response has them. What is used of the library \<open>gorilla/sessions\<close>: a session it opens has the name it was
  asked for and the options of its store, and the cookie it writes has those of the session.
\<close>

definition keeps_options :: "cookie_lib \<Rightarrow> bool" where
  "keeps_options lib \<longleftrightarrow>
     (\<forall>store cs name g. (lib_New lib store cs name = (g, None) \<or> lib_Get lib store cs name = (g, None)) \<longrightarrow>
        gs_name g = name \<and> Options g = store_options store) \<and>
     (\<forall>g c. lib_Save lib g = Inr c \<longrightarrow> cookie_name c = gs_name g \<and> cookie_options c = Options g)"

text \<open>The ages a cookie may have: that of a login, that of a session, and the one that deletes it.\<close>

definition cookie_ages :: "'s manager \<Rightarrow> int set" where
  "cookie_ages m = {m_loginTimeout m, go_div (m_sessionTimeout m) second, - 1}"

definition cookie_ok :: "'s manager \<Rightarrow> set_cookie \<Rightarrow> bool" where
  "cookie_ok m c \<longleftrightarrow>
     cookie_name c = m_cookieName m \<and>
     (\<exists>age\<in>cookie_ages m. cookie_options c = (store_options (m_store m))\<lparr>MaxAge := age\<rparr>)"

text \<open>A response with at most one cookie, which is as it should be.\<close>

definition cookies_ok :: "'s manager \<Rightarrow> set_cookie list \<Rightarrow> bool" where
  "cookies_ok m cs \<longleftrightarrow> length cs \<le> 1 \<and> (\<forall>c\<in>set cs. cookie_ok m c)"

lemma cookies_ok_Nil [simp]: "cookies_ok m []"
  by (simp add: cookies_ok_def)

text \<open>Sessions that came from the manager.\<close>

definition session_ok :: "'s manager \<Rightarrow> 's session \<Rightarrow> bool" where
  "session_ok m s \<longleftrightarrow>
     gs_name (sess_cookie s) = m_cookieName m \<and> Options (sess_cookie s) = store_options (m_store m) \<and>
     sess_timeout s = m_sessionTimeout m"

lemma save_cookie_ok:
  assumes "keeps_options (cookies_lib env)" "gs_name g = m_cookieName m"
    and "Options g = (store_options (m_store m))\<lparr>MaxAge := age\<rparr>" "age \<in> cookie_ages m"
    and "save_cookie env g = (e, hops)"
  shows "cookies_ok m (cookies_of hops)"
  using assms by (auto simp: save_cookie_def cookies_ok_def cookie_ok_def keeps_options_def split: sum.splits)

lemma new_session_ok:
  assumes "keeps_options (cookies_lib env)"
  shows "NewSession env m c r = Inr s \<Longrightarrow> session_ok m s"
    and "GetSession env m c r st = Inr s \<Longrightarrow> session_ok m s"
proof -
  show "session_ok m s" if "NewSession env m c r = Inr s"
    using that assms by (auto simp: NewSession_def session_ok_def keeps_options_def split: prod.splits option.splits)
  have "gs_name g = m_cookieName m \<and> Options g = store_options (m_store m)" if "request_cookie env m r = (g, None)" for g
    using that assms by (auto simp: request_cookie_def keeps_options_def)
  then show "session_ok m s" if "GetSession env m c r st = Inr s"
    using that by (cases rule: GetSession_cases [of env m r c st]) (auto simp: session_ok_def)
qed

lemma saveSession_ok:
  assumes "keeps_options (cookies_lib env)" "session_ok m s" "saveSession env sid (s\<lparr>sess_data := d\<rparr>) = ((e, hops), s')"
  shows "cookies_ok m (cookies_of hops)"
proof (rule save_cookie_ok [OF assms(1)])
  let ?g = "sess_cookie (snd (saveSession env sid (s\<lparr>sess_data := d\<rparr>)))"
  show "save_cookie env ?g = (e, hops)" using saveSession_fst [of env sid "s\<lparr>sess_data := d\<rparr>"] assms(3) by simp
  show "gs_name ?g = m_cookieName m" "Options ?g = (store_options (m_store m))\<lparr>MaxAge := go_div (m_sessionTimeout m) second\<rparr>"
    using assms(2) by (simp_all add: saveSession_def Let_def session_ok_def with_max_age_def)
qed (simp add: cookie_ages_def)

lemma Session_ops_ok:
  assumes "keeps_options (cookies_lib env)" "session_ok m s"
  shows "cookies_ok m (cookies_of (snd (fst (Session_Save env tok s st))))"
    and "cookies_ok m (cookies_of (snd (fst (Session_Update env tok s st))))"
    and "cookies_ok m (cookies_of (snd (fst (Session_Delete env s st))))"
proof -
  show "cookies_ok m (cookies_of (snd (fst (Session_Save env tok s st))))"
    using saveSession_ok [OF assms] by (auto simp: Session_Save_def Let_def split: sum.splits prod.splits)
  show "cookies_ok m (cookies_of (snd (fst (Session_Update env tok s st))))"
    using saveSession_ok [OF assms] by (auto simp: Session_Update_def Let_def split: sum.splits prod.splits option.splits)
  let ?g = "with_max_age (- 1) (sess_cookie s)"
  have "cookies_ok m (cookies_of (snd (save_cookie env ?g)))"
    using assms(2)
    by (intro save_cookie_ok [OF assms(1), where age = "- 1", OF _ _ _ surjective_pairing])
       (simp_all add: session_ok_def cookie_ages_def with_max_age_def)
  then show "cookies_ok m (cookies_of (snd (fst (Session_Delete env s st))))"
    by (auto simp: Session_Delete_def Let_def split: sum.splits prod.splits option.splits)
qed

lemma middleware_ok:
  assumes "keeps_options (cookies_lib env)" "\<And>x st. cookies_of (fst (nxt x st)) = []"
  shows "cookies_ok m (cookies_of (fst (AuthenticationMiddleware env m c nxt r st)))"
  using assms(2) Session_ops_ok(2) [OF assms(1) new_session_ok(2) [OF assms(1)]]
  by (auto simp: AuthenticationMiddleware_def case_prod_beta split: sum.splits option.splits)

lemma callback_ok:
  assumes "keeps_options (cookies_lib env)"
  shows "cookies_ok m (cookies_of (fst (CallbackHandlerOidc env m c uri r st)))"
  using Session_ops_ok(1) [OF assms new_session_ok(1) [OF assms]]
  by (auto simp: CallbackHandlerOidc_def Let_def case_prod_beta split: sum.splits option.splits)

lemma logout_ok:
  assumes "keeps_options (cookies_lib env)"
  shows "cookies_ok m (cookies_of (fst (LogoutHandlerOidc env m c uri r st)))"
  using Session_ops_ok(3) [OF assms new_session_ok(2) [OF assms]]
  by (auto simp: LogoutHandlerOidc_def case_prod_beta split: sum.splits option.splits)

lemma login_ok:
  assumes "keeps_options (cookies_lib env)"
  shows "cookies_ok m (cookies_of (LoginHandlerOidc env m c r))"
proof -
  have "cookies_ok m (cookies_of (snd (fst (saveState env state (m_loginTimeout m) s))))"
    if "NewSession env m c r = Inr s" for s state
    using new_session_ok(1) [OF assms that] unfolding saveState_def Let_def fst_conv
    by (intro save_cookie_ok [OF assms, where age = "m_loginTimeout m", OF _ _ _ surjective_pairing])
       (simp_all add: session_ok_def cookie_ages_def with_max_age_def)
  then show ?thesis
    by (auto simp: LoginHandlerOidc_def Let_def case_prod_beta split: sum.splits option.splits)
qed

lemma proxy_cookieless: "cookies_of (ProxyRequestHandler env tr inject target pr tok) = []"
proof -
  have "cookies_of (map (\<lambda>(k, v). AddHeader k v) hs) = []" "cookies_of (map Write bs) = []" for hs bs
    by (simp_all add: cookies_of_def case_prod_beta comp_def)
  then show ?thesis by (simp add: ProxyRequestHandler_def ErrorHandler_def JsonError_def split: sum.splits)
qed

lemma userinfo_cookieless: "cookies_of (userinfo_inner env c r tok) = []"
proof -
  have "cookies_of (map Write bs) = []" for bs by (simp add: cookies_of_def comp_def)
  then show ?thesis by (simp add: userinfo_inner_def split: sum.splits option.splits)
qed

lemma serve_request_ok:
  assumes "keeps_options (cookies_lib (arr_env a))"
  shows "cookies_ok (sys_manager sys) (cookies_of (fst (serve_request sys a st)))"
  by (auto simp: serve_request_def Let_def UserInfoHandlerOidc_def rootHandler_def not_found_def
      login_ok [OF assms] callback_ok [OF assms] logout_ok [OF assms] proxy_cookieless userinfo_cookieless
      intro!: middleware_ok [OF assms] split: mux_reply.splits option.splits route.splits)

lemma new_manager_fields:
  assumes "NewManager cfg = Inr mi" "manager_of mi = Some m"
  shows "m_cookieName m = CookieNameOf cfg" "m_loginTimeout m = go_div (LoginTimeout cfg) second"
    "m_sessionTimeout m = SessionTimeout cfg" "store_options (m_store m) = manager_cookie_options (CookieDomainOf cfg)"
  using assms
  by (auto simp: NewManager_def manager_of_def and_then_Inr_iff manager_base.extend_def split: if_splits)

lemma served_cookies:
  assumes "NewManager cfg = Inr mi" "manager_of mi = Some (sys_manager sys)"
    and "keeps_options (cookies_lib (arr_env a))"
  shows "length (cookies_of (fst (serve_request sys a st))) \<le> 1 \<and>
    list_all (\<lambda>c. cookie_name c = CookieNameOf cfg \<and>
      (\<exists>age\<in>{go_div (LoginTimeout cfg) second, go_div (SessionTimeout cfg) second, - 1}.
        cookie_options c = \<lparr>Path = ''/'', Domain = CookieDomainOf cfg, MaxAge = age, Secure = True, HttpOnly = True,
          SameSite = SameSiteStrictMode\<rparr>)) (cookies_of (fst (serve_request sys a st)))"
proof -
  note m = new_manager_fields [OF assms(1,2)]
  show ?thesis
    using serve_request_ok [OF assms(3), of sys st]
    by (auto simp: cookies_ok_def cookie_ok_def cookie_ages_def manager_cookie_options_def list_all_iff m)
qed

section \<open>Properties\<close>


lemma ex_keeps_options: "keeps_options ex_cookie_lib"
  by (auto simp: keeps_options_def ex_open_def Let_def split: option.splits)


end
