(* ===== verification/Db_Spans.thy ===== *)
theory Db_Spans
  imports Sqlite Postgresql Opentelemetry
begin

text \<open>
  What the methods of the two back ends (\<open>database/sqlite.go\<close>, \<open>database/postgresql.go\<close>) export to the tracer: a span
  for each call, with the table, the id, the subject and the expiry as attributes and the error, if any, as its
  status. \<open>CloseConnection\<close> and \<open>Purge\<close> open none. The calls themselves are modelled in \<open>Sqlite\<close> and
  \<open>Postgresql\<close>; a function here runs the same statement, on the same database, and gives the spans of the call,
  the first of them its own. \<open>span != nil\<close> of the code is the case of a context with a tracer.
\<close>

section \<open>The spans of a call\<close>

record 's impl_spans =
  Add_spans :: "db_env \<Rightarrow> session_data \<Rightarrow> 's \<Rightarrow> go_context \<Rightarrow> span_data list"
  Delete_spans :: "db_env \<Rightarrow> string \<Rightarrow> 's \<Rightarrow> go_context \<Rightarrow> span_data list"
  Get_spans :: "db_env \<Rightarrow> string \<Rightarrow> 's \<Rightarrow> go_context \<Rightarrow> span_data list"
  Update_spans :: "db_env \<Rightarrow> string \<Rightarrow> session_data \<Rightarrow> 's \<Rightarrow> go_context \<Rightarrow> span_data list"

text \<open>\<open>Update\<close> of SQLite reads the old row with \<open>context.TODO()\<close>, without a tracer.\<close>

definition context_TODO :: go_context where
  "context_TODO = \<lparr>ctx_tracer = None, ctx_span = []\<rparr>"

subsection \<open>SQLite\<close>

definition sqlite_Add_spans :: "cipher option \<Rightarrow> db_env \<Rightarrow> session_data \<Rightarrow> store \<Rightarrow> go_context \<Rightarrow> span_data list" where
  "sqlite_Add_spans cipher env s st ctx =
     (case NewSpanFromContext ctx ''session.postgresql: INSERT'' of
        (_, None) \<Rightarrow> []
      | (_, Some sp) \<Rightarrow>
          (let sid = env_uuid env;
               span = SetAttributes
                 [(''db.table'', TextAttribute ''sessions''), (''db.table.id'', TextAttribute sid),
                  (''db.table.subject'', TextAttribute (Subject s)),
                  (''db.table.expires_at'', TimeAttribute (ExpiresAt s))] (started sp)
           in case encryptArgs cipher (env_nonces env) s of
                Inl err \<Rightarrow> [failed_span ''session.sqlite: INSERT -> encryptArgs'' err span]
              | Inr enc \<Rightarrow>
                  (case fst (exec SqlErrDBClosed (env_fault env) (sql_insert sqlite_row_check sid (row_of enc)) st) of
                     Inl err \<Rightarrow> [failed_span ''session.sqlite: INSERT -> db.db.Exec'' err span]
                   | Inr _ \<Rightarrow> [span])))"

definition sqlite_Delete_spans :: "db_env \<Rightarrow> string \<Rightarrow> store \<Rightarrow> go_context \<Rightarrow> span_data list" where
  "sqlite_Delete_spans env sid st ctx =
     (case NewSpanFromContext ctx ''session.postgresql: INSERT'' of
        (_, None) \<Rightarrow> []
      | (_, Some sp) \<Rightarrow>
          (let span = SetAttributes
                 [(''db.table'', TextAttribute ''sessions''), (''db.table.id'', TextAttribute sid)] (started sp)
           in case fst (exec SqlErrDBClosed (env_fault env) (sql_delete sid) st) of
                Inl err \<Rightarrow> [failed_span ''session.sqlite: DELETE -> db.conn.Exec'' err span]
              | Inr _ \<Rightarrow> [span]))"

definition sqlite_Get_spans :: "fault \<Rightarrow> string \<Rightarrow> store \<Rightarrow> go_context \<Rightarrow> span_data list" where
  "sqlite_Get_spans fault sid st ctx =
     (case NewSpanFromContext ctx ''session.postgresql: INSERT'' of
        (_, None) \<Rightarrow> []
      | (_, Some sp) \<Rightarrow>
          (let span = SetAttributes
                 [(''db.table'', TextAttribute ''sessions''), (''db.table.id'', TextAttribute sid)] (started sp)
           in case query_row SqlErrDBClosed SqlErrNoRows fault sid st of
                Inl err \<Rightarrow> [failed_span ''session.sqlite: INSERT -> db.conn.QueryRow'' err span]
              | Inr _ \<Rightarrow> [span]))"

definition sqlite_Update_spans ::
    "cipher option \<Rightarrow> db_env \<Rightarrow> string \<Rightarrow> session_data \<Rightarrow> store \<Rightarrow> go_context \<Rightarrow> span_data list" where
  "sqlite_Update_spans cipher env sid s st ctx =
     (let getSpans = sqlite_Get_spans (env_get_fault env) sid st context_TODO in
      case NewSpanFromContext ctx ''session.postgresql: INSERT'' of
        (_, None) \<Rightarrow> getSpans
      | (_, Some sp) \<Rightarrow>
          (let span = SetAttributes
                 [(''db.table'', TextAttribute ''sessions''), (''db.table.id'', TextAttribute sid),
                  (''db.table.subject'', TextAttribute (Subject s)),
                  (''db.table.expires_at'', TimeAttribute (ExpiresAt s))] (started sp)
           in (case sqlite_Get cipher (env_get_fault env) sid st of
                 Inl err \<Rightarrow> failed_span ''session.sqlite: UPDATE -> Get'' err span
               | Inr oldSession \<Rightarrow>
                   (if Subject s \<noteq> Subject oldSession then SetStatusError ''session.sqlite: subject mismatch'' span
                    else case encryptArgs cipher (env_nonces env) s of
                      Inl err \<Rightarrow> failed_span ''session.sqlite: UPDATE -> encryptArgs'' err span
                    | Inr enc \<Rightarrow>
                        (case fst (exec SqlErrDBClosed (env_fault env) (sql_update sqlite_row_check sid (row_of enc)) st) of
                           Inl err \<Rightarrow> failed_span ''session.sqlite: UPDATE -> db.conn.Exec'' err span
                         | Inr _ \<Rightarrow> span))) # getSpans))"

definition sqlite_spans :: "cipher option \<Rightarrow> store impl_spans" where
  "sqlite_spans cipher =
     \<lparr>Add_spans = sqlite_Add_spans cipher, Delete_spans = sqlite_Delete_spans,
      Get_spans = (\<lambda>env. sqlite_Get_spans (env_fault env)), Update_spans = sqlite_Update_spans cipher\<rparr>"

subsection \<open>PostgreSQL\<close>

definition postgresql_Add_spans :: "cipher option \<Rightarrow> db_env \<Rightarrow> session_data \<Rightarrow> store \<Rightarrow> go_context \<Rightarrow> span_data list" where
  "postgresql_Add_spans cipher env s st ctx =
     (case NewSpanFromContext ctx ''session.postgresql: INSERT'' of
        (_, None) \<Rightarrow> []
      | (_, Some sp) \<Rightarrow>
          (let sid = env_uuid env;
               span = SetAttributes
                 [(''db.table'', TextAttribute ''sessions''), (''db.table.id'', TextAttribute sid),
                  (''db.table.subject'', TextAttribute (Subject s)),
                  (''db.table.expires_at'', TimeAttribute (ExpiresAt s))] (started sp)
           in case encryptArgs cipher (env_nonces env) s of
                Inl err \<Rightarrow> [failed_span ''session.postgresql: INSERT -> encryptArgs'' err span]
              | Inr enc \<Rightarrow>
                  (case fst (exec PgxErrClosed (env_fault env) (bind_int4 (unix (ExpiresAt enc)) (sql_insert postgresql_row_check sid (row_of enc))) st) of
                     Inl err \<Rightarrow> [failed_span ''session.postgresql: INSERT -> db.conn.Exec'' err span]
                   | Inr _ \<Rightarrow> [span])))"

definition postgresql_Delete_spans :: "db_env \<Rightarrow> string \<Rightarrow> store \<Rightarrow> go_context \<Rightarrow> span_data list" where
  "postgresql_Delete_spans env sid st ctx =
     (case NewSpanFromContext ctx ''session.postgresql: INSERT'' of
        (_, None) \<Rightarrow> []
      | (_, Some sp) \<Rightarrow>
          (let span = SetAttributes
                 [(''db.table'', TextAttribute ''sessions''), (''db.table.id'', TextAttribute sid)] (started sp)
           in case fst (exec PgxErrClosed (env_fault env) (sql_delete sid) st) of
                Inl err \<Rightarrow> [failed_span ''session.postgresql: DELETE -> db.conn.Exec'' err span]
              | Inr _ \<Rightarrow> [span]))"

definition postgresql_Get_spans :: "fault \<Rightarrow> string \<Rightarrow> store \<Rightarrow> go_context \<Rightarrow> span_data list" where
  "postgresql_Get_spans fault sid st ctx =
     (case NewSpanFromContext ctx ''session.postgresql: INSERT'' of
        (_, None) \<Rightarrow> []
      | (_, Some sp) \<Rightarrow>
          (let span = SetAttributes
                 [(''db.table'', TextAttribute ''sessions''), (''db.table.id'', TextAttribute sid)] (started sp)
           in case query_row PgxErrClosed PgxErrNoRows fault sid st of
                Inl err \<Rightarrow> [failed_span ''session.postgresql: INSERT -> db.conn.QueryRow'' err span]
              | Inr _ \<Rightarrow> [span]))"

definition postgresql_Update_spans ::
    "cipher option \<Rightarrow> db_env \<Rightarrow> string \<Rightarrow> session_data \<Rightarrow> store \<Rightarrow> go_context \<Rightarrow> span_data list" where
  "postgresql_Update_spans cipher env sid s st ctx =
     (let getSpans = postgresql_Get_spans (env_get_fault env) sid st ctx in
      case NewSpanFromContext ctx ''session.postgresql: INSERT'' of
        (_, None) \<Rightarrow> getSpans
      | (_, Some sp) \<Rightarrow>
          (let span = SetAttributes
                 [(''db.table'', TextAttribute ''sessions''), (''db.table.id'', TextAttribute sid),
                  (''db.table.subject'', TextAttribute (Subject s)),
                  (''db.table.expires_at'', TimeAttribute (ExpiresAt s))] (started sp)
           in (case postgresql_Get cipher (env_get_fault env) sid st of
                 Inl err \<Rightarrow> failed_span ''session.postgresql: UPDATE -> Get'' err span
               | Inr oldSession \<Rightarrow>
                   (if Subject s \<noteq> Subject oldSession then SetStatusError ''session.postgresql: subject mismatch'' span
                    else case encryptArgs cipher (env_nonces env) s of
                      Inl err \<Rightarrow> failed_span ''session.postgresql: UPDATE -> encryptArgs'' err span
                    | Inr enc \<Rightarrow>
                        (case fst (exec PgxErrClosed (env_fault env) (bind_int4 (unix (ExpiresAt enc)) (sql_update postgresql_row_check sid (row_of enc))) st) of
                           Inl err \<Rightarrow> failed_span ''session.postgresql: UPDATE -> db.conn.Exec'' err span
                         | Inr _ \<Rightarrow> span))) # getSpans))"

definition postgresql_spans :: "cipher option \<Rightarrow> store impl_spans" where
  "postgresql_spans cipher =
     \<lparr>Add_spans = postgresql_Add_spans cipher, Delete_spans = postgresql_Delete_spans,
      Get_spans = (\<lambda>env. postgresql_Get_spans (env_fault env)), Update_spans = postgresql_Update_spans cipher\<rparr>"

section \<open>The contract\<close>

text \<open>Each span lies below the span of the context.\<close>

definition lie_below :: "go_context \<Rightarrow> span_data list \<Rightarrow> bool" where
  "lie_below ctx sds \<longleftrightarrow> (\<forall>sd\<in>set sds. \<exists>p. p \<noteq> [] \<and> span_path sd = ctx_span ctx @ p)"

lemma lie_below_simps [simp]:
  "lie_below ctx []"
  "lie_below ctx (sd # sds) \<longleftrightarrow> (\<exists>p. p \<noteq> [] \<and> span_path sd = ctx_span ctx @ p) \<and> lie_below ctx sds"
  "lie_below ctx (sds @ sds') \<longleftrightarrow> lie_below ctx sds \<and> lie_below ctx sds'"
  by (auto simp: lie_below_def)

text \<open>The first span of a call names the session and says whether the call failed, and how.\<close>

definition reports :: "span_data list \<Rightarrow> string \<Rightarrow> 'a result \<Rightarrow> bool" where
  "reports sds sid res \<longleftrightarrow>
     (\<exists>sd rest. sds = sd # rest \<and> (''db.table.id'', TextAttribute sid) \<in> set (span_attributes sd) \<and>
        (case res of
           Inr _ \<Rightarrow> span_error sd = None
         | Inl e \<Rightarrow> span_error sd \<noteq> None \<and>
             (e = ErrSessionsMismatch \<or> (''error.message'', ErrorAttribute e) \<in> set (span_attributes sd))))"

lemma reports_Cons [simp]:
  "reports (sd # rest) sid res \<longleftrightarrow> (''db.table.id'', TextAttribute sid) \<in> set (span_attributes sd) \<and>
     (case res of
        Inr _ \<Rightarrow> span_error sd = None
      | Inl e \<Rightarrow> span_error sd \<noteq> None \<and>
          (e = ErrSessionsMismatch \<or> (''error.message'', ErrorAttribute e) \<in> set (span_attributes sd)))"
  by (simp add: reports_def)

locale traced_impl =
  fixes I :: "'s session_impl" and T :: "'s impl_spans"
  assumes Add_below: "lie_below ctx (Add_spans T env d st ctx)"
    and Delete_below: "lie_below ctx (Delete_spans T env sid st ctx)"
    and Get_below: "lie_below ctx (Get_spans T env sid st ctx)"
    and Update_below: "lie_below ctx (Update_spans T env sid d st ctx)"
    and Add_reports: "ctx_tracer ctx \<noteq> None \<Longrightarrow> reports (Add_spans T env d st ctx) (env_uuid env) (fst (Add I env d st))"
    and Delete_reports: "ctx_tracer ctx \<noteq> None \<Longrightarrow> reports (Delete_spans T env sid st ctx) sid (fst (Delete I env sid st))"
    and Update_reports: "ctx_tracer ctx \<noteq> None \<Longrightarrow> reports (Update_spans T env sid d st ctx) sid (fst (Update I env sid d st))"

lemma NewSpan_cases:
  obtains (untraced) "ctx_tracer ctx = None" "NewSpanFromContext ctx n = (ctx, None)"
    | (traced) ctx' where "ctx_tracer ctx \<noteq> None" "NewSpanFromContext ctx n = (ctx', Some (ctx_span ctx @ [n]))"
  by (cases "ctx_tracer ctx") (auto simp: NewSpanFromContext_def tracer_Start_def Let_def)

lemmas sqlite_spans_defs = sqlite_Add_spans_def sqlite_Delete_spans_def sqlite_Get_spans_def sqlite_Update_spans_def
lemmas postgresql_spans_defs = postgresql_Add_spans_def postgresql_Delete_spans_def postgresql_Get_spans_def
  postgresql_Update_spans_def

lemma impl_spans_sel [simp]:
  "Add_spans (sqlite_spans c) = sqlite_Add_spans c" "Delete_spans (sqlite_spans c) = sqlite_Delete_spans"
  "Get_spans (sqlite_spans c) env = sqlite_Get_spans (env_fault env)" "Update_spans (sqlite_spans c) = sqlite_Update_spans c"
  "Add_spans (postgresql_spans c) = postgresql_Add_spans c" "Delete_spans (postgresql_spans c) = postgresql_Delete_spans"
  "Get_spans (postgresql_spans c) env = postgresql_Get_spans (env_fault env)"
  "Update_spans (postgresql_spans c) = postgresql_Update_spans c"
  by (simp_all add: sqlite_spans_def postgresql_spans_def)

lemma sqlite_Get_TODO [simp]: "sqlite_Get_spans ft sid st context_TODO = []"
  by (simp add: sqlite_Get_spans_def NewSpanFromContext_def context_TODO_def)

lemma Get_spans_below:
  "lie_below ctx (sqlite_Get_spans ft sid st ctx)" "lie_below ctx (postgresql_Get_spans ft sid st ctx)"
  by (cases rule: NewSpan_cases [of ctx "''session.postgresql: INSERT''"];
      simp add: sqlite_Get_spans_def postgresql_Get_spans_def Let_def split: sum.splits)+

lemma sqlite_spans_below:
  "lie_below ctx (sqlite_Add_spans c env d st ctx)" "lie_below ctx (sqlite_Delete_spans env sid st ctx)"
  "lie_below ctx (sqlite_Update_spans c env sid d st ctx)"
  by (cases rule: NewSpan_cases [of ctx "''session.postgresql: INSERT''"];
      simp add: sqlite_Add_spans_def sqlite_Delete_spans_def sqlite_Update_spans_def Let_def split: sum.splits)+

lemma postgresql_spans_below:
  "lie_below ctx (postgresql_Add_spans c env d st ctx)" "lie_below ctx (postgresql_Delete_spans env sid st ctx)"
  "lie_below ctx (postgresql_Update_spans c env sid d st ctx)"
  by (cases rule: NewSpan_cases [of ctx "''session.postgresql: INSERT''"];
      simp add: postgresql_Add_spans_def postgresql_Delete_spans_def postgresql_Update_spans_def Get_spans_below Let_def
        split: sum.splits)+

lemma sqlite_spans_report:
  assumes "ctx_tracer ctx \<noteq> None"
  shows "reports (sqlite_Add_spans c env d st ctx) (env_uuid env) (fst (sqlite_Add c env d st))"
    "reports (sqlite_Delete_spans env sid st ctx) sid (fst (sqlite_Delete env sid st))"
    "reports (sqlite_Update_spans c env sid d st ctx) sid (fst (sqlite_Update c env sid d st))"
  using assms
  by (cases rule: NewSpan_cases [of ctx "''session.postgresql: INSERT''"];
      simp add: sqlite_spans_defs sqlite_Add_def sqlite_Delete_def sqlite_Update_def sqlite_Update_read_def
        sqlite_Update_write_def and_then_def Let_def split: sum.splits prod.splits)+

lemma postgresql_spans_report:
  assumes "ctx_tracer ctx \<noteq> None"
  shows "reports (postgresql_Add_spans c env d st ctx) (env_uuid env) (fst (postgresql_Add c env d st))"
    "reports (postgresql_Delete_spans env sid st ctx) sid (fst (postgresql_Delete env sid st))"
    "reports (postgresql_Update_spans c env sid d st ctx) sid (fst (postgresql_Update c env sid d st))"
  using assms
  by (cases rule: NewSpan_cases [of ctx "''session.postgresql: INSERT''"];
      simp add: postgresql_spans_defs postgresql_Add_def postgresql_Delete_def postgresql_Update_def postgresql_Update_read_def
        postgresql_Update_write_def and_then_def Let_def split: sum.splits prod.splits)+

interpretation sqlite_traced: traced_impl "sqlite_impl c" "sqlite_spans c" for c
  by unfold_locales (simp_all add: Get_spans_below sqlite_spans_below sqlite_spans_report)

interpretation postgresql_traced: traced_impl "postgresql_impl c" "postgresql_spans c" for c
  by unfold_locales (simp_all add: Get_spans_below postgresql_spans_below postgresql_spans_report)

definition traced_backend :: "cipher option \<Rightarrow> store session_impl \<Rightarrow> store impl_spans \<Rightarrow> bool" where
  "traced_backend c I T \<longleftrightarrow> I = sqlite_impl c \<and> T = sqlite_spans c \<or> I = postgresql_impl c \<and> T = postgresql_spans c"

lemma traced_backend_impl:
  assumes "traced_backend c I T"
  shows "traced_impl I T"
  using assms sqlite_traced.traced_impl_axioms [of c] postgresql_traced.traced_impl_axioms [of c]
  by (auto simp: traced_backend_def)

text \<open>The read of a row is reported, too, but not that its tokens cannot be decrypted.\<close>

lemma query_row_fails:
  "isl (query_row ce nr ft sid st) \<longleftrightarrow> \<not> (conn_open st \<and> ft = None \<and> sid \<in> ids st)"
  by (cases "query_row ce nr ft sid st") (auto simp: query_row_def sql_select_def ids_def split: if_splits option.splits)

lemma Get_reports:
  assumes "traced_backend c I T" "ctx_tracer ctx \<noteq> None"
  shows "\<exists>sd. Get_spans T env sid st ctx = [sd] \<and> (''db.table.id'', TextAttribute sid) \<in> set (span_attributes sd) \<and>
    (span_error sd \<noteq> None \<longleftrightarrow> \<not> (conn_open st \<and> env_fault env = None \<and> sid \<in> ids st))"
proof -
  have "\<exists>sd. sqlite_Get_spans (env_fault env) sid st ctx = [sd] \<and> (''db.table.id'', TextAttribute sid) \<in> set (span_attributes sd) \<and>
      (span_error sd \<noteq> None \<longleftrightarrow> isl (query_row SqlErrDBClosed SqlErrNoRows (env_fault env) sid st))"
    using assms(2) by (cases rule: NewSpan_cases [of ctx "''session.postgresql: INSERT''"])
      (simp_all add: sqlite_Get_spans_def Let_def split: sum.splits)
  moreover have "\<exists>sd. postgresql_Get_spans (env_fault env) sid st ctx = [sd] \<and> (''db.table.id'', TextAttribute sid) \<in> set (span_attributes sd) \<and>
      (span_error sd \<noteq> None \<longleftrightarrow> isl (query_row PgxErrClosed PgxErrNoRows (env_fault env) sid st))"
    using assms(2) by (cases rule: NewSpan_cases [of ctx "''session.postgresql: INSERT''"])
      (simp_all add: postgresql_Get_spans_def Let_def split: sum.splits)
  ultimately show ?thesis
    using assms(1) unfolding query_row_fails by (auto simp: traced_backend_def)
qed

end
