(* ===== verification/Tracing.thy ===== *)
theory Tracing
  imports System Db_Spans
begin

text \<open>
  The spans that the program opens. The theories of the other packages leave them out, as they
  only record what happens, with one exception that this theory is about: \<open>TracerFromContext\<close> returns a nil interface for a context without a
  tracer, and the callers in \<open>sessions\<close> and \<open>oidc\<close> call \<open>Start\<close> on it at once. The back ends use
  \<open>NewSpanFromContext\<close> instead, which is total.

  Each operation of the program that opens spans has a
  function here that gives the spans it opens, in order, or \<open>None\<close> where it panics; which of its
  steps it reaches is taken from the model of the operation itself. The spans of the back end, the only ones with
  attributes and a status, are those of \<open>Db_Spans\<close>.
\<close>

section \<open>Spans of the operations\<close>

text \<open>One thing after the other; a panic ends it.\<close>

definition andThen :: "span_data list option \<Rightarrow> span_data list option \<Rightarrow> span_data list option" where
  "andThen a b = (case a of None \<Rightarrow> None | Some xs \<Rightarrow> map_option ((@) xs) b)"

text \<open>\<open>ctx, span := opentelemetry.TracerFromContext(ctx).Start(ctx, ..)\<close>, and what follows it.\<close>

definition with_span :: "go_context \<Rightarrow> string \<Rightarrow> (go_context \<Rightarrow> span_data list option) \<Rightarrow> span_data list option" where
  "with_span ctx spanName body =
     (case TracerFromContext ctx of
        None \<Rightarrow> None
      | Some t \<Rightarrow> (let (ctx', sp) = tracer_Start t ctx spanName in map_option (Cons (started sp)) (body ctx')))"

definition spans_GetIdToken :: "go_context \<Rightarrow> span_data list option" where
  "spans_GetIdToken ctx = with_span ctx ''oidc: verify and decode the the id-token'' (\<lambda>_. Some [])"

definition spans_dataFromDB :: "'s impl_spans \<Rightarrow> req_env \<Rightarrow> 's session \<Rightarrow> 's \<Rightarrow> go_context \<Rightarrow> span_data list option" where
  "spans_dataFromDB T env s st ctx =
     with_span ctx ''session: get session data from db''
       (\<lambda>_. case cookie_id (sess_cookie s) of
              None \<Rightarrow> Some []
            | Some sid \<Rightarrow> Some (Get_spans T (db_read env) sid st ctx))"

definition spans_saveState :: "go_context \<Rightarrow> span_data list option" where
  "spans_saveState ctx = with_span ctx ''session: save state into a cookie'' (\<lambda>_. Some [])"

definition spans_getState :: "go_context \<Rightarrow> span_data list option" where
  "spans_getState ctx = with_span ctx ''session: get state from a cookie'' (\<lambda>_. Some [])"

definition spans_newData :: "go_context \<Rightarrow> span_data list option" where
  "spans_newData ctx = with_span ctx ''session: create a new session dataset'' spans_GetIdToken"

definition spans_saveSession :: "go_context \<Rightarrow> span_data list option" where
  "spans_saveSession ctx = with_span ctx ''session: save session into a cookie'' (\<lambda>_. Some [])"

definition spans_Save :: "'s impl_spans \<Rightarrow> req_env \<Rightarrow> oauth_token \<Rightarrow> 's session \<Rightarrow> 's \<Rightarrow> go_context \<Rightarrow> span_data list option" where
  "spans_Save T env token s st ctx =
     with_span ctx ''session: save'' (\<lambda>ctx'.
       andThen (spans_newData ctx')
         (case newData env token s of
            Inl _ \<Rightarrow> Some []
          | Inr d \<Rightarrow>
              andThen (Some (Add_spans T (db_write env) d st ctx'))
                (if isl (fst (Add (sess_impl s) (db_write env) d st)) then Some [] else spans_saveSession ctx')))"

definition spans_Update :: "'s impl_spans \<Rightarrow> req_env \<Rightarrow> oauth_token \<Rightarrow> 's session \<Rightarrow> 's \<Rightarrow> go_context \<Rightarrow> span_data list option" where
  "spans_Update T env token s st ctx =
     with_span ctx ''session: update'' (\<lambda>ctx'.
       andThen (spans_newData ctx')
         (case newData env token s of
            Inl _ \<Rightarrow> Some []
          | Inr d \<Rightarrow>
              (case cookie_id (sess_cookie s) of
                 None \<Rightarrow> Some []
               | Some sid \<Rightarrow>
                   andThen (Some (Update_spans T (db_write env) sid d st ctx'))
                     (if isl (fst (Update (sess_impl s) (db_write env) sid d st)) then Some []
                      else spans_saveSession ctx'))))"

definition spans_Delete :: "'s impl_spans \<Rightarrow> req_env \<Rightarrow> 's session \<Rightarrow> 's \<Rightarrow> go_context \<Rightarrow> span_data list option" where
  "spans_Delete T env s st ctx =
     with_span ctx ''session: delete'' (\<lambda>ctx'.
       case cookie_id (sess_cookie s) of
         None \<Rightarrow> Some []
       | Some sid \<Rightarrow> Some (Delete_spans T (db_write env) sid st ctx'))"

definition spans_NewSession :: "go_context \<Rightarrow> span_data list option" where
  "spans_NewSession ctx = with_span ctx ''session-manager: create new session into a cookie'' (\<lambda>_. Some [])"

definition spans_GetSession :: "'s impl_spans \<Rightarrow> req_env \<Rightarrow> 's manager \<Rightarrow> oidc_config \<Rightarrow> request \<Rightarrow> 's \<Rightarrow> go_context \<Rightarrow> span_data list option" where
  "spans_GetSession T env m c r st ctx =
     with_span ctx ''session-manager: retrieve existing session from a cookie'' (\<lambda>ctx'.
       case lib_Get (cookies_lib env) (m_store m) (req_cookies r) (m_cookieName m) of
         (_, Some _) \<Rightarrow> Some []
       | (g, None) \<Rightarrow> if cookie_state g \<noteq> None then Some [] else spans_dataFromDB T env (session_for m c g) st ctx')"

section \<open>Spans of the handlers\<close>

definition spans_login :: "req_env \<Rightarrow> 's manager \<Rightarrow> oidc_config \<Rightarrow> request \<Rightarrow> go_context \<Rightarrow> span_data list option" where
  "spans_login env m c r ctx =
     andThen (spans_NewSession ctx) (if isl (NewSession env m c r) then Some [] else spans_saveState ctx)"

definition spans_callback :: "'s impl_spans \<Rightarrow> req_env \<Rightarrow> 's manager \<Rightarrow> oidc_config \<Rightarrow> request \<Rightarrow> 's \<Rightarrow> go_context \<Rightarrow> span_data list option" where
  "spans_callback T env m c r st ctx =
     andThen (spans_GetSession T env m c r st ctx)
       (case GetSession env m c r st of
          Inl _ \<Rightarrow> Some []
        | Inr session \<Rightarrow>
            andThen (spans_getState ctx)
              (if getState session \<noteq> query_value r sessionStateName then Some []
               else case Exchange env c (form_value r ''code'') of
                 Inl _ \<Rightarrow> Some []
               | Inr token \<Rightarrow>
                   andThen (spans_NewSession ctx)
                     (case NewSession env m c r of
                        Inl _ \<Rightarrow> Some []
                      | Inr newSession \<Rightarrow> spans_Save T env token newSession st ctx)))"

definition spans_logout :: "'s impl_spans \<Rightarrow> req_env \<Rightarrow> 's manager \<Rightarrow> oidc_config \<Rightarrow> request \<Rightarrow> 's \<Rightarrow> go_context \<Rightarrow> span_data list option" where
  "spans_logout T env m c r st ctx =
     andThen (spans_GetSession T env m c r st ctx)
       (case GetSession env m c r st of Inl _ \<Rightarrow> Some [] | Inr session \<Rightarrow> spans_Delete T env session st ctx)"

text \<open>The handlers behind the middleware, userinfo and the proxy, open no spans.\<close>

definition spans_middleware :: "'s impl_spans \<Rightarrow> req_env \<Rightarrow> 's manager \<Rightarrow> oidc_config \<Rightarrow> request \<Rightarrow> 's \<Rightarrow> go_context \<Rightarrow> span_data list option" where
  "spans_middleware T env m c r st ctx =
     andThen (spans_GetSession T env m c r st ctx)
       (case GetSession env m c r st of
          Inl _ \<Rightarrow> Some []
        | Inr session \<Rightarrow>
            (if IsExpired (clock env) (sess_data session) then
               (case RefreshGrant env c (RefreshToken (sess_data session)) of
                  Inl _ \<Rightarrow> Some []
                | Inr token \<Rightarrow> spans_Update T env token session st ctx)
             else Some []))"

text \<open>The routes of \<open>main.go\<close>, each with its tracer and its operation name.\<close>

definition tracer_name :: string where
  "tracer_name = ''gitlab.oitech.it/devops/token-handler''"

fun operation_name :: "route \<Rightarrow> string" where
  "operation_name LoginRoute = ''GET /login''"
| "operation_name CallbackRoute = ''GET /callback''"
| "operation_name LogoutRoute = ''GET /logout''"
| "operation_name UserinfoRoute = ''GET /userinfo''"
| "operation_name (ProxyRoute _) = ''GET /proxy''"
| "operation_name RootRoute = ''GET /''"

definition route_spans :: "'s impl_spans \<Rightarrow> 's system \<Rightarrow> incoming \<Rightarrow> 's \<Rightarrow> route \<Rightarrow> go_context \<Rightarrow> span_data list option" where
  "route_spans T sys a st route ctx =
     (let env = arr_env a; r = arr_request a; m = sys_manager sys; c = sys_oidc sys in
      case route of
        LoginRoute \<Rightarrow> spans_login env m c r ctx
      | CallbackRoute \<Rightarrow> spans_callback T env m c r st ctx
      | LogoutRoute \<Rightarrow> spans_logout T env m c r st ctx
      | UserinfoRoute \<Rightarrow> spans_middleware T env m c r st ctx
      | ProxyRoute _ \<Rightarrow> spans_middleware T env m c r st ctx
      | RootRoute \<Rightarrow> Some [])"

definition request_spans :: "'s impl_spans \<Rightarrow> 's system \<Rightarrow> incoming \<Rightarrow> 's \<Rightarrow> go_context \<Rightarrow> span_data list option" where
  "request_spans T sys a st ctx =
     (case mux_dispatch (sys_mux sys) (pr_method (arr_http a)) (pr_host (arr_http a)) (pr_url (arr_http a)) of
        Redirect _ \<Rightarrow> Some []
      | Dispatch None \<Rightarrow> Some []
      | Dispatch (Some route) \<Rightarrow> tracer_Middleware (route_spans T sys a st route) tracer_name (operation_name route) ctx)"

section \<open>Lemmas\<close>

text \<open>Spans were opened, without a panic, and all below the span of the context.\<close>

definition below :: "go_context \<Rightarrow> span_data list option \<Rightarrow> bool" where
  "below ctx x \<longleftrightarrow> (\<exists>sds. x = Some sds \<and> lie_below ctx sds)"

definition child :: "go_context \<Rightarrow> string \<Rightarrow> go_context" where
  "child ctx spanName = ctx\<lparr>ctx_span := ctx_span ctx @ [spanName]\<rparr>"

lemma child_simps [simp]: "ctx_tracer (child ctx n) = ctx_tracer ctx" "ctx_span (child ctx n) = ctx_span ctx @ [n]"
  by (simp_all add: child_def)

lemma below_Some [simp]: "below ctx (Some sds) \<longleftrightarrow> lie_below ctx sds"
  by (simp add: below_def)

lemma lie_below_child: "lie_below (child ctx n) sds \<Longrightarrow> lie_below ctx sds"
  by (fastforce simp: lie_below_def)

lemma below_child: "below (child ctx n) x \<Longrightarrow> below ctx x"
  by (auto simp: below_def intro: lie_below_child)

lemma below_andThen [intro]: "below ctx a \<Longrightarrow> below ctx b \<Longrightarrow> below ctx (andThen a b)"
  by (auto simp: below_def andThen_def)

lemma with_span_traced:
  assumes "ctx_tracer ctx = Some t"
  shows "with_span ctx n body = map_option (Cons (started (ctx_span ctx @ [n]))) (body (child ctx n))"
  by (simp add: with_span_def TracerFromContext_def assms tracer_Start_def child_def Let_def)

lemma below_with_span:
  assumes "ctx_tracer ctx = Some t" "below ctx (body (child ctx n))"
  shows "below ctx (with_span ctx n body)"
  using assms(2) by (auto simp: below_def with_span_traced [OF assms(1)])

lemma below_simple:
  assumes "ctx_tracer ctx = Some t"
  shows "below ctx (spans_GetIdToken ctx)" "below ctx (spans_saveState ctx)" "below ctx (spans_getState ctx)"
    "below ctx (spans_saveSession ctx)" "below ctx (spans_NewSession ctx)"
  unfolding spans_GetIdToken_def spans_saveState_def spans_getState_def spans_saveSession_def spans_NewSession_def
  by (rule below_with_span [OF assms]; simp)+

lemma below_newData:
  assumes "ctx_tracer ctx = Some t"
  shows "below ctx (spans_newData ctx)"
  unfolding spans_newData_def
  by (rule below_with_span [OF assms], rule below_child, rule below_simple(1) [of _ t]) (simp add: assms)

lemma below_login: "ctx_tracer ctx = Some t \<Longrightarrow> below ctx (spans_login env m c r ctx)"
  by (auto simp: spans_login_def intro!: below_andThen below_simple)

context traced_impl
begin

lemma below_session:
  assumes "ctx_tracer ctx = Some t"
  shows "below ctx (spans_dataFromDB T env s st ctx)" "below ctx (spans_Save T env tok s st ctx)"
    "below ctx (spans_Update T env tok s st ctx)" "below ctx (spans_Delete T env s st ctx)"
proof -
  have t: "ctx_tracer (child ctx n) = Some t" for n using assms by simp
  note sub = below_newData [OF t] below_simple [OF t]
  show "below ctx (spans_dataFromDB T env s st ctx)"
    unfolding spans_dataFromDB_def by (rule below_with_span [OF assms]) (simp add: Get_below split: option.splits)
  show "below ctx (spans_Save T env tok s st ctx)"
    unfolding spans_Save_def
    by (rule below_with_span [OF assms], rule below_child)
       (auto intro!: below_andThen sub Add_below simp: below_Some split: sum.splits)
  show "below ctx (spans_Update T env tok s st ctx)"
    unfolding spans_Update_def
    by (rule below_with_span [OF assms], rule below_child)
       (auto intro!: below_andThen sub Update_below simp: below_Some split: sum.splits option.splits)
  show "below ctx (spans_Delete T env s st ctx)"
    unfolding spans_Delete_def
    by (rule below_with_span [OF assms], rule below_child) (auto intro: Delete_below split: option.splits)
qed

lemma below_GetSession:
  assumes "ctx_tracer ctx = Some t"
  shows "below ctx (spans_GetSession T env m c r st ctx)"
  unfolding spans_GetSession_def
  by (rule below_with_span [OF assms], rule below_child)
     (auto intro!: below_session(1) simp: assms split: prod.splits option.splits)

lemma below_handlers:
  assumes "ctx_tracer ctx = Some t"
  shows "below ctx (spans_callback T env m c r st ctx)" "below ctx (spans_logout T env m c r st ctx)"
    "below ctx (spans_middleware T env m c r st ctx)"
  unfolding spans_callback_def spans_logout_def spans_middleware_def
  by (auto intro!: below_andThen below_simple [OF assms] below_session [OF assms] below_GetSession [OF assms] split: sum.splits)

lemma below_route:
  assumes "ctx_tracer ctx = Some t"
  shows "below ctx (route_spans T sys a st route ctx)"
  by (simp add: route_spans_def Let_def below_handlers [OF assms] below_login [OF assms] split: route.splits)

end

lemma untraced_panics:
  assumes "ctx_tracer ctx = None"
  shows "spans_NewSession ctx = None" "spans_GetSession T env m c r st ctx = None"
  by (simp_all add: spans_NewSession_def spans_GetSession_def with_span_def TracerFromContext_def assms)

section \<open>Properties\<close>

text \<open>C35. Tracing never gets in the way of a request to the program: every route of \<open>main.go\<close> is wrapped in
  \<open>opentelemetry.Middleware\<close>, so no request panics for want of a tracer; it opens the span of its
  operation first, and all others below it. A handler of the package \<open>sessions\<close> that is registered
  without the wrapper panics on every request, before it has answered, and only the root handler
  does not.\<close>

theorem requests_are_traced:
  assumes "traced_backend c (m_impl (sys_manager sys)) T"
    and "mux_dispatch (sys_mux sys) (pr_method (arr_http a)) (pr_host (arr_http a)) (pr_url (arr_http a)) = Dispatch (Some route)"
  shows "(\<exists>rest. request_spans T sys a st \<lparr>ctx_tracer = None, ctx_span = []\<rparr> = Some (started [operation_name route] # rest) \<and>
      (\<forall>sd\<in>set rest. \<exists>p. p \<noteq> [] \<and> span_path sd = operation_name route # p)) \<and>
    (route_spans T sys a st route \<lparr>ctx_tracer = None, ctx_span = []\<rparr> = None \<longleftrightarrow> route \<noteq> RootRoute)"
proof (intro conjI)
  let ?ctx = "\<lparr>ctx_tracer = Some tracer_name, ctx_span = [operation_name route]\<rparr>"
  have "below ?ctx (route_spans T sys a st route ?ctx)"
    by (rule traced_impl.below_route [OF traced_backend_impl [OF assms(1)]]) simp
  then show "\<exists>rest. request_spans T sys a st \<lparr>ctx_tracer = None, ctx_span = []\<rparr> = Some (started [operation_name route] # rest) \<and>
      (\<forall>sd\<in>set rest. \<exists>p. p \<noteq> [] \<and> span_path sd = operation_name route # p)"
    using assms(2) by (auto simp: request_spans_def tracer_Middleware_def tracer_NewContext_def Let_def below_def lie_below_def)
  let ?nil = "\<lparr>ctx_tracer = None, ctx_span = []\<rparr>"
  have "spans_NewSession ?nil = None" "spans_GetSession T env m c r st ?nil = None" for env and m :: "store manager" and c r
    by (simp_all add: untraced_panics)
  then show "route_spans T sys a st route ?nil = None \<longleftrightarrow> route \<noteq> RootRoute"
    by (simp add: route_spans_def Let_def spans_login_def spans_callback_def spans_logout_def spans_middleware_def
        andThen_def split: route.splits)
qed

theorem requests_are_traced_witness:
  "\<exists>rest. request_spans (sqlite_spans None) ex_system ex_arrival ex_database \<lparr>ctx_tracer = None, ctx_span = []\<rparr> =
     Some (started [''GET /callback''] # rest)"
  using requests_are_traced [OF _ ex_callback_dispatched, of None "sqlite_spans None" ex_database]
  by (auto simp: traced_backend_def ex_system_def)

text \<open>C36. A failing database call shows in the trace: with a tracer in its context, the first span of an \<open>Add\<close>,
  \<open>Delete\<close> or \<open>Update\<close> names the session and has an error status exactly when the call fails, with the error the call
  returns as an attribute, except for the mismatch of subjects, which has a status only. The span of a \<open>Get\<close> has an
  error status exactly when no row was read: that its tokens cannot be decrypted is not traced.\<close>

theorem failed_calls_are_traced:
  assumes "traced_backend c I T" "ctx_tracer ctx \<noteq> None"
  shows "reports (Add_spans T env d st ctx) (env_uuid env) (fst (Add I env d st)) \<and>
    reports (Delete_spans T env sid st ctx) sid (fst (Delete I env sid st)) \<and>
    reports (Update_spans T env sid d st ctx) sid (fst (Update I env sid d st)) \<and>
    (\<exists>sd. Get_spans T env sid st ctx = [sd] \<and> (''db.table.id'', TextAttribute sid) \<in> set (span_attributes sd) \<and>
       (span_error sd \<noteq> None \<longleftrightarrow> \<not> (conn_open st \<and> env_fault env = None \<and> sid \<in> ids st)))"
proof -
  note T = traced_backend_impl [OF assms(1)]
  show ?thesis
    using traced_impl.Add_reports [OF T assms(2)] traced_impl.Delete_reports [OF T assms(2)]
      traced_impl.Update_reports [OF T assms(2)] Get_reports [OF assms] by blast
qed

theorem failed_calls_are_traced_witness:
  "reports (sqlite_Delete_spans (ex_db_env []) ''uuid-0'' \<lparr>table = Map.empty, conn_open = False\<rparr>
       \<lparr>ctx_tracer = Some tracer_name, ctx_span = []\<rparr>) ''uuid-0'' (Inl SqlErrDBClosed :: unit result)"
  using failed_calls_are_traced [of None "sqlite_impl None" "sqlite_spans None" "\<lparr>ctx_tracer = Some tracer_name, ctx_span = []\<rparr>"
      "ex_db_env []" "ex_data 500" "\<lparr>table = Map.empty, conn_open = False\<rparr>" "''uuid-0''"]
  by (simp add: traced_backend_def sqlite_Delete_def exec_def)

end
