(* ===== verification/Trace_Secrecy.thy ===== *)
theory Trace_Secrecy
  imports Token_Secrecy Tracing
begin

text \<open>
  The tracer learns no more of the tokens than browser and log do: the comparison of two runs of \<open>Token_Secrecy\<close>
  for everything that is exported to the tracer, the attributes and errors of the back end's spans included.
  The contract of a back end for this extends \<open>renaming_store\<close>.
\<close>

section \<open>The contract\<close>

locale renaming_traces = renaming_store I view known ready no_rows reliable f same tame
  for I :: "'s session_impl"
    and view :: "'s \<Rightarrow> session_map"
    and known :: "'s \<Rightarrow> string set"
    and ready :: "'s \<Rightarrow> bool"
    and no_rows :: go_error
    and reliable :: bool
    and f :: "string \<Rightarrow> string"
    and same :: "'s \<Rightarrow> 's \<Rightarrow> bool"
    and tame :: bool +
  fixes T :: "'s impl_spans"
  assumes Add_spans_same: "tame \<Longrightarrow> same s t \<Longrightarrow> Add_spans T env (rename_data f d) t ctx = Add_spans T env d s ctx"
    and Delete_spans_same: "tame \<Longrightarrow> same s t \<Longrightarrow> Delete_spans T env sid t ctx = Delete_spans T env sid s ctx"
    and Get_spans_same: "tame \<Longrightarrow> same s t \<Longrightarrow> Get_spans T env sid t ctx = Get_spans T env sid s ctx"
    and Update_spans_same: "tame \<Longrightarrow> same s t \<Longrightarrow>
          Update_spans T env sid (rename_data f d) t ctx = Update_spans T env sid d s ctx"
begin

lemma Session_spans_same:
  assumes tame "same s t" "env_renamed f e e'" "sess_impl z = I"
  shows "spans_Save T e' (rename_token f tok) (rename_session f z) t ctx = spans_Save T e tok z s ctx"
    and "spans_Update T e' (rename_token f tok) (rename_session f z) t ctx = spans_Update T e tok z s ctx"
    and "spans_Delete T e' (rename_session f z) t ctx = spans_Delete T e z s ctx"
proof -
  note n = newData_renamed [OF assms(3), of tok z] and w = env_renamedD [OF assms(3)]
  have add: "fst (Add I env (rename_data f d) t) = fst (Add I env d s)" for env d
    using Add_same [OF assms(1,2), of env d] by (simp add: rel_prod_sel)
  have upd: "fst (Update I env sid (rename_data f d) t) = fst (Update I env sid d s)" for env sid d
    using Update_same [OF assms(1,2), of env sid d] by (simp add: rel_prod_sel)
  show "spans_Save T e' (rename_token f tok) (rename_session f z) t ctx = spans_Save T e tok z s ctx"
    by (cases "newData e tok z") (simp_all add: spans_Save_def n w assms(4) add Add_spans_same [OF assms(1,2)])
  show "spans_Update T e' (rename_token f tok) (rename_session f z) t ctx = spans_Update T e tok z s ctx"
    by (cases "newData e tok z") (simp_all add: spans_Update_def n w assms(4) upd Update_spans_same [OF assms(1,2)] cong: option.case_cong)
  show "spans_Delete T e' (rename_session f z) t ctx = spans_Delete T e z s ctx"
    by (simp add: spans_Delete_def w Delete_spans_same [OF assms(1,2)] cong: option.case_cong)
qed

lemma GetSession_spans_same:
  assumes tame "same s t" "env_renamed f e e'"
  shows "spans_GetSession T e' m c r t ctx = spans_GetSession T e m c r s ctx"
proof -
  have "spans_dataFromDB T e' z t ctx = spans_dataFromDB T e z s ctx" for z ctx
    by (simp add: spans_dataFromDB_def env_renamedD [OF assms(3)] Get_spans_same [OF assms(1,2)] cong: option.case_cong)
  then show ?thesis
    by (simp add: spans_GetSession_def env_renamedD [OF assms(3)] cong: prod.case_cong option.case_cong if_cong)
qed

lemma handler_spans_same:
  assumes tame "same s t" "env_renamed f e e'" "m_impl m = I"
  shows "spans_callback T e' m c r t ctx = spans_callback T e m c r s ctx"
    and "spans_logout T e' m c r t ctx = spans_logout T e m c r s ctx"
    and "spans_middleware T e' m c r t ctx = spans_middleware T e m c r s ctx"
proof -
  note g = GetSession_same [OF assms, of c r] GetSession_spans_same [OF assms(1-3)]
  note w = env_renamedD [OF assms(3)]
  note new = NewSession_renamed [OF assms(3) tame_f [OF assms(1)], of m c r]
  have impl: "sess_impl z = I" if "GetSession e m c r s = Inr z" for z
    using sess_impl_of [OF that] assms(4) by simp
  have save: "spans_Save T e' (rename_token f tok) z t ctx = spans_Save T e tok z s ctx" if "NewSession e m c r = Inr z" for z tok
  proof -
    have "rename_session f z = z" using new that by simp
    moreover have "sess_impl z = I" using that assms(4) by (auto simp: NewSession_def split: prod.splits option.splits)
    ultimately show ?thesis using Session_spans_same(1) [OF assms(1-3), of z tok ctx] by simp
  qed
  show "spans_callback T e' m c r t ctx = spans_callback T e m c r s ctx"
    by (cases "GetSession e m c r s"; cases "Exchange e c (form_value r ''code'')"; cases "NewSession e m c r")
       (simp_all add: spans_callback_def g w new save)
  show "spans_logout T e' m c r t ctx = spans_logout T e m c r s ctx"
    by (cases "GetSession e m c r s") (simp_all add: spans_logout_def g Session_spans_same(3) [OF assms(1-3) impl])
  show "spans_middleware T e' m c r t ctx = spans_middleware T e m c r s ctx"
  proof (cases "GetSession e m c r s")
    case (Inr z)
    then show ?thesis
      by (cases "RefreshGrant e c (RefreshToken (sess_data z))")
         (simp_all add: spans_middleware_def g w Session_spans_same(2) [OF assms(1-3) impl])
  qed (simp add: spans_middleware_def g)
qed

end

section \<open>Both back ends\<close>

lemma exec_fst_same:
  "rel_prod (=) R (exec ce ft stmt s) (exec ce ft stmt' t) \<Longrightarrow> fst (exec ce ft stmt' t) = fst (exec ce ft stmt s)"
  by (simp add: rel_prod_sel)

lemma query_row_result_same:
  assumes "stores_renamed c f s t"
  shows "(case query_row ce nr ft sid t of Inl e \<Rightarrow> g e | Inr _ \<Rightarrow> x) = (case query_row ce nr ft sid s of Inl e \<Rightarrow> g e | Inr _ \<Rightarrow> x)"
  using query_row_same [OF assms, of ce nr ft sid] by (auto split: sum.splits)

lemma Get_spans_renamed:
  assumes "stores_renamed c f s t"
  shows "sqlite_Get_spans ft sid t ctx = sqlite_Get_spans ft sid s ctx"
    "postgresql_Get_spans ft sid t ctx = postgresql_Get_spans ft sid s ctx"
  by (cases rule: NewSpan_cases [of ctx "''session.postgresql: INSERT''"]; simp add: sqlite_Get_spans_def postgresql_Get_spans_def Let_def
      query_row_result_same [OF assms])+

lemma Delete_spans_renamed:
  assumes "stores_renamed c f s t"
  shows "sqlite_Delete_spans env sid t ctx = sqlite_Delete_spans env sid s ctx"
    "postgresql_Delete_spans env sid t ctx = postgresql_Delete_spans env sid s ctx"
  by (cases rule: NewSpan_cases [of ctx "''session.postgresql: INSERT''"]; simp add: sqlite_Delete_spans_def postgresql_Delete_spans_def Let_def
      exec_fst_same [OF stores_delete [OF assms]])+

lemma Add_spans_renamed:
  assumes "stores_renamed c f s t" "total_cipher c" "keeps_empty f"
  shows "sqlite_Add_spans c env (rename_data f d) t ctx = sqlite_Add_spans c env d s ctx"
    "postgresql_Add_spans c env (rename_data f d) t ctx = postgresql_Add_spans c env d s ctx"
proof -
  obtain e e' where e: "encryptArgs c (env_nonces env) d = Inr e" "encryptArgs c (env_nonces env) (rename_data f d) = Inr e'"
    "looks_alike e e'" "row_renamed c f (row_of e) (row_of e')"
    using encrypt_renamed [OF assms(2,3)] by blast
  note same = stores_insert [OF assms(1) e(3,4), THEN exec_fst_same]
  show "sqlite_Add_spans c env (rename_data f d) t ctx = sqlite_Add_spans c env d s ctx"
    by (cases rule: NewSpan_cases [of ctx "''session.postgresql: INSERT''"]; simp add: sqlite_Add_spans_def Let_def e(1,2) same(1))
  show "postgresql_Add_spans c env (rename_data f d) t ctx = postgresql_Add_spans c env d s ctx"
    using e(3) by (cases rule: NewSpan_cases [of ctx "''session.postgresql: INSERT''"]; simp add: postgresql_Add_spans_def Let_def e(1,2) same(2)
        looks_alike_def)
qed

lemma Update_spans_renamed:
  assumes "stores_renamed c f s t" "total_cipher c" "keeps_empty f"
  shows "sqlite_Update_spans c env sid (rename_data f d) t ctx = sqlite_Update_spans c env sid d s ctx"
    "postgresql_Update_spans c env sid (rename_data f d) t ctx = postgresql_Update_spans c env sid d s ctx"
proof -
  obtain e e' where e: "encryptArgs c (env_nonces env) d = Inr e" "encryptArgs c (env_nonces env) (rename_data f d) = Inr e'"
    "looks_alike e e'" "row_renamed c f (row_of e) (row_of e')"
    using encrypt_renamed [OF assms(2,3)] by blast
  note same = stores_update [OF assms(1) e(3,4), THEN exec_fst_same]
  show "sqlite_Update_spans c env sid (rename_data f d) t ctx = sqlite_Update_spans c env sid d s ctx"
    by (cases rule: NewSpan_cases [of ctx "''session.postgresql: INSERT''"]; cases "sqlite_Get c (env_get_fault env) sid s")
       (simp_all add: sqlite_Update_spans_def Let_def Get_renamed [OF assms(1)] Get_spans_renamed [OF assms(1)] e(1,2) same(1))
  show "postgresql_Update_spans c env sid (rename_data f d) t ctx = postgresql_Update_spans c env sid d s ctx"
    using e(3)
    by (cases rule: NewSpan_cases [of ctx "''session.postgresql: INSERT''"]; cases "postgresql_Get c (env_get_fault env) sid s")
       (simp_all add: postgresql_Update_spans_def Let_def Get_renamed [OF assms(1)] Get_spans_renamed [OF assms(1)] e(1,2)
         same(2) looks_alike_def)
qed

interpretation sqlite_traces: renaming_traces "sqlite_impl c" "stored c" ids conn_open SqlErrNoRows "cipher_correct c"
    f "stores_renamed c f" "total_cipher c \<and> keeps_empty f" "sqlite_spans c"
  for c :: "cipher option" and f
  by unfold_locales (simp_all add: Add_spans_renamed Delete_spans_renamed Get_spans_renamed Update_spans_renamed)

interpretation postgresql_traces: renaming_traces "postgresql_impl c" "stored c" ids conn_open PgxErrNoRows "cipher_correct c"
    f "stores_renamed c f" "total_cipher c \<and> keeps_empty f" "postgresql_spans c"
  for c :: "cipher option" and f
  by unfold_locales (simp_all add: Add_spans_renamed Delete_spans_renamed Get_spans_renamed Update_spans_renamed)

lemma backend_traces:
  assumes "traced_backend c I T"
  obtains no_rows where "renaming_traces I (stored c) ids conn_open no_rows (cipher_correct c)
    f (stores_renamed c f) (total_cipher c \<and> keeps_empty f) T"
  using assms sqlite_traces.renaming_traces_axioms [of c f] postgresql_traces.renaming_traces_axioms [of c f]
  by (auto simp: traced_backend_def)

lemma traced_backend_backend: "traced_backend c I T \<Longrightarrow> backend c I"
  by (auto simp: traced_backend_def backend_def)

section \<open>The whole program\<close>

text \<open>What the tracer is sent for each event; the purges of the cleaner open no spans.\<close>

fun traces :: "store impl_spans \<Rightarrow> store system \<Rightarrow> event list \<Rightarrow> store \<Rightarrow> span_data list option list" where
  "traces T sys [] st = []"
| "traces T sys (Request a # evs) st =
     request_spans T sys a st \<lparr>ctx_tracer = None, ctx_span = []\<rparr> # traces T sys evs (serve sys (Request a) st)"
| "traces T sys (Tick env # evs) st = Some [] # traces T sys evs (serve sys (Tick env) st)"

lemma request_spans_same:
  assumes "traced_backend c (m_impl (sys_manager sys)) T" "total_cipher c" "keeps_empty f"
    and "incoming_renamed f a a'" "stores_renamed c f s t"
  shows "request_spans T sys a' t ctx = request_spans T sys a s ctx"
proof -
  obtain no_rows where S: "renaming_traces (m_impl (sys_manager sys)) (stored c) ids conn_open no_rows (cipher_correct c)
      f (stores_renamed c f) (total_cipher c \<and> keeps_empty f) T"
    using assms(1) by (rule backend_traces)
  have tame: "total_cipher c \<and> keeps_empty f" using assms(2,3) by simp
  note a = incoming_renamedD [OF assms(4)]
  have login: "spans_login (arr_env a') m cfg r ctx = spans_login (arr_env a) m cfg r ctx" for m :: "store manager" and cfg r ctx
    using NewSession_renamed [OF a(4) assms(3), of m cfg r] by (simp add: spans_login_def)
  have "route_spans T sys a' t route = route_spans T sys a s route" for route
    using renaming_traces.handler_spans_same [OF S tame assms(5) a(4) refl] login
    by (simp add: route_spans_def Let_def a fun_eq_iff split: route.splits)
  then show ?thesis by (simp add: request_spans_def a cong: mux_reply.case_cong option.case_cong)
qed

lemma traces_same:
  assumes "traced_backend c (m_impl (sys_manager sys)) T" "total_cipher c" "keeps_empty f"
    and "list_all2 (event_renamed f) evs evs'" "stores_renamed c f s t"
  shows "traces T sys evs' t = traces T sys evs s"
  using assms(4,5)
proof (induction arbitrary: s t rule: list_all2_induct)
  case (Cons ev evs ev' evs')
  note B = traced_backend_backend [OF assms(1)]
  obtain no_rows where S: "renaming_store (m_impl (sys_manager sys)) (stored c) ids conn_open no_rows (cipher_correct c)
      f (stores_renamed c f) (total_cipher c \<and> keeps_empty f)"
    using B by (rule backend_renaming)
  show ?case
  proof (cases ev)
    case (Request a)
    with Cons.hyps(1) obtain a' where a': "ev' = Request a'" "incoming_renamed f a a'" by (cases ev') auto
    have "stores_renamed c f (serve sys (Request a) s) (serve sys (Request a') t)"
      using serve_request_same [OF B assms(2,3) a'(2) Cons.prems] by (simp add: serve_def rel_prod_sel)
    with request_spans_same [OF assms(1-3) a'(2) Cons.prems] Request a'(1) Cons.IH show ?thesis by simp
  next
    case (Tick env)
    with Cons.hyps(1) have "ev' = Tick env" by (cases ev') auto
    with Tick Cons.IH renaming_store.Purge_same [OF S _ Cons.prems, of env] assms(2,3) show ?thesis
      by (simp add: serve_def rel_prod_sel)
  qed
qed simp

section \<open>Properties\<close>

text \<open>C3. Tokens do not reach the tracer either: in two runs of the program on the same requests and purges, from
  an empty database, that differ by a renaming of the tokens the provider hands out, every request exports the same
  spans, with the same attributes, statuses and error texts. (What is exported of a session is its id,
  its subject and its expiry.)\<close>

theorem traces_hide_tokens:
  assumes "traced_backend c (m_impl (sys_manager sys)) T" "total_cipher c" "keeps_empty f"
    and "list_all2 (event_renamed f) evs evs'"
  shows "traces T sys evs' \<lparr>table = Map.empty, conn_open = True\<rparr> = traces T sys evs \<lparr>table = Map.empty, conn_open = True\<rparr>"
  by (rule traces_same [OF assms]) (simp add: stores_renamed_def tables_renamed_def)

theorem traces_hide_tokens_witness:
  "traces (sqlite_spans None) ex_system [Request (ex_arrival\<lparr>arr_env := ex_renamed_env\<rparr>)] \<lparr>table = Map.empty, conn_open = True\<rparr> =
     traces (sqlite_spans None) ex_system [Request ex_arrival] \<lparr>table = Map.empty, conn_open = True\<rparr>"
proof -
  have "tl (ex_rename x) = x" for x by (simp add: ex_rename_def)
  then have "event_renamed ex_rename (Request ex_arrival) (Request (ex_arrival\<lparr>arr_env := ex_renamed_env\<rparr>))"
    by (simp add: incoming_renamed_def ex_arrival_def env_renamed_def ex_renamed_env_def)
  moreover have "keeps_empty ex_rename" by (simp add: keeps_empty_def ex_rename_def)
  ultimately show ?thesis
    by (intro traces_hide_tokens [of None ex_system _ ex_rename])
       (simp_all add: traced_backend_def ex_system_def total_cipher_def cipher_correct_def)
qed

end
