(* ===== verification/Program.thy ===== *)
theory Program
  imports Startup Routes
begin

text \<open>
  \<open>main\<close> of \<open>main.go\<close> from its first line to its last: the constructors (theory \<open>Startup\<close>), the
  proxies and their routes, the listener, the signal, and the deferred functions. A run is the
  list of what \<open>main\<close> does that can be seen from outside, and the way it ends. Deferred functions
  run in the reverse order of the \<open>defer\<close> statements when \<open>main\<close> returns or panics, and not at
  all when the logger's \<open>Fatal\<close> exits the process.
\<close>

section \<open>What can happen\<close>

datatype main_event =
    StartError go_error
    \<comment> \<open>one of the constructors failed and was reported with \<open>Fatal\<close>\<close>
  | Printed log_level string
  | CleanerAwaited
  | DatabaseClosed bool
    \<comment> \<open>\<open>CloseConnection(ctx)\<close>, and whether \<open>ctx\<close> was cancelled by then\<close>
  | TracerShutdown bool
  | LoggerSynced
  | SignalsStopped

datatype main_end =
    Exited
    \<comment> \<open>\<open>os.Exit(1)\<close>\<close>
  | Crashed
    \<comment> \<open>a panic, after the deferred functions\<close>
  | Blocked
    \<comment> \<open>in a deferred function, for ever\<close>
  | StillServing mux
  | Returned

datatype deferred = DeferStop | DeferSync | DeferShutdown | DeferClose | DeferWait

text \<open>Files, YAML, URLs, the listener and the closing calls are third-party code or the system.\<close>

record main_env =
  startup :: startup_env
  read_file :: "string \<Rightarrow> string result"
  yaml_Unmarshal :: "string \<Rightarrow> proxy_entry list result"
  url_Parse :: "string \<Rightarrow> url result"
  ListenAndServe :: "string \<Rightarrow> go_error option"
    \<comment> \<open>the error it returns with; \<open>None\<close> while it serves\<close>
  ErrServerClosed :: go_error
  Close :: "bool \<Rightarrow> go_error option"
    \<comment> \<open>given whether the context is cancelled\<close>
  Shutdown :: "bool \<Rightarrow> go_error option"
  ContextCanceled :: go_error

section \<open>Deferred functions\<close>

text \<open>
  \<open>None\<close>: the function does not return. \<open>WaitSessionCleaner\<close> waits for a goroutine that ends when
  the context is cancelled, that is when the signal came.
\<close>

fun run_deferred :: "main_env \<Rightarrow> bool \<Rightarrow> deferred \<Rightarrow> main_event list option" where
  "run_deferred env interrupted DeferWait =
     (if interrupted
      then Some [CleanerAwaited, Printed Debug ''session manager: the expired sessions cleaner is now stopped'']
      else None)"
| "run_deferred env interrupted DeferClose =
     Some (DatabaseClosed interrupted #
       (case Close env interrupted of
          None \<Rightarrow> []
        | Some err \<Rightarrow> [Printed Error ''error closing the database connection'']))"
| "run_deferred env interrupted DeferShutdown =
     Some (TracerShutdown interrupted #
       (case Shutdown env interrupted of
          None \<Rightarrow> []
        | Some err \<Rightarrow> if errors_is err (ContextCanceled env) then []
                      else [Printed Error ''error shutting down open-telemetry provider'']))"
| "run_deferred env interrupted DeferSync = Some [Printed Debug ''shutting down the logger'', LoggerSynced]"
| "run_deferred env interrupted DeferStop = Some [SignalsStopped]"

fun unwind :: "main_env \<Rightarrow> bool \<Rightarrow> deferred list \<Rightarrow> main_event list \<times> bool" where
  "unwind env interrupted [] = ([], True)"
| "unwind env interrupted (d # ds) =
     (case run_deferred env interrupted d of
        None \<Rightarrow> ([], False)
      | Some evs \<Rightarrow> (let (evs', completed) = unwind env interrupted ds in (evs @ evs', completed)))"

text \<open>The stack when all \<open>defer\<close> statements of \<open>main\<close> have been reached, last one first.\<close>

definition main_deferred :: "deferred list" where
  "main_deferred = [DeferWait, DeferClose, DeferShutdown, DeferSync, DeferStop]"

section \<open>Routes\<close>

definition proxy_message :: "proxy_entry \<Rightarrow> string" where
  "proxy_message p = ''creating proxy for service '' @ Target p @ '' on '' @ Endpoint p"

definition proxy_config_of :: "proxy_parameters \<Rightarrow> proxy_config" where
  "proxy_config_of q =
     \<lparr>pc_Timeout = ParamDialTimeout q, pc_KeepAlive = ParamDialKeepAlive q,
      pc_MaxIdleConns = ParamMaxIdleConns q, pc_IdleConnTimeout = ParamIdleConnTimeout q\<rparr>"

text \<open>The loop over the proxies: \<open>Fatal\<close> when a target is no URL, a panic of \<open>mux.Handle\<close> on a bad endpoint.\<close>

fun add_proxies :: "main_env \<Rightarrow> proxy_entry list \<Rightarrow> mux \<Rightarrow> main_event list \<times> (main_end + mux)" where
  "add_proxies env [] t = ([], Inr t)"
| "add_proxies env (p # ps) t =
     (case NewProxy (url_Parse env) (Target p) (proxy_config_of (Parameters p)) of
        Inl err \<Rightarrow>
          ([Printed Info (proxy_message p),
            Printed Fatal (''error creating proxy service for '' @ Target p @ '' on '' @ Endpoint p)], Inl Exited)
      | Inr proxy \<Rightarrow>
          (case mux_handle (Endpoint p) (ProxyRoute (rp_target proxy)) t of
             None \<Rightarrow> ([Printed Info (proxy_message p)], Inl Crashed)
           | Some t' \<Rightarrow>
               (let (evs, res) = add_proxies env ps t' in (Printed Info (proxy_message p) # evs, res))))"

definition add_root :: "mux \<Rightarrow> main_end + mux" where
  "add_root t = (case mux_handle ''/'' RootRoute t of None \<Rightarrow> Inl Crashed | Some t' \<Rightarrow> Inr t')"

definition setup_routes :: "main_env \<Rightarrow> config \<Rightarrow> main_event list \<times> (main_end + mux)" where
  "setup_routes env c =
     (case mux_handle_all fixed_routes [] of
        None \<Rightarrow> ([], Inl Crashed)
      | Some t \<Rightarrow>
          if ProxyConfig c = [] then ([], add_root t)
          else
            (case ReadProxyConfig (read_file env) (yaml_Unmarshal env) c of
               Inl err \<Rightarrow> ([Printed Fatal ''cannot read the proxy configuration''], Inl Exited)
             | Inr ps \<Rightarrow>
                 (case add_proxies env ps t of
                    (evs, Inl e) \<Rightarrow> (evs, Inl e)
                  | (evs, Inr t') \<Rightarrow> (evs, add_root t'))))"

section \<open>main\<close>

definition listening :: "config \<Rightarrow> main_event" where
  "listening c = Printed Info (''main service is listening on '' @ ListenAddr c)"

definition main_run :: "main_env \<Rightarrow> bool \<Rightarrow> db_globals \<Rightarrow> main_event list \<times> main_end" where
  "main_run env interrupted g =
     (case start (startup env) g of
        (Inl err, _) \<Rightarrow> ([StartError err], Exited)
      | (Inr x, _) \<Rightarrow>
          (case setup_routes env (st_config x) of
             (evs, Inl Exited) \<Rightarrow> (evs, Exited)
           | (evs, Inl _) \<Rightarrow>
               (let (evs', completed) = unwind env interrupted main_deferred
                in (evs @ evs', if completed then Crashed else Blocked))
           | (evs, Inr t) \<Rightarrow>
               (if (case ListenAndServe env (ListenAddr (st_config x)) of None \<Rightarrow> False | Some err \<Rightarrow> \<not> errors_is err (ErrServerClosed env))
                then (evs @ [listening (st_config x), Printed Fatal ''error starting the api server''], Exited)
                else if \<not> interrupted then (evs @ [listening (st_config x)], StillServing t)
                else
                  (let (evs', completed) = unwind env interrupted main_deferred
                   in (evs @ [listening (st_config x), Printed Info ''shutting down gracefully, press Ctrl+C again to force'', SignalsStopped]
                         @ evs', if completed then Returned else Blocked)))))"

section \<open>Lemmas\<close>

fun cleanup :: "main_event \<Rightarrow> bool" where
  "cleanup CleanerAwaited = True"
| "cleanup (DatabaseClosed _) = True"
| "cleanup (TracerShutdown _) = True"
| "cleanup LoggerSynced = True"
| "cleanup _ = False"

lemma unwind_interrupted:
  "filter cleanup (fst (unwind env True main_deferred)) = [CleanerAwaited, DatabaseClosed True, TracerShutdown True, LoggerSynced] \<and>
   snd (unwind env True main_deferred)"
  by (simp add: main_deferred_def Let_def split: option.splits)

lemma unwind_blocked: "unwind env False main_deferred = ([], False)"
  by (simp add: main_deferred_def)

lemma add_proxies_cleanup: "filter cleanup (fst (add_proxies env ps t)) = []"
  by (induction ps arbitrary: t) (auto simp: Let_def split: sum.splits option.splits prod.splits, metis fst_conv)

lemma setup_routes_cleanup: "filter cleanup (fst (setup_routes env c)) = []"
proof -
  have "filter cleanup evs = []" if "add_proxies env ps t = (evs, res)" for ps t evs res
    using add_proxies_cleanup [of env ps t] that by simp
  then show ?thesis by (auto simp: setup_routes_def split: option.splits sum.splits prod.splits)
qed

text \<open>When every target is a URL the loop registers the endpoints or panics.\<close>

definition targets :: "main_env \<Rightarrow> proxy_entry list \<Rightarrow> (string \<times> url) list" where
  "targets env ps = map (\<lambda>p. (Endpoint p, projr (url_Parse env (Target p)))) ps"

lemma add_proxies_handle_all:
  assumes "\<forall>p\<in>set ps. \<not> isl (url_Parse env (Target p))"
  shows "snd (add_proxies env ps t) =
    (case mux_handle_all (map (\<lambda>(e, u). (e, ProxyRoute u)) (targets env ps)) t of None \<Rightarrow> Inl Crashed | Some t' \<Rightarrow> Inr t')"
  using assms
proof (induction ps arbitrary: t)
  case (Cons p ps)
  then obtain u where "url_Parse env (Target p) = Inr u" by (cases "url_Parse env (Target p)") auto
  then show ?case
    using Cons by (simp add: targets_def NewProxy_def Let_def case_prod_beta split: option.splits)
qed (simp add: targets_def)

lemma mux_handle_all_append:
  "mux_handle_all (xs @ ys) t = (case mux_handle_all xs t of None \<Rightarrow> None | Some t' \<Rightarrow> mux_handle_all ys t')"
  by (induction xs t rule: mux_handle_all.induct) (auto split: option.splits)

lemma setup_routes_result:
  assumes "ProxyConfig c \<noteq> []" "ReadProxyConfig (read_file env) (yaml_Unmarshal env) c = Inr ps"
    and "\<forall>p\<in>set ps. \<not> isl (url_Parse env (Target p))"
  shows "snd (setup_routes env c) = (case routes (targets env ps) of None \<Rightarrow> Inl Crashed | Some t \<Rightarrow> Inr t)"
proof -
  obtain t where t: "mux_handle_all fixed_routes [] = Some t" by (simp add: fixed_routes_def mux_handle_def)
  obtain evs res where r: "add_proxies env ps t = (evs, res)" by fastforce
  have "add_root t' = (case mux_handle_all [(''/'', RootRoute)] t' of None \<Rightarrow> Inl Crashed | Some t \<Rightarrow> Inr t)" for t'
    by (simp add: add_root_def split: option.splits)
  then show ?thesis
    using assms(1,2) t r add_proxies_handle_all [OF assms(3), of t]
    by (simp add: setup_routes_def routes_def mux_handle_all_append split: option.splits)
qed

lemma exit_no_cleanup:
  assumes "snd (main_run env interrupted g) = Exited"
  shows "filter cleanup (fst (main_run env interrupted g)) = []"
proof -
  have "filter cleanup evs = []" if "setup_routes env c = (evs, res)" for c evs res
    using setup_routes_cleanup [of env c] that by simp
  then show ?thesis
    using assms by (auto simp: main_run_def Let_def listening_def
        split: prod.splits sum.splits main_end.splits if_splits)
qed

section \<open>Properties\<close>

text \<open>C19. How \<open>main\<close> ends. Once everything has started, with a proxy configuration whose targets are URLs:
  if the endpoints are acceptable, \<open>main\<close> serves them until the signal comes, and then awaits the
  cleaner, closes the database, shuts the tracer down and flushes the logger, in this order, and returns;
  the database and the tracer get a context that is cancelled already. If they are not (an endpoint is empty, is given
  twice or is one of the program's own), registering it panics, and the first deferred function
  then waits for a cleaner that nobody stops: \<open>main\<close> neither serves nor ends until a signal comes.
  And whenever \<open>main\<close> exits on an error, nothing is cleaned up: an open database is not closed.\<close>

theorem main_ends:
  assumes "start (startup env) g = (Inr x, g')" "ProxyConfig (st_config x) \<noteq> []"
    and "ReadProxyConfig (read_file env) (yaml_Unmarshal env) (st_config x) = Inr ps"
    and "\<forall>p\<in>set ps. \<not> isl (url_Parse env (Target p))" "ListenAndServe env (ListenAddr (st_config x)) = None"
  shows "(\<forall>t. routes (targets env ps) = Some t \<longrightarrow>
      snd (main_run env False g) = StillServing t \<and> snd (main_run env True g) = Returned) \<and>
    (routes (targets env ps) = None \<longrightarrow>
      snd (main_run env False g) = Blocked \<and> filter cleanup (fst (main_run env False g)) = [] \<and>
      snd (main_run env True g) = Crashed) \<and>
    filter cleanup (fst (main_run env True g)) = [CleanerAwaited, DatabaseClosed True, TracerShutdown True, LoggerSynced] \<and>
    (\<forall>env' interrupted g. snd (main_run env' interrupted g) = Exited \<longrightarrow> filter cleanup (fst (main_run env' interrupted g)) = [])"
proof -
  obtain evs res where r: "setup_routes env (st_config x) = (evs, res)" by fastforce
  have evs: "filter cleanup evs = []" using setup_routes_cleanup [of env "st_config x"] r by simp
  have res: "res = (case routes (targets env ps) of None \<Rightarrow> Inl Crashed | Some t \<Rightarrow> Inr t)"
    using setup_routes_result [OF assms(2-4)] r by simp
  obtain devs where u: "unwind env True main_deferred = (devs, True)"
      "filter cleanup devs = [CleanerAwaited, DatabaseClosed True, TracerShutdown True, LoggerSynced]"
    using unwind_interrupted [of env] by (metis prod.collapse)
  show ?thesis
    using exit_no_cleanup
    by (cases "routes (targets env ps)")
       (simp_all add: main_run_def assms(1,5) r res evs u unwind_blocked listening_def)
qed

definition ex_main :: "string \<Rightarrow> main_env" where
  "ex_main endpoint =
     \<lparr>startup = (ex_startup [])\<lparr>viper_unmarshal := Inr ((ex_app_config [])\<lparr>ProxyConfig := ''proxy.yaml''\<rparr>)\<rparr>,
      read_file = (\<lambda>_. Inr []),
      yaml_Unmarshal = (\<lambda>_. Inr [\<lparr>Endpoint = endpoint, Target = ''http://items'',
        Parameters = \<lparr>ParamIdleConnTimeout = 90 * second, ParamMaxIdleConns = 100, ParamDialKeepAlive = 30 * second,
          ParamDialTimeout = 30 * second\<rparr>\<rparr>]),
      url_Parse = (\<lambda>_. Inr ex_target), ListenAndServe = (\<lambda>_. None),
      ErrServerClosed = ErrVar ''http.ErrServerClosed'' ''http: Server closed'',
      Close = (\<lambda>_. None), Shutdown = (\<lambda>c. if c then Some (ErrVar ''context.Canceled'' ''context canceled'') else None),
      ContextCanceled = ErrVar ''context.Canceled'' ''context canceled''\<rparr>"

lemma ex_main_starts:
  "\<exists>x g. start (startup (ex_main e)) initial_db_globals = (Inr x, g) \<and> st_config x = (ex_app_config [])\<lparr>ProxyConfig := ''proxy.yaml''\<rparr>"
proof -
  let ?c = "(ex_app_config [])\<lparr>ProxyConfig := ''proxy.yaml''\<rparr>"
  let ?env = "startup (ex_main e)"
  have v: "valid_config ?c"
    using ex_app_config_valid [of "[]"] by (simp add: sized_def valid_config_def present_def)
  obtain oc where oc: "NewConfiguration (discovery ?env) (OidcClientID ?c) (OidcClientSecret ?c) (OidcIssuer ?c) (OidcRedirectURL ?c) = Inr oc"
    using ex_discovery [of "[]" ?c] by (auto simp: ex_main_def)
  have lvl: "level_Set (zap ?env) (LogLevel ?c) = Inr Info"
    by (simp add: ex_main_def ex_startup_def ex_zap_def ex_app_config_def default_config_def Let_def)
  have "viper_bind ?env = Inr ()" "viper_unmarshal ?env = Inr ?c" "jaeger_New ?env ''localhost'' ''6831'' = Inr ()"
    "NewXChaCha20Cipher ?env a b = (None, Some (no_encryption_keys ?env))"
    "open_result (db_open ?env) dsn = Inr ()" "create_result (db_open ?env) dsn = Inr ()" for a b dsn
    by (simp_all add: ex_main_def ex_startup_def)
  note hyps = this
  have "length (SessionEncSecret ?c) \<noteq> 24" "length (SessionOldEncSecret ?c) \<noteq> 24"
    by (simp_all add: ex_app_config_def default_config_def)
  with start_valid [OF hyps(1,2) v lvl hyps(3,4) _ hyps(5,6) oc] show ?thesis by blast
qed

text \<open>A proxy on a path of its own, and one on the path of the login.\<close>

theorem main_ends_witness:
  "snd (main_run (ex_main ''/items/'') True initial_db_globals) = Returned \<and>
   snd (main_run (ex_main ''/login'') False initial_db_globals) = Blocked"
proof -
  have run: "(\<forall>t. routes [(e, ex_target)] = Some t \<longrightarrow> snd (main_run (ex_main e) True initial_db_globals) = Returned) \<and>
      (routes [(e, ex_target)] = None \<longrightarrow> snd (main_run (ex_main e) False initial_db_globals) = Blocked)" for e
  proof -
    obtain x g where x: "start (startup (ex_main e)) initial_db_globals = (Inr x, g)"
        "st_config x = (ex_app_config [])\<lparr>ProxyConfig := ''proxy.yaml''\<rparr>"
      using ex_main_starts by blast
    let ?ps = "[\<lparr>Endpoint = e, Target = ''http://items'',
        Parameters = \<lparr>ParamIdleConnTimeout = 90 * second, ParamMaxIdleConns = 100, ParamDialKeepAlive = 30 * second,
          ParamDialTimeout = 30 * second\<rparr>\<rparr>]"
    have "ProxyConfig (st_config x) \<noteq> []"
        "ReadProxyConfig (read_file (ex_main e)) (yaml_Unmarshal (ex_main e)) (st_config x) = Inr ?ps"
        "\<forall>p\<in>set ?ps. \<not> isl (url_Parse (ex_main e) (Target p))" "ListenAndServe (ex_main e) (ListenAddr (st_config x)) = None"
      by (simp_all add: x(2) ReadProxyConfig_def ex_main_def)
    moreover have "targets (ex_main e) ?ps = [(e, ex_target)]" by (simp add: targets_def ex_main_def)
    ultimately show ?thesis using main_ends [OF x(1), of ?ps] by simp
  qed
  have "routes [(''/items/'', ex_target)] \<noteq> None" "routes [(''/login'', ex_target)] = None"
    by (simp_all add: routes_def fixed_routes_def mux_handle_def)
  with run [of "''/items/''"] run [of "''/login''"] show ?thesis by auto
qed

end
