(* ===== verification/Test_Backend.thy ===== *)
theory Test_Backend
  imports Program
begin

text \<open>
  \<open>test/backend_services/authorize.go\<close> and \<open>main.go\<close>: the demonstration service that the proxy
  forwards to. \<open>Authorize\<close> takes the bearer token out of the \<open>Authorization\<close> header, verifies it
  and puts its claims into the context. The verifier and the decoder of the claims belong to
  \<open>go-oidc\<close> and are parameters. The \<open>main\<close> of the service is a shorter one than that of the program; the
  events of a run are those of \<open>Program\<close>.
\<close>

section \<open>strings\<close>

definition has_prefix :: "string \<Rightarrow> string \<Rightarrow> bool" where
  "has_prefix p s \<longleftrightarrow> take (length p) s = p"

text \<open>\<open>strings.Split\<close> for a separator that is not empty; the accumulator holds the current part.\<close>

function split_from :: "string \<Rightarrow> string \<Rightarrow> string \<Rightarrow> string list" where
  "split_from sep part [] = [rev part]"
| "split_from sep part (c # s) =
     (if has_prefix sep (c # s) then rev part # split_from sep [] (drop (length sep - 1) s)
      else split_from sep (c # part) s)"
  by pat_completeness auto
termination
  by (relation "measure (\<lambda>(sep, part, s). length s)") auto

definition strings_Split :: "string \<Rightarrow> string \<Rightarrow> string list" where
  "strings_Split s sep = split_from sep [] s"

text \<open>\<open>strings.TrimSpace\<close> on ASCII text.\<close>

definition is_space :: "char \<Rightarrow> bool" where
  "is_space c \<longleftrightarrow> c \<in> {CHR '' '', CHR 0x09, CHR 0x0A, CHR 0x0B, CHR 0x0C, CHR 0x0D}"

definition strings_TrimSpace :: "string \<Rightarrow> string" where
  "strings_TrimSpace s = rev (dropWhile is_space (rev (dropWhile is_space s)))"

section \<open>Authorize\<close>

record claims =
  Sub :: string
  Azp :: string
  Scope :: string
  EmailVerified :: bool
  FullName :: string
  PreferredUsername :: string
  GivenName :: string
  FamilyName :: string
  Email :: string
  Emails :: "string list"

record backend_env =
  backend_timestamp :: string
  Verify :: "string \<Rightarrow> string \<Rightarrow> string result"
    \<comment> \<open>the payload of a token that is valid for the client id\<close>
  Claims :: "string \<Rightarrow> claims result"
    \<comment> \<open>its claims, decoded\<close>

text \<open>The package variable \<open>clientId\<close>: the audience a token must have.\<close>

definition service_clientId :: string where
  "service_clientId = ''account''"

text \<open>\<open>Header.Get\<close>: the first value, or the empty string.\<close>

definition header_get :: "header \<Rightarrow> string \<Rightarrow> string" where
  "header_get h k = (case header_values h k of [] \<Rightarrow> [] | v # _ \<Rightarrow> v)"

definition Authorize :: "backend_env \<Rightarrow> string \<times> string \<Rightarrow> (claims \<Rightarrow> hop list) \<Rightarrow> proxy_request \<Rightarrow> hop list" where
  "Authorize env trace next_handler r =
     FromCtx (fst trace) (snd trace) #
     (let splitToken = strings_Split (header_get (pr_header r) ''Authorization'') ''Bearer'' in
      if length splitToken \<noteq> 2 then
        JsonError (backend_timestamp env) 401 [] (Some (Errorf ''cannot split the bearer token'' []))
      else
        (case Verify env service_clientId (strings_TrimSpace (splitToken ! 1)) of
           Inl err \<Rightarrow> JsonError (backend_timestamp env) 401 [] (Some err)
         | Inr payload \<Rightarrow>
             (case Claims env payload of
                Inl err \<Rightarrow> JsonError (backend_timestamp env) 401 [] (Some err)
              | Inr claims \<Rightarrow> next_handler claims)))"

text \<open>The root handler, with the claims of the context; the JSON text of the answer is a parameter.\<close>

definition backend_rootHandler :: "backend_env \<Rightarrow> string \<times> string \<Rightarrow> string result \<Rightarrow> claims option \<Rightarrow> hop list" where
  "backend_rootHandler env trace json_data claims =
     FromCtx (fst trace) (snd trace) #
     (case claims of
        None \<Rightarrow> JsonError (backend_timestamp env) 401 [] (Some (Errorf ''cannot retrieve the token claims'' []))
      | Some _ \<Rightarrow>
          (case json_data of
             Inl err \<Rightarrow> JsonError (backend_timestamp env) 500 [] (Some err)
           | Inr text \<Rightarrow> [Write text]))"

text \<open>
  The handler of the server: \<open>Authorize\<close> around a mux with the one route \<open>/\<close>, so a request is
  authorized before it is dispatched.
\<close>

definition backend_serve :: "backend_env \<Rightarrow> string \<times> string \<Rightarrow> string result \<Rightarrow> proxy_request \<Rightarrow> hop list" where
  "backend_serve env trace json_data r =
     Authorize env trace (\<lambda>claims.
       case mux_dispatch [(''/'', RootRoute)] (pr_method r) (pr_host r) (pr_url r) of
         Redirect loc \<Rightarrow> http_redirect (pr_method r) loc 301
       | Dispatch None \<Rightarrow> not_found
       | Dispatch (Some _) \<Rightarrow> backend_rootHandler env trace json_data (Some claims)) r"

section \<open>main\<close>

text \<open>
  The environment variables, the set-up of the provider in \<open>init\<close>, and the rest as for \<open>main\<close> of the program. When
  the server cannot listen its goroutine calls \<open>stop\<close>, which wakes \<open>main\<close>, and then \<open>log.Fatal\<close>:
  either may come first (\<open>main_first\<close>).
\<close>

record service_env =
  LISTEN_ADDRESS :: string
  OIDC_ISSUER :: string
  oidc_NewProvider :: "string \<Rightarrow> unit result"
  service_main :: main_env

definition listenAddress :: "service_env \<Rightarrow> string" where
  "listenAddress env = (if LISTEN_ADDRESS env \<noteq> [] then LISTEN_ADDRESS env else '':9081'')"

text \<open>\<open>init\<close> of \<open>authorize.go\<close> ends the process when the issuer cannot be reached.\<close>

definition service_init :: "service_env \<Rightarrow> main_event + unit" where
  "service_init env =
     (case oidc_NewProvider env (OIDC_ISSUER env) of
        Inl err \<Rightarrow> Inl (Printed Fatal ''error initializing the oidc provider'')
      | Inr provider \<Rightarrow> Inr provider)"

definition service_run :: "service_env \<Rightarrow> bool \<Rightarrow> bool \<Rightarrow> main_event list \<times> main_end" where
  "service_run env interrupted main_first =
     (let menv = service_main env in
      case service_init env of
        Inl event \<Rightarrow> ([event], Exited)
      | Inr _ \<Rightarrow>
     (case NewLogger (zap (startup menv)) ''info'' False of
        Inl err \<Rightarrow> ([Printed Fatal ''error initializing the logger''], Exited)
      | Inr _ \<Rightarrow>
     (case InitTracer (jaeger_New (startup menv)) ''backend-test-service'' ''localhost'' ''6831'' initial_otel of
        (Inl err, _) \<Rightarrow> ([Printed Fatal ''error initializing the open-telemetry tracer''], Exited)
      | (Inr tp, _) \<Rightarrow>
          (let failed = (case ListenAndServe menv (listenAddress env) of
                           None \<Rightarrow> False
                         | Some err \<Rightarrow> \<not> errors_is err (ErrServerClosed menv))
           in if failed \<and> \<not> main_first
              then ([SignalsStopped, Printed Fatal ''error starting the api server:''], Exited)
              else if \<not> failed \<and> \<not> interrupted then ([], StillServing [(''/'', RootRoute)])
              else
                (let (evs, completed) = unwind menv True [DeferShutdown, DeferSync, DeferStop]
                 in ((if failed then [SignalsStopped] else []) @
                     [Printed Info ''shutting down gracefully, press Ctrl+C again to force'', SignalsStopped] @ evs,
                     if completed then Returned else Blocked))))))"

text \<open>
  The service returns from \<open>main\<close>, with exit status 0, when it is told to stop; and, if \<open>main\<close> is
  the faster one, when it could not listen at all.
\<close>

lemma service_returns:
  assumes "oidc_NewProvider env (OIDC_ISSUER env) = Inr u" "NewLogger (zap (startup (service_main env))) ''info'' False = Inr l"
    and "jaeger_New (startup (service_main env)) ''localhost'' ''6831'' = Inr v"
  shows "snd (service_run env interrupted main_first) =
    (case ListenAndServe (service_main env) (listenAddress env) of
       Some err \<Rightarrow>
         if \<not> errors_is err (ErrServerClosed (service_main env)) then (if main_first then Returned else Exited)
         else if interrupted then Returned else StillServing [(''/'', RootRoute)]
     | None \<Rightarrow> if interrupted then Returned else StillServing [(''/'', RootRoute)])"
  using assms
  by (simp add: service_run_def service_init_def InitTracer_def Let_def case_prod_beta split: option.splits)

section \<open>The token the proxy injects arrives\<close>

text \<open>Where the separator occurs nowhere, nothing is split.\<close>

lemma split_from_none:
  assumes "\<And>n. n < length s \<Longrightarrow> \<not> has_prefix sep (drop n s)"
  shows "split_from sep part s = [rev part @ s]"
  using assms
proof (induction s arbitrary: part)
  case (Cons c s)
  have "\<not> has_prefix sep (c # s)" using Cons.prems [of 0] by simp
  moreover have "split_from sep (c # part) s = [rev (c # part) @ s]"
    using Cons.prems [of "Suc n" for n] by (intro Cons.IH) auto
  ultimately show ?case by simp
qed simp

text \<open>Base64url text with dots, as tokens are, has neither blanks nor the separator.\<close>

definition plain_token :: "string \<Rightarrow> bool" where
  "plain_token t \<longleftrightarrow> list_all (\<lambda>c. \<not> is_space c) t \<and> (\<forall>n<length t. \<not> has_prefix ''Bearer'' (drop n t))"

lemma trim_plain: "list_all (\<lambda>c. \<not> is_space c) t \<Longrightarrow> strings_TrimSpace (CHR '' '' # t) = t"
proof -
  assume t: "list_all (\<lambda>c. \<not> is_space c) t"
  then have "dropWhile is_space t = t" "dropWhile is_space (rev t) = rev t"
    by (auto simp: dropWhile_eq_self_iff list_all_iff) (metis hd_in_set rev_is_Nil_conv set_rev)
  then show ?thesis by (simp add: strings_TrimSpace_def is_space_def)
qed

lemma split_bearer:
  assumes "plain_token t"
  shows "strings_Split (''Bearer '' @ t) ''Bearer'' = [[], CHR '' '' # t]"
proof -
  have "\<not> has_prefix ''Bearer'' (drop n (CHR '' '' # t))" if "n < length (CHR '' '' # t)" for n
    using that assms by (cases n) (auto simp: plain_token_def has_prefix_def)
  then have "split_from ''Bearer'' [] (CHR '' '' # t) = [rev [] @ CHR '' '' # t]" by (rule split_from_none)
  then show ?thesis by (simp add: strings_Split_def has_prefix_def)
qed

text \<open>
  Behind the proxy the service verifies exactly the access token of the session, whatever
  \<open>Authorization\<close> header the browser sent. (A browser can only have the header dropped, by naming it in
  \<open>Connection\<close>; the request is then refused.)
\<close>

lemma authorize_behind_proxy:
  assumes "injects_trace_only inject" "plain_token token" "Verify env service_clientId token = Inr payload" "Claims env payload = Inr claims"
  shows "Authorize env trace next_handler (outgoing inject target (Some (VString token)) r) =
    FromCtx (fst trace) (snd trace) #
    (if ''Authorization'' \<in> set (connection_tokens (pr_header r))
     then JsonError (backend_timestamp env) 401 [] (Some (Errorf ''cannot split the bearer token'' []))
     else next_handler claims)"
proof -
  have "header_get (pr_header (outgoing inject target (Some (VString token)) r)) ''Authorization'' =
      (if ''Authorization'' \<in> set (connection_tokens (pr_header r)) then [] else ''Bearer '' @ token)"
    using outgoing_header [OF assms(1), of "''Authorization''" target token r] by (simp add: header_get_def hop_headers_def)
  moreover have "strings_TrimSpace (CHR '' '' # token) = token"
    using assms(2) by (intro trim_plain) (simp add: plain_token_def)
  ultimately show ?thesis
    using assms(3,4) split_bearer [OF assms(2)] by (simp add: Authorize_def Let_def strings_Split_def)
qed

text \<open>The root route is the only one, so an authorized request gets the answer of the root handler or a redirect.\<close>

lemma backend_serve_authorized:
  assumes "injects_trace_only inject" "plain_token token" "Verify env service_clientId token = Inr payload" "Claims env payload = Inr claims"
    and "''Authorization'' \<notin> set (connection_tokens (pr_header r))" "clean_path (url_path target) = url_path target" "pr_method r \<noteq> ''CONNECT''"
  shows "backend_serve env trace (Inr text) (outgoing inject target (Some (VString token)) r) =
    [FromCtx (fst trace) (snd trace), FromCtx (fst trace) (snd trace), Write text]"
proof -
  let ?o = "outgoing inject target (Some (VString token)) r"
  have o: "pr_url ?o = target" "pr_method ?o = pr_method r"
    by (simp_all add: outgoing_def Director_def Let_def)
  have p: "starts_with ''/'' (url_path target)" "url_path target \<noteq> []"
    using clean_path_hd [of "url_path target"] assms(6) by (auto simp: starts_with_def)
  obtain h where "mux_dispatch [(''/'', RootRoute)] (pr_method ?o) (pr_host ?o) (pr_url ?o) = Dispatch (Some h)"
    using assms(6,7) p mux_match_total [of RootRoute "[(''/'', RootRoute)]" "url_path target"]
    by (auto simp: mux_dispatch_def o should_redirect_def mux_handler_def Let_def split: option.splits)
  then show ?thesis
    using assms(5) by (simp add: backend_serve_def authorize_behind_proxy [OF assms(1-4)] backend_rootHandler_def)
qed

end
