(* ===== verification/Concurrency.thy ===== *)
theory Concurrency
  imports System Statements
begin

text \<open>
  Requests that are served at the same time. \<open>net/http\<close> runs every request in a goroutine of its
  own; what they share is the database. A handler makes at most three SQL statements, in
  this order: the \<open>SELECT\<close> of \<open>GetSession\<close>, the \<open>SELECT\<close> at the start of \<open>Update\<close>, and one that writes. Between
  them the statements of other requests, the purges of the cleaner and the closing of the
  connection may run. Here a handler runs, unchanged, on a back end that answers each of its statements
  from the database of another moment, and the step relation \<open>runs\<close> interleaves the
  statements of any number of requests.
\<close>

section \<open>A back end at three moments\<close>

text \<open>What one request sees of the database at each of its statements.\<close>

record 's instants =
  at_lookup :: 's
  at_check :: 's
  at_write :: 's

definition timed :: "'s session_impl \<Rightarrow> 's update_read \<Rightarrow> 's update_write \<Rightarrow> 's instants session_impl" where
  "timed I rd wr =
     \<lparr>CloseConnection = (\<lambda>env i. (let (r, s) = CloseConnection I env (at_write i) in (r, i\<lparr>at_write := s\<rparr>))),
      Add = (\<lambda>env d i. (let (r, s) = Add I env d (at_write i) in (r, i\<lparr>at_write := s\<rparr>))),
      Delete = (\<lambda>env sid i. (let (r, s) = Delete I env sid (at_write i) in (r, i\<lparr>at_write := s\<rparr>))),
      Get = (\<lambda>env sid i. Get I env sid (at_lookup i)),
      Update = (\<lambda>env sid d i.
        (case rd env sid d (at_check i) of
           Inl e \<Rightarrow> (Inl e, i)
         | Inr enc \<Rightarrow> (let (r, s) = wr env sid enc (at_write i) in (r, i\<lparr>at_write := s\<rparr>)))),
      Purge = (\<lambda>env i. (let (r, s) = Purge I env (at_write i) in (r, i\<lparr>at_write := s\<rparr>)))\<rparr>"

definition with_impl :: "'s manager \<Rightarrow> 't session_impl \<Rightarrow> 't manager" where
  "with_impl m I = manager_base.extend (manager_base.truncate m) \<lparr>m_impl = I\<rparr>"

definition timed_system :: "'s update_read \<Rightarrow> 's update_write \<Rightarrow> 's system \<Rightarrow> 's instants system" where
  "timed_system rd wr sys =
     \<lparr>sys_manager = with_impl (sys_manager sys) (timed (m_impl (sys_manager sys)) rd wr),
      sys_oidc = sys_oidc sys, sys_login_uri = sys_login_uri sys, sys_logout_uri = sys_logout_uri sys,
      sys_mux = sys_mux sys\<rparr>"

section \<open>Interleaving\<close>

datatype 's progress = Arrived | LookedUp 's | Checked 's 's

record 's running =
  database :: 's
  flight :: "nat \<rightharpoonup> incoming \<times> 's progress"
    \<comment> \<open>by goroutine\<close>

datatype turn =
    Arrive nat incoming
  | LookUp nat
  | Check nat
  | Answer nat "hop list"
    \<comment> \<open>its last statement, and the calls it makes on the response\<close>
  | CleanUp db_env
  | Disconnect db_env

inductive runs :: "'s system \<Rightarrow> 's update_read \<Rightarrow> 's update_write \<Rightarrow> 's \<Rightarrow> turn list \<Rightarrow> 's running \<Rightarrow> bool"
  for sys rd wr st0 where
  idle: "runs sys rd wr st0 [] \<lparr>database = st0, flight = Map.empty\<rparr>"
| arrives: "runs sys rd wr st0 ts s \<Longrightarrow> flight s n = None \<Longrightarrow>
    runs sys rd wr st0 (ts @ [Arrive n a]) (s\<lparr>flight := (flight s)(n \<mapsto> (a, Arrived))\<rparr>)"
| looks_up: "runs sys rd wr st0 ts s \<Longrightarrow> flight s n = Some (a, Arrived) \<Longrightarrow>
    runs sys rd wr st0 (ts @ [LookUp n]) (s\<lparr>flight := (flight s)(n \<mapsto> (a, LookedUp (database s)))\<rparr>)"
| checks: "runs sys rd wr st0 ts s \<Longrightarrow> flight s n = Some (a, LookedUp st1) \<Longrightarrow>
    runs sys rd wr st0 (ts @ [Check n]) (s\<lparr>flight := (flight s)(n \<mapsto> (a, Checked st1 (database s)))\<rparr>)"
| answers: "runs sys rd wr st0 ts s \<Longrightarrow> flight s n = Some (a, Checked st1 st2) \<Longrightarrow>
    serve_request (timed_system rd wr sys) a \<lparr>at_lookup = st1, at_check = st2, at_write = database s\<rparr> = (hops, i) \<Longrightarrow>
    runs sys rd wr st0 (ts @ [Answer n hops]) (s\<lparr>database := at_write i, flight := (flight s)(n := None)\<rparr>)"
| cleans_up: "runs sys rd wr st0 ts s \<Longrightarrow>
    runs sys rd wr st0 (ts @ [CleanUp env]) (s\<lparr>database := snd (Purge (m_impl (sys_manager sys)) env (database s))\<rparr>)"
| disconnects: "runs sys rd wr st0 ts s \<Longrightarrow>
    runs sys rd wr st0 (ts @ [Disconnect env]) (s\<lparr>database := snd (CloseConnection (m_impl (sys_manager sys)) env (database s))\<rparr>)"

inductive_cases runs_snocE: "runs sys rd wr st0 (ts @ [t]) s"

lemmas runs_snoc_cases = runs_snocE [consumes 1, case_names arrives looks_up checks answers cleans_up disconnects]

lemma runs_deterministic: "runs sys rd wr st0 ts s \<Longrightarrow> runs sys rd wr st0 ts s' \<Longrightarrow> s' = s"
proof (induction arbitrary: s' rule: runs.induct)
  case idle
  then show ?case by (cases rule: runs.cases) simp_all
qed (erule runs_snocE; fastforce)+

lemma runs_prefix: "runs sys rd wr st0 (ts @ us) s \<Longrightarrow> \<exists>s'. runs sys rd wr st0 ts s'"
proof (induction us arbitrary: s rule: rev_induct)
  case (snoc t us)
  from snoc.prems [folded append_assoc] obtain s' where "runs sys rd wr st0 (ts @ us) s'" by (cases rule: runs_snocE)
  then show ?case by (rule snoc.IH)
qed auto

text \<open>The ids that requests draw for the sessions they may add.\<close>

fun drawn_uuids :: "turn list \<Rightarrow> string list" where
  "drawn_uuids [] = []"
| "drawn_uuids (Arrive n a # ts) = env_uuid (db_write (arr_env a)) # drawn_uuids ts"
| "drawn_uuids (_ # ts) = drawn_uuids ts"

lemma drawn_uuids_append [simp]: "drawn_uuids (ts @ us) = drawn_uuids ts @ drawn_uuids us"
  by (induction ts rule: drawn_uuids.induct) simp_all

abbreviation uuid_of :: "incoming \<Rightarrow> string" where
  "uuid_of a \<equiv> env_uuid (db_write (arr_env a))"

text \<open>The ids that the requests in flight have drawn.\<close>

definition uuids_in :: "(nat \<rightharpoonup> incoming \<times> 's progress) \<Rightarrow> string set" where
  "uuids_in fl = {u. \<exists>n a p. fl n = Some (a, p) \<and> u = uuid_of a}"

lemma uuids_inI: "fl n = Some (a, p) \<Longrightarrow> uuid_of a \<in> uuids_in fl"
  by (auto simp: uuids_in_def)

lemma uuids_in_moved:
  assumes "fl n = Some (a, p)"
  shows "uuids_in (fl(n \<mapsto> (a, q))) = uuids_in fl"
proof
  show "uuids_in (fl(n \<mapsto> (a, q))) \<subseteq> uuids_in fl"
    using assms by (auto simp: uuids_in_def split: if_splits)
  show "uuids_in fl \<subseteq> uuids_in (fl(n \<mapsto> (a, q)))"
  proof
    fix u assume "u \<in> uuids_in fl"
    then obtain m b r where m: "fl m = Some (b, r)" "u = uuid_of b" by (auto simp: uuids_in_def)
    with assms show "u \<in> uuids_in (fl(n \<mapsto> (a, q)))"
      using uuids_inI [of "fl(n \<mapsto> (a, q))" m b] uuids_inI [of "fl(n \<mapsto> (a, q))" n a] by (cases "m = n") auto
  qed
qed

lemma uuids_in_added:
  assumes "fl n = None"
  shows "uuids_in (fl(n \<mapsto> (a, p))) = insert (uuid_of a) (uuids_in fl)"
proof
  show "uuids_in (fl(n \<mapsto> (a, p))) \<subseteq> insert (uuid_of a) (uuids_in fl)"
    by (auto simp: uuids_in_def split: if_splits)
  show "insert (uuid_of a) (uuids_in fl) \<subseteq> uuids_in (fl(n \<mapsto> (a, p)))"
  proof
    fix u assume "u \<in> insert (uuid_of a) (uuids_in fl)"
    then consider "u = uuid_of a" | m b r where "fl m = Some (b, r)" "u = uuid_of b" by (auto simp: uuids_in_def)
    then show "u \<in> uuids_in (fl(n \<mapsto> (a, p)))"
    proof cases
      case 1
      then show ?thesis using uuids_inI [of "fl(n \<mapsto> (a, p))" n a] by simp
    next
      case (2 m b r)
      with assms have "(fl(n \<mapsto> (a, p))) m = Some (b, r)" by auto
      then have "uuid_of b \<in> uuids_in (fl(n \<mapsto> (a, p)))" by (rule uuids_inI)
      with 2(2) show ?thesis by simp
    qed
  qed
qed

lemma uuids_in_removed: "fl n = Some (a, p) \<Longrightarrow> uuids_in fl = insert (uuid_of a) (uuids_in (fl(n := None)))"
  using uuids_in_added [of "fl(n := None)" n a p] by (simp add: fun_upd_idem)

lemma uuids_in_dropped: "uuids_in (fl(n := None)) \<subseteq> uuids_in fl"
proof
  fix u assume "u \<in> uuids_in (fl(n := None))"
  then obtain m a p where "fl m = Some (a, p)" "u = uuid_of a" by (auto simp: uuids_in_def split: if_splits)
  then show "u \<in> uuids_in fl" using uuids_inI [of fl m a p] by simp
qed

lemma flight_arrived: "runs sys rd wr st0 ts s \<Longrightarrow> flight s n = Some (a, p) \<Longrightarrow> Arrive n a \<in> set ts"
  by (induction arbitrary: n a p rule: runs.induct) (auto split: if_splits)

lemma arrived_drawn: "Arrive n a \<in> set ts \<Longrightarrow> uuid_of a \<in> set (drawn_uuids ts)"
  by (induction ts rule: drawn_uuids.induct) auto

section \<open>One request at a time\<close>

text \<open>The same session of the two back ends.\<close>

definition retime :: "'t session_impl \<Rightarrow> 's session \<Rightarrow> 't session" where
  "retime J s =
     \<lparr>sess_impl = J, sess_cookie = sess_cookie s, sess_oidc = sess_oidc s, sess_data = sess_data s,
      sess_timeout = sess_timeout s\<rparr>"

lemma with_impl_simps [simp]:
  "m_cookieName (with_impl m J) = m_cookieName m" "m_loginTimeout (with_impl m J) = m_loginTimeout m"
  "m_sessionTimeout (with_impl m J) = m_sessionTimeout m" "m_store (with_impl m J) = m_store m"
  "m_impl (with_impl m J) = J"
  by (simp_all add: with_impl_def manager_base.extend_def manager_base.truncate_def)

lemma retime_simps [simp]:
  "sess_impl (retime J s) = J" "sess_cookie (retime J s) = sess_cookie s" "sess_oidc (retime J s) = sess_oidc s"
  "sess_data (retime J s) = sess_data s" "sess_timeout (retime J s) = sess_timeout s"
  "(retime J s)\<lparr>sess_data := d\<rparr> = retime J (s\<lparr>sess_data := d\<rparr>)"
  "(retime J s)\<lparr>sess_cookie := g\<rparr> = retime J (s\<lparr>sess_cookie := g\<rparr>)"
  by (simp_all add: retime_def)

lemma session_retimed [simp]:
  "session_for (with_impl m J) c g = retime J (session_for m c g)"
  "newData env token (retime J s) = newData env token s"
  "getState (retime J s) = getState s"
  "saveState env state age (retime J s) = apsnd (retime J) (saveState env state age s)"
  "saveSession env sid (retime J s) = apsnd (retime J) (saveSession env sid s)"
  by (simp_all add: session_for_def newData_def getState_def saveState_def saveSession_def Let_def retime_def)

lemma NewSession_retimed [simp]: "NewSession env (with_impl m J) c r = map_sum id (retime J) (NewSession env m c r)"
  by (simp add: NewSession_def split: prod.splits option.splits)

text \<open>Two back ends that answer every call alike in states related by an embedding.\<close>

definition same_calls :: "'s session_impl \<Rightarrow> 't session_impl \<Rightarrow> ('s \<Rightarrow> 't) \<Rightarrow> 's \<Rightarrow> bool" where
  "same_calls I J emb s \<longleftrightarrow>
     (\<forall>env sid. Get J env sid (emb s) = Get I env sid s) \<and>
     (\<forall>env d. Add J env d (emb s) = apsnd emb (Add I env d s)) \<and>
     (\<forall>env sid d. Update J env sid d (emb s) = apsnd emb (Update I env sid d s)) \<and>
     (\<forall>env sid. Delete J env sid (emb s) = apsnd emb (Delete I env sid s))"

lemma GetSession_retimed:
  assumes "same_calls (m_impl m) J emb st"
  shows "GetSession env (with_impl m J) c r (emb st) = map_sum id (retime J) (GetSession env m c r st)"
proof -
  have "dataFromDB env (emb st) (retime J x) = apsnd (retime J) (dataFromDB env st x)" if "sess_impl x = m_impl m" for x
    using assms that by (auto simp: dataFromDB_def same_calls_def split: option.splits sum.splits)
  then show ?thesis
    by (auto simp: GetSession_def Let_def split: prod.splits option.splits)
qed

lemma Session_retimed:
  assumes "same_calls (sess_impl x) J emb st"
  shows "Session_Save env token (retime J x) (emb st) = map_prod id (map_prod (retime J) emb) (Session_Save env token x st)"
    and "Session_Update env token (retime J x) (emb st) = map_prod id (map_prod (retime J) emb) (Session_Update env token x st)"
    and "Session_Delete env (retime J x) (emb st) = map_prod id (map_prod (retime J) emb) (Session_Delete env x st)"
  using assms
  by (auto simp: Session_Save_def Session_Update_def Session_Delete_def same_calls_def Let_def
      split: sum.splits option.splits prod.splits)

lemma handlers_retimed:
  assumes "same_calls (m_impl m) J emb st"
  shows "CallbackHandlerOidc env (with_impl m J) c uri r (emb st) = apsnd emb (CallbackHandlerOidc env m c uri r st)"
    and "LogoutHandlerOidc env (with_impl m J) c uri r (emb st) = apsnd emb (LogoutHandlerOidc env m c uri r st)"
    and "AuthenticationMiddleware env (with_impl m J) c (\<lambda>t s. (f t, s)) r (emb st) =
      apsnd emb (AuthenticationMiddleware env m c (\<lambda>t s. (f t, s)) r st)"
    and "LoginHandlerOidc env (with_impl m J) c r = LoginHandlerOidc env m c r"
proof -
  note G = GetSession_retimed [OF assms, of env c r]
  have si: "same_calls (sess_impl x) J emb st" if "GetSession env m c r st = Inr x" for x
    using sess_impl_of [OF that] assms by simp
  have ns: "same_calls (sess_impl x) J emb st" if "NewSession env m c r = Inr x" for x
    using that assms by (auto simp: NewSession_def split: prod.splits option.splits)
  show "CallbackHandlerOidc env (with_impl m J) c uri r (emb st) = apsnd emb (CallbackHandlerOidc env m c uri r st)"
    by (auto simp: CallbackHandlerOidc_def G Let_def Session_retimed(1) [OF ns] split: sum.splits prod.splits option.splits)
  show "LogoutHandlerOidc env (with_impl m J) c uri r (emb st) = apsnd emb (LogoutHandlerOidc env m c uri r st)"
    by (auto simp: LogoutHandlerOidc_def G Session_retimed(3) [OF si] split: sum.splits prod.splits option.splits)
  show "AuthenticationMiddleware env (with_impl m J) c (\<lambda>t s. (f t, s)) r (emb st) =
      apsnd emb (AuthenticationMiddleware env m c (\<lambda>t s. (f t, s)) r st)"
    by (auto simp: AuthenticationMiddleware_def G Let_def Session_retimed(2) [OF si] split: sum.splits prod.splits option.splits)
  show "LoginHandlerOidc env (with_impl m J) c r = LoginHandlerOidc env m c r"
    by (auto simp: LoginHandlerOidc_def Let_def split: sum.splits prod.splits option.splits)
qed

definition at_once :: "'s \<Rightarrow> 's \<Rightarrow> 's instants" where
  "at_once st st' = \<lparr>at_lookup = st, at_check = st, at_write = st'\<rparr>"

lemma at_once_simps [simp]:
  "at_lookup (at_once s t) = s" "at_check (at_once s t) = s" "at_write (at_once s t) = t"
  "(at_once s t)\<lparr>at_write := u\<rparr> = at_once s u"
  by (simp_all add: at_once_def)

lemma timed_at_once:
  assumes "\<And>env sid d. Update I env sid d st = (case rd env sid d st of Inl e \<Rightarrow> (Inl e, st) | Inr enc \<Rightarrow> wr env sid enc st)"
  shows "same_calls I (timed I rd wr) (at_once st) st"
  unfolding same_calls_def assms timed_def by (auto split: prod.splits sum.splits)

text \<open>A request whose statements run without others in between is a request as \<open>System\<close> serves it.\<close>

lemma serve_request_at_once:
  assumes "\<And>env sid d. Update (m_impl (sys_manager sys)) env sid d st =
      (case rd env sid d st of Inl e \<Rightarrow> (Inl e, st) | Inr enc \<Rightarrow> wr env sid enc st)"
  shows "serve_request (timed_system rd wr sys) a (at_once st st) = apsnd (at_once st) (serve_request sys a st)"
proof -
  have same: "same_calls (m_impl (sys_manager sys)) (timed (m_impl (sys_manager sys)) rd wr) (at_once st) st"
    by (rule timed_at_once) (rule assms)
  show ?thesis
    using handlers_retimed [OF same]
    by (simp add: serve_request_def timed_system_def Let_def UserInfoHandlerOidc_def split: mux_reply.splits option.splits route.splits)
qed

section \<open>What a turn does to the database\<close>

fun call_data :: "db_call \<Rightarrow> session_data option" where
  "call_data (CallAdd env d) = Some d"
| "call_data (CallUpdate env sid d) = Some d"
| "call_data _ = None"

text \<open>No session has changed hands between the two states.\<close>

definition same_subjects :: "('s \<Rightarrow> session_map) \<Rightarrow> 's \<Rightarrow> 's \<Rightarrow> bool" where
  "same_subjects view s t \<longleftrightarrow> (\<forall>sid d d'. view s sid = Some d \<and> view t sid = Some d' \<longrightarrow> Subject d' = Subject d)"

text \<open>The call is one that the request may make: with its own id, and verified data.\<close>

definition call_of_request :: "'s system \<Rightarrow> incoming \<Rightarrow> db_call \<Rightarrow> bool" where
  "call_of_request sys a c \<longleftrightarrow>
     uuid_of_call c \<in> {None, Some (uuid_of a)} \<and>
     (\<forall>d. call_data c = Some d \<longrightarrow> (\<exists>token g. newData (arr_env a) token (session_for (sys_manager sys) (sys_oidc sys) g) = Inr d))"

context two_phase_store
begin

lemma timed_simps:
  "snd (Add (timed I rd wr) env d i) = i\<lparr>at_write := snd (Add I env d (at_write i))\<rparr>"
  "snd (Delete (timed I rd wr) env sid i) = i\<lparr>at_write := snd (Delete I env sid (at_write i))\<rparr>"
  "Get (timed I rd wr) env sid i = Get I env sid (at_lookup i)"
  "Update (timed I rd wr) env sid d i =
     (case rd env sid d (at_check i) of
        Inl e \<Rightarrow> (Inl e, i)
      | Inr enc \<Rightarrow> (fst (wr env sid enc (at_write i)), i\<lparr>at_write := snd (wr env sid enc (at_write i))\<rparr>))"
  by (simp_all add: timed_def case_prod_beta Let_def split: sum.splits)

text \<open>The write of an update does what the whole update would do now, or nothing.\<close>

lemma late_write:
  assumes "rd env sid d st2 = Inr enc" "same_subjects view st2 st" "known st \<subseteq> dom (view st)"
  shows "snd (wr env sid enc st) = st \<or> wr env sid enc st = Update I env sid d st"
proof (cases "ready st \<and> sid \<in> known st")
  case True
  obtain old where old: "view st2 sid = Some old" "Subject d = Subject old" "env_get_fault env = None" "encode env d = Inr enc"
    using assms(1) by (auto simp: rd_Inr_iff)
  obtain now where "view st sid = Some now" using True assms(3) by blast
  with old assms(2) True have "rd env sid d st = Inr enc" by (auto simp: rd_Inr_iff same_subjects_def)
  then show ?thesis by (simp add: Update_phases)
qed (use wr_unready_state wr_unknown in blast)

lemma late_update:
  assumes "same_subjects view (at_check i) (at_write i)" "known (at_write i) \<subseteq> dom (view (at_write i))"
  obtains "at_write (snd (Update (timed I rd wr) env sid d i)) = at_write i"
  | "at_write (snd (Update (timed I rd wr) env sid d i)) = run_call I (CallUpdate env sid d) (at_write i)"
proof (cases "rd env sid d (at_check i)")
  case (Inl e)
  with that(1) show thesis by (simp add: timed_simps)
next
  case (Inr enc)
  with late_write [OF Inr assms] that show thesis by (auto simp: timed_simps)
qed

lemma answer_call:
  assumes "m_impl (sys_manager sys) = I" "same_subjects view st2 st" "known st \<subseteq> dom (view st)"
    and "serve_request (timed_system rd wr sys) a \<lparr>at_lookup = st1, at_check = st2, at_write = st\<rparr> = (hops, i)"
  shows "\<exists>c. at_write i = run_call I c st \<and> call_of_request sys a c"
proof -
  let ?env = "arr_env a" and ?i = "\<lparr>at_lookup = st1, at_check = st2, at_write = st\<rparr>"
  have none: ?thesis if "at_write i = st"
    using that by (intro exI [of _ "CallGet undefined undefined"]) (simp add: call_of_request_def)
  have impl: "m_impl (sys_manager (timed_system rd wr sys)) = timed I rd wr"
    and nd: "newData ?env token (session_for (sys_manager (timed_system rd wr sys)) (sys_oidc (timed_system rd wr sys)) g) =
      newData ?env token (session_for (sys_manager sys) (sys_oidc sys) g)" for token g
    using assms(1) by (simp_all add: timed_system_def)
  from serve_request_call [OF assms(4), unfolded impl nd]
  consider "i = ?i"
    | (add) token g d where "newData ?env token (session_for (sys_manager sys) (sys_oidc sys) g) = Inr d"
        "i = snd (Add (timed I rd wr) (db_write ?env) d ?i)"
    | (update) token g d sid where "newData ?env token (session_for (sys_manager sys) (sys_oidc sys) g) = Inr d"
        "i = snd (Update (timed I rd wr) (db_write ?env) sid d ?i)"
    | (delete) sid where "i = snd (Delete (timed I rd wr) (db_write ?env) sid ?i)"
    by blast
  then show ?thesis
  proof cases
    case 1
    with none show ?thesis by simp
  next
    case add
    then show ?thesis
      by (intro exI [of _ "CallAdd (db_write ?env) d"]) (auto simp: timed_simps call_of_request_def)
  next
    case update
    have "same_subjects view (at_check ?i) (at_write ?i)" "known (at_write ?i) \<subseteq> dom (view (at_write ?i))"
      using assms(2,3) by simp_all
    then show ?thesis
    proof (rule late_update)
      assume "at_write (snd (Update (timed I rd wr) (db_write ?env) sid d ?i)) = at_write ?i"
      with update(2) none show ?thesis by simp
    next
      assume "at_write (snd (Update (timed I rd wr) (db_write ?env) sid d ?i)) =
          run_call I (CallUpdate (db_write ?env) sid d) (at_write ?i)"
      with update show ?thesis
        by (intro exI [of _ "CallUpdate (db_write ?env) sid d"]) (auto simp: call_of_request_def)
    qed
  next
    case delete
    then show ?thesis
      by (intro exI [of _ "CallDelete (db_write ?env) sid"]) (simp add: timed_simps call_of_request_def)
  qed
qed

section \<open>Invariants of interleaved requests\<close>

text \<open>
  \<open>U\<close> is the set of ids in use so far, the ids of sessions that are gone included. The
  requests in flight have drawn other ids; what they have seen of the database, they have seen with the subjects
  it has now.
\<close>

definition steady :: "string set \<Rightarrow> 's \<Rightarrow> (nat \<rightharpoonup> incoming \<times> 's progress) \<Rightarrow> bool" where
  "steady U db fl \<longleftrightarrow>
     known db \<subseteq> U \<and> known db \<subseteq> dom (view db) \<and>
     (\<forall>n a p. fl n = Some (a, p) \<longrightarrow> uuid_of a \<notin> U) \<and>
     (\<forall>n m a p b q. fl n = Some (a, p) \<and> fl m = Some (b, q) \<and> n \<noteq> m \<longrightarrow> uuid_of a \<noteq> uuid_of b) \<and>
     (\<forall>n a st1. fl n = Some (a, LookedUp st1) \<longrightarrow> known st1 \<subseteq> U \<and> same_subjects view st1 db) \<and>
     (\<forall>n a st1 st2. fl n = Some (a, Checked st1 st2) \<longrightarrow>
        known st1 \<subseteq> U \<and> known st2 \<subseteq> U \<and> same_subjects view st1 st2 \<and> same_subjects view st2 db)"

lemma steadyD:
  assumes "steady U db fl"
  shows "known db \<subseteq> U" "known db \<subseteq> dom (view db)"
    and "fl n = Some (a, p) \<Longrightarrow> uuid_of a \<notin> U"
    and "fl n = Some (a, p) \<Longrightarrow> fl m = Some (b, q) \<Longrightarrow> n \<noteq> m \<Longrightarrow> uuid_of a \<noteq> uuid_of b"
    and "fl n = Some (a, LookedUp st1) \<Longrightarrow> known st1 \<subseteq> U \<and> same_subjects view st1 db"
    and "fl n = Some (a, Checked st1 st2) \<Longrightarrow>
      known st1 \<subseteq> U \<and> known st2 \<subseteq> U \<and> same_subjects view st1 st2 \<and> same_subjects view st2 db"
  using assms unfolding steady_def by blast+

lemma same_subjects_refl [simp]: "same_subjects view s s"
  by (auto simp: same_subjects_def)

lemma same_subjects_call:
  assumes "same_subjects view st s" "known st \<subseteq> U" "set_option (uuid_of_call c) \<inter> U = {}"
  shows "same_subjects view st (run_call I c s)"
  unfolding same_subjects_def
proof (intro allI impI, elim conjE)
  fix sid d d'
  assume d: "view st sid = Some d" "view (run_call I c s) sid = Some d'"
  have "uuid_of_call c \<noteq> Some sid" using view_known [OF d(1)] assms(2,3) by auto
  with d(2) obtain x where x: "view s sid = Some x" using run_call_view_None by fastforce
  from run_call_subject [OF this d(2)] d(1) x assms(1) show "Subject d' = Subject d" by (auto simp: same_subjects_def)
qed

lemma steady_call:
  assumes reliable "steady U db fl" "set_option (uuid_of_call c) \<inter> U = {}"
    and "\<And>n a p. fl n = Some (a, p) \<Longrightarrow> uuid_of_call c \<noteq> Some (uuid_of a)"
  shows "steady (U \<union> set_option (uuid_of_call c)) (run_call I c db) fl"
  unfolding steady_def
proof (intro conjI allI impI)
  note S = steadyD [OF assms(2)]
  let ?V = "U \<union> set_option (uuid_of_call c)"
  show "known (run_call I c db) \<subseteq> ?V" using run_call_known_new [of c db] S(1) by blast
  show "known (run_call I c db) \<subseteq> dom (view (run_call I c db))" using assms(1) S(2) by (rule run_call_dom)
  show "uuid_of a \<notin> ?V" if "fl n = Some (a, p)" for n a p using S(3) [OF that] assms(4) [OF that] by auto
  show "uuid_of a \<noteq> uuid_of b" if "fl n = Some (a, p) \<and> fl m = Some (b, q) \<and> n \<noteq> m" for n m a p b q
    using S(4) that by blast
  show "known st1 \<subseteq> ?V" "same_subjects view st1 (run_call I c db)" if "fl n = Some (a, LookedUp st1)" for n a st1
    using S(5) [OF that] same_subjects_call [OF _ _ assms(3)] by blast+
  show "known st1 \<subseteq> ?V" "known st2 \<subseteq> ?V" "same_subjects view st1 st2" "same_subjects view st2 (run_call I c db)"
    if "fl n = Some (a, Checked st1 st2)" for n a st1 st2
    using S(6) [OF that] same_subjects_call [OF _ _ assms(3)] by blast+
qed

lemma steady_close: "steady U db fl \<Longrightarrow> steady U (snd (CloseConnection I env db)) fl"
  by (simp add: steady_def same_subjects_def Close_keeps)

lemma steady_flight:
  assumes "steady U db fl" "\<And>b q. x = Some (b, q) \<Longrightarrow> uuid_of b \<notin> U"
    and "\<And>b q m c r. x = Some (b, q) \<Longrightarrow> m \<noteq> n \<Longrightarrow> fl m = Some (c, r) \<Longrightarrow> uuid_of c \<noteq> uuid_of b"
    and "\<And>b st1. x = Some (b, LookedUp st1) \<Longrightarrow> known st1 \<subseteq> U \<and> same_subjects view st1 db"
    and "\<And>b st1 st2. x = Some (b, Checked st1 st2) \<Longrightarrow>
      known st1 \<subseteq> U \<and> known st2 \<subseteq> U \<and> same_subjects view st1 st2 \<and> same_subjects view st2 db"
  shows "steady U db (fl(n := x))"
  unfolding steady_def
proof (intro conjI allI impI)
  note S = steadyD [OF assms(1)]
  show "known db \<subseteq> U" "known db \<subseteq> dom (view db)" by (fact S(1,2))+
  show "uuid_of a \<notin> U" if "(fl(n := x)) m = Some (a, p)" for m a p
    using that S(3) assms(2) by (auto split: if_splits)
  show "uuid_of a \<noteq> uuid_of b" if "(fl(n := x)) k = Some (a, p) \<and> (fl(n := x)) m = Some (b, q) \<and> k \<noteq> m" for k m a p b q
    using that S(4) [of k a p m b q] assms(3) [of a p m b q] assms(3) [of b q k a p] by (cases "k = n"; cases "m = n") auto
  show "known st1 \<subseteq> U" "same_subjects view st1 db" if "(fl(n := x)) m = Some (a, LookedUp st1)" for m a st1
    using that S(5) assms(4) by (auto split: if_splits)
  show "known st1 \<subseteq> U" "known st2 \<subseteq> U" "same_subjects view st1 st2" "same_subjects view st2 db"
    if "(fl(n := x)) m = Some (a, Checked st1 st2)" for m a st1 st2
    using that S(6) assms(5) by (auto split: if_splits)
qed

lemma steady_mono:
  assumes "steady U db fl" "U \<subseteq> V" "\<And>n a p. fl n = Some (a, p) \<Longrightarrow> uuid_of a \<notin> V"
  shows "steady V db fl"
  unfolding steady_def
proof (intro conjI allI impI)
  note S = steadyD [OF assms(1)]
  show "known db \<subseteq> V" "known db \<subseteq> dom (view db)" using S(1,2) assms(2) by blast+
  show "uuid_of a \<notin> V" if "fl n = Some (a, p)" for n a p using assms(3) that by blast
  show "uuid_of a \<noteq> uuid_of b" if "fl n = Some (a, p) \<and> fl m = Some (b, q) \<and> n \<noteq> m" for n m a p b q
    using S(4) that by blast
  show "known st1 \<subseteq> V" "same_subjects view st1 db" if "fl n = Some (a, LookedUp st1)" for n a st1
    using S(5) [OF that] assms(2) by blast+
  show "known st1 \<subseteq> V" "known st2 \<subseteq> V" "same_subjects view st1 st2" "same_subjects view st2 db"
    if "fl n = Some (a, Checked st1 st2)" for n a st1 st2
    using S(6) [OF that] assms(2) by blast+
qed

lemma steady_arrival:
  assumes "steady U db fl" "uuid_of a \<notin> U" "\<And>m b q. fl m = Some (b, q) \<Longrightarrow> uuid_of b \<noteq> uuid_of a"
  shows "steady U db (fl(n \<mapsto> (a, Arrived)))"
  using assms by (intro steady_flight) auto

text \<open>The ids in use: those of the first database, and those drawn by requests that have been answered.\<close>

definition used_ids :: "'s \<Rightarrow> turn list \<Rightarrow> (nat \<rightharpoonup> incoming \<times> 's progress) \<Rightarrow> string set" where
  "used_ids st0 ts fl = (known st0 \<union> set (drawn_uuids ts)) - uuids_in fl"

lemma used_ids_same: "fl n = Some (a, p) \<Longrightarrow> used_ids st0 ts (fl(n \<mapsto> (a, q))) = used_ids st0 ts fl"
  by (simp add: used_ids_def uuids_in_moved)

lemma used_ids_append [simp]: "drawn_uuids us = [] \<Longrightarrow> used_ids st0 (ts @ us) fl = used_ids st0 ts fl"
  by (simp add: used_ids_def)

lemma used_ids_answered: "used_ids st0 ts fl \<subseteq> used_ids st0 (ts @ us) (fl(n := None))"
  using uuids_in_dropped [of fl n] by (auto simp: used_ids_def)

lemma not_used: "fl n = Some (a, p) \<Longrightarrow> uuid_of a \<notin> used_ids st0 ts fl"
  by (simp add: used_ids_def uuids_inI)

lemma used_ids_arrives:
  assumes "flight s n = None" "distinct (drawn_uuids (ts @ [Arrive n a]))" "uuid_of a \<notin> known st0"
  shows "used_ids st0 (ts @ [Arrive n a]) ((flight s)(n \<mapsto> (a, Arrived))) = used_ids st0 ts (flight s)"
    and "uuid_of a \<notin> used_ids st0 ts (flight s)"
  using assms by (auto simp: used_ids_def uuids_in_added [of "flight s", OF assms(1)])

lemma used_ids_answers:
  assumes "runs sys rd wr st0 ts s" "flight s n = Some (a, p)" "steady U db (flight s)"
  shows "used_ids st0 (ts @ [Answer n hops]) ((flight s)(n := None)) = insert (uuid_of a) (used_ids st0 ts (flight s))"
proof -
  have "uuid_of a \<in> set (drawn_uuids ts)"
    using arrived_drawn [OF flight_arrived [OF assms(1,2)]] .
  moreover have "uuid_of a \<notin> uuids_in ((flight s)(n := None))"
    using steadyD(4) [OF assms(3,2)] by (auto simp: uuids_in_def split: if_splits)
  moreover note uuids_in_removed [of "flight s", OF assms(2)]
  ultimately show ?thesis by (auto simp: used_ids_def)
qed

lemma steady_answers:
  assumes "m_impl (sys_manager sys) = I" reliable "steady U db fl" "fl n = Some (a, Checked st1 st2)"
    and "serve_request (timed_system rd wr sys) a \<lparr>at_lookup = st1, at_check = st2, at_write = db\<rparr> = (hops, i)"
  shows "steady (insert (uuid_of a) U) (at_write i) (fl(n := None))"
proof -
  note S = steadyD [OF assms(3)]
  obtain c where c: "at_write i = run_call I c db" "call_of_request sys a c"
    using answer_call [OF assms(1) _ S(2) assms(5)] S(6) [OF assms(4)] by blast
  then have u: "set_option (uuid_of_call c) \<subseteq> {uuid_of a}" by (auto simp: call_of_request_def)
  have other: "uuid_of b \<notin> insert (uuid_of a) U" if "(fl(n := None)) m = Some (b, q)" for m b q
    using that S(3) S(4) [OF _ assms(4), of m b q] by (auto split: if_splits)
  have "steady U db (fl(n := None))" by (rule steady_flight [OF assms(3)]) simp_all
  then have "steady (U \<union> set_option (uuid_of_call c)) (at_write i) (fl(n := None))"
    unfolding c(1) using S(3) [OF assms(4)] u other by (intro steady_call [OF assms(2)]) fastforce+
  then show ?thesis using u other by (intro steady_mono [OF _ _ other]) auto
qed

lemma runs_steady:
  assumes "runs sys rd wr st0 ts s" "m_impl (sys_manager sys) = I" reliable "known st0 \<subseteq> dom (view st0)"
    and "distinct (drawn_uuids ts)" "set (drawn_uuids ts) \<inter> known st0 = {}"
  shows "steady (used_ids st0 ts (flight s)) (database s) (flight s)"
  using assms(1,5,6)
proof (induction rule: runs.induct)
  case idle
  with assms(4) show ?case by (simp add: steady_def used_ids_def uuids_in_def)
next
  case (arrives ts s n a)
  have "uuid_of b \<noteq> uuid_of a" if "flight s m = Some (b, q)" for m b q
    using arrived_drawn [OF flight_arrived [OF arrives.hyps(1) that]] arrives.prems(1) by auto
  moreover have "steady (used_ids st0 ts (flight s)) (database s) (flight s)" using arrives.IH arrives.prems by simp
  moreover note ids = used_ids_arrives [OF arrives.hyps(2) arrives.prems(1)]
  ultimately have "steady (used_ids st0 (ts @ [Arrive n a]) ((flight s)(n \<mapsto> (a, Arrived)))) (database s)
      ((flight s)(n \<mapsto> (a, Arrived)))"
    using arrives.prems(2) ids [of st0] by (auto intro!: steady_arrival)
  then show ?case by (simp add: fun_upd_def)
next
  case (looks_up ts s n a)
  then have IH: "steady (used_ids st0 ts (flight s)) (database s) (flight s)" by simp
  have "steady (used_ids st0 ts (flight s)) (database s) ((flight s)(n \<mapsto> (a, LookedUp (database s))))"
    using steadyD [OF IH] looks_up.hyps(2) by (intro steady_flight [OF IH]) auto
  then show ?case using used_ids_same [of "flight s" n a, OF looks_up.hyps(2)] by (simp add: fun_upd_def)
next
  case (checks ts s n a st1)
  then have IH: "steady (used_ids st0 ts (flight s)) (database s) (flight s)" by simp
  have "steady (used_ids st0 ts (flight s)) (database s) ((flight s)(n \<mapsto> (a, Checked st1 (database s))))"
    using steadyD [OF IH] checks.hyps(2) by (intro steady_flight [OF IH]) auto
  then show ?case using used_ids_same [of "flight s" n a, OF checks.hyps(2)] by (simp add: fun_upd_def)
next
  case (answers ts s n a st1 st2 hops i)
  then have IH: "steady (used_ids st0 ts (flight s)) (database s) (flight s)" by simp
  from steady_answers [OF assms(2,3) this answers.hyps(2,3)]
  have "steady (used_ids st0 (ts @ [Answer n hops]) ((flight s)(n := None))) (at_write i) ((flight s)(n := None))"
    unfolding used_ids_answers [OF answers.hyps(1,2) IH] .
  then show ?case by (simp add: fun_upd_def)
next
  case (cleans_up ts s env)
  then have "steady (used_ids st0 ts (flight s)) (database s) (flight s)" by simp
  from steady_call [OF assms(3) this, of "CallPurge env"] assms(2) show ?case by simp
next
  case (disconnects ts s env)
  then show ?case using assms(2) by (simp add: steady_close)
qed

text \<open>Where the data of a stored session come from.\<close>

lemma run_call_view_from:
  assumes reliable "view (run_call I c s) sid = Some d"
  shows "view s sid = Some d \<or> (\<exists>x. call_data c = Some x \<and> d = store_precision x)"
proof (cases c s rule: call_cases)
  case unchanged
  with assms(2) show ?thesis by simp
next
  case (added env x sid')
  have "d = store_precision x \<or> view s sid = Some d"
    using assms(2) Add_view [OF assms(1) added(2)] Add_Inr [OF added(2)] by (cases "sid = sid'") auto
  with added(1) show ?thesis by auto
next
  case (deleted env sid')
  show ?thesis using assms(2) Delete_Inr [OF deleted(2)] by (simp split: if_splits)
next
  case (updated env sid' x)
  have "d = store_precision x \<or> view s sid = Some d"
    using assms(2) Update_view [OF assms(1) updated(2)] Update_Inr [OF updated(2)] by (cases "sid = sid'") auto
  with updated(1) show ?thesis by auto
next
  case (purged env)
  show ?thesis using assms(2) Purge_Inr [OF purged(2)] by (auto simp: spec_purge_def split: option.splits if_splits)
qed

lemma runs_provenance:
  assumes "runs sys rd wr st0 ts s" "m_impl (sys_manager sys) = I" reliable "known st0 \<subseteq> dom (view st0)"
    and "distinct (drawn_uuids ts)" "set (drawn_uuids ts) \<inter> known st0 = {}" "view (database s) sid = Some d"
  shows "view st0 sid = Some d \<or>
    (\<exists>n a. Arrive n a \<in> set ts \<and>
       verified_for (oidc_lib (arr_env a)) (issuer (sys_oidc sys)) (ClientID (sys_oidc sys)) (IDToken d) (Subject d))"
  using assms(1,5-7)
proof (induction rule: runs.induct)
  case (answers ts s n a st1 st2 hops i)
  have "steady (used_ids st0 ts (flight s)) (database s) (flight s)"
    using answers.prems(1,2) by (intro runs_steady [OF answers.hyps(1) assms(2-4)]) simp_all
  note S = steadyD [OF this]
  obtain c where c: "at_write i = run_call I c (database s)" "call_of_request sys a c"
    using answer_call [OF assms(2) _ S(2) answers.hyps(3)] S(6) [OF answers.hyps(2)] by blast
  with run_call_view_from [OF assms(3), of c "database s" sid d] answers.prems(3)
  consider "view (database s) sid = Some d" | x where "call_data c = Some x" "d = store_precision x" by auto
  then show ?case
  proof cases
    case 1
    with answers show ?thesis by auto
  next
    case (2 x)
    then obtain token g where "newData (arr_env a) token (session_for (sys_manager sys) (sys_oidc sys) g) = Inr x"
      using c(2) by (auto simp: call_of_request_def)
    with 2(2) flight_arrived [OF answers.hyps(1,2)] show ?thesis
      by (auto simp: newData_Inr_iff store_precision_def)
  qed
next
  case (cleans_up ts s env)
  have "view (database s) sid = Some d"
    using run_call_view_from [OF assms(3), of "CallPurge env" "database s" sid d] cleans_up.prems(3) assms(2) by simp
  with cleans_up show ?case by auto
next
  case (disconnects ts s env)
  with assms(2) show ?case by (auto simp: Close_keeps)
qed auto

text \<open>What the middleware lets through, between the statements of others.\<close>

lemma timed_update_writes:
  assumes "same_subjects view st2 db" "known db \<subseteq> dom (view db)" reliable
    and "Update (timed I rd wr) env sid d' \<lparr>at_lookup = st1, at_check = st2, at_write = db\<rparr> = (Inr (), i)"
  obtains old where "view st2 sid = Some old" "Subject d' = Subject old"
    "if sid \<in> known db then view (at_write i) sid = Some (store_precision d') else at_write i = db"
proof -
  obtain enc where enc: "rd env sid d' st2 = Inr enc" "fst (wr env sid enc db) = Inr ()" "at_write i = snd (wr env sid enc db)"
    using assms(4) by (auto simp: timed_simps split: sum.splits)
  then obtain old where old: "view st2 sid = Some old" "Subject d' = Subject old" by (auto simp: rd_Inr_iff)
  have "if sid \<in> known db then view (at_write i) sid = Some (store_precision d') else at_write i = db"
  proof (cases "sid \<in> known db")
    case True
    have "ready db" using enc(2) wr_unready [of db env sid enc] by (metis Inl_not_Inr fst_conv)
    obtain now where "view db sid = Some now" using True assms(2) by blast
    with old assms(1) enc(1) \<open>ready db\<close> have "rd env sid d' db = Inr enc"
      by (auto simp: rd_Inr_iff same_subjects_def)
    then have "Update I env sid d' db = (Inr (), at_write i)"
      using enc(2,3) by (simp add: Update_phases prod_eq_iff)
    from Update_view [OF assms(3) this] True show ?thesis by simp
  next
    case False
    with enc(3) wr_unknown show ?thesis by simp
  qed
  with old that show thesis by blast
qed

lemma timed_middleware_passes:
  assumes "m_impl m = I" "zero_time < clock env" "refuses_empty_refresh env c" "known db \<subseteq> dom (view db)"
    and "same_subjects view st1 st2" "same_subjects view st2 db" reliable
    and pass: "passed_with (\<lambda>n. AuthenticationMiddleware env (with_impl m (timed I rd wr)) c n r
        \<lparr>at_lookup = st1, at_check = st2, at_write = db\<rparr>) pre token i"
  shows "\<exists>sid d. presents env m r sid \<and> view st1 sid = Some d \<and>
    (\<not> IsExpired (clock env) d \<and> token = AccessToken d \<and> at_write i = db \<or>
     IsExpired (clock env) d \<and>
       (\<exists>d'. renewed_by env c d d' \<and> token = AccessToken d' \<and> sid \<in> known st2 \<and>
          (if sid \<in> known db then view (at_write i) sid = Some (store_precision d') else at_write i = db)))"
proof -
  let ?m = "with_impl m (timed I rd wr)" and ?i = "\<lparr>at_lookup = st1, at_check = st2, at_write = db\<rparr>"
  have same: "presents env ?m r sid \<longleftrightarrow> presents env m r sid" for sid
    by (simp add: presents_def request_cookie_def)
  show ?thesis
    using assms(2,3)
  proof (rule middleware_decides [of env c ?m r ?i])
    fix code st' assume "answered_with (\<lambda>n. AuthenticationMiddleware env ?m c n r ?i) code st'"
    with not_passed_and_answered [OF pass] show ?thesis by blast
  next
    fix sid d
    assume "presents env ?m r sid" "Get (m_impl ?m) (db_read env) sid ?i = Inr d" "\<not> IsExpired (clock env) d"
      "passed_with (\<lambda>n. AuthenticationMiddleware env ?m c n r ?i) (from_context r) (AccessToken d) ?i"
    with passed_with_unique [OF pass] Get_Inr [of "db_read env" sid st1 d] show ?thesis
      by (intro exI [of _ sid] exI [of _ d]) (auto simp: same timed_simps)
  next
    fix sid d tok g d' ck st'
    assume h: "presents env ?m r sid" "Get (m_impl ?m) (db_read env) sid ?i = Inr d" "IsExpired (clock env) d"
      "RefreshGrant env c (RefreshToken d) = Inr tok" "newData env tok (session_for ?m c g) = Inr d'"
      "Update (m_impl ?m) (db_write env) sid d' ?i = (Inr (), st')"
      "passed_with (\<lambda>n. AuthenticationMiddleware env ?m c n r ?i) (from_context r @ [AddCookie ck]) (AccessToken d') st'"
    have p: "token = AccessToken d'" "i = st'" using passed_with_unique [OF pass h(7)] by simp_all
    have v: "view st1 sid = Some d" using h(2) Get_Inr by (simp add: timed_simps)
    have "Update (timed I rd wr) (db_write env) sid d' ?i = (Inr (), st')" using h(6) by simp
    with assms(6,4,7) obtain old where old: "view st2 sid = Some old" "Subject d' = Subject old"
      "if sid \<in> known db then view (at_write st') sid = Some (store_precision d') else at_write st' = db"
      by (rule timed_update_writes)
    with v assms(5) h(4,5) have r: "renewed_by env c d d'"
      by (auto simp: renewed_by_def newData_Inr_iff same_subjects_def)
    with p h(1,3) r v old(1,3) view_known show ?thesis
      by (intro exI [of _ sid] exI [of _ d]) (auto simp: same)
  qed
qed

text \<open>
  A session that is gone stays gone, whatever has been under way; what is looked up from then on does
  not find it.
\<close>

definition unseen :: "string \<Rightarrow> turn list \<Rightarrow> (nat \<rightharpoonup> incoming \<times> 's progress) \<Rightarrow> bool" where
  "unseen sid us fl \<longleftrightarrow>
     (\<forall>n a st. LookUp n \<in> set us \<and> (fl n = Some (a, LookedUp st) \<or> (\<exists>st2. fl n = Some (a, Checked st st2))) \<longrightarrow>
        sid \<notin> known st)"

text \<open>The id has no row, no request in flight may add one, and the later look-ups have not found it.\<close>

definition gone :: "string \<Rightarrow> turn list \<Rightarrow> 's running \<Rightarrow> bool" where
  "gone sid us s \<longleftrightarrow> sid \<notin> known (database s) \<and> sid \<notin> uuids_in (flight s) \<and> unseen sid us (flight s)"

lemma gone_arrives:
  assumes "gone sid us s" "flight s n = None" "uuid_of a \<noteq> sid"
  shows "gone sid (us @ [Arrive n a]) (s\<lparr>flight := (flight s)(n \<mapsto> (a, Arrived))\<rparr>)"
  using assms uuids_in_added [of "flight s", OF assms(2)] by (auto simp: gone_def unseen_def)

lemma gone_looks_up:
  assumes "gone sid us s" "flight s n = Some (a, Arrived)"
  shows "gone sid (us @ [LookUp n]) (s\<lparr>flight := (flight s)(n \<mapsto> (a, LookedUp (database s)))\<rparr>)"
  using assms(1) uuids_in_moved [of "flight s", OF assms(2)] by (auto simp: gone_def unseen_def)

lemma gone_checks:
  assumes "gone sid us s" "flight s n = Some (a, LookedUp st1)"
  shows "gone sid (us @ [Check n]) (s\<lparr>flight := (flight s)(n \<mapsto> (a, Checked st1 st2))\<rparr>)"
  using assms uuids_in_moved [of "flight s", OF assms(2)] by (fastforce simp: gone_def unseen_def)

lemma gone_answers:
  assumes "gone sid us s" "flight s n = Some (a, p)" "call_of_request sys a c"
  shows "gone sid (us @ [Answer n hops]) (s\<lparr>database := run_call I c (database s), flight := (flight s)(n := None)\<rparr>)"
proof -
  have "uuid_of_call c \<noteq> Some sid"
    using assms uuids_inI [of "flight s", OF assms(2)] by (auto simp: call_of_request_def gone_def)
  moreover have "unseen sid (us @ [Answer n hops]) ((flight s)(n := None))"
    using assms(1) by (auto simp: gone_def unseen_def)
  ultimately show ?thesis
    using assms(1) run_call_known uuids_in_dropped [of "flight s" n] by (auto simp: gone_def)
qed

lemma stays_out:
  assumes "m_impl (sys_manager sys) = I" reliable "known st0 \<subseteq> dom (view st0)"
    and "runs sys rd wr st0 ts s" "sid \<in> used_ids st0 ts (flight s)" "sid \<notin> known (database s)"
    and "runs sys rd wr st0 (ts @ us) s'" "distinct (drawn_uuids (ts @ us))" "set (drawn_uuids (ts @ us)) \<inter> known st0 = {}"
  shows "gone sid us s'"
  using assms(7-9)
proof (induction us arbitrary: s' rule: rev_induct)
  case Nil
  then have "s' = s" using runs_deterministic [OF assms(4)] by simp
  with assms(5,6) show ?case by (simp add: gone_def used_ids_def unseen_def)
next
  case (snoc t us)
  have run: "runs sys rd wr st0 ((ts @ us) @ [t]) s'" using snoc.prems(1) by simp
  have d: "distinct (drawn_uuids (ts @ us))" "set (drawn_uuids (ts @ us)) \<inter> known st0 = {}"
    using snoc.prems(2,3) by (auto simp: drawn_uuids_append [of _ "us @ [t]"] drawn_uuids_append [of us])
  note IH = snoc.IH [OF _ d]
  from run show ?case
  proof (cases rule: runs_snoc_cases)
    case (arrives s1 n a)
    have "uuid_of a \<noteq> sid" using assms(5) snoc.prems(2,3) arrives(1) by (auto simp: used_ids_def)
    with gone_arrives [OF IH [OF arrives(3)] arrives(4)] arrives(1,2) show ?thesis by simp
  next
    case (looks_up s1 n a)
    with gone_looks_up [OF IH [OF looks_up(3)]] show ?thesis by simp
  next
    case (checks s1 n a st1)
    with gone_checks [OF IH [OF checks(3)]] show ?thesis by simp
  next
    case (answers s1 n a st1 st2 hops i)
    note S = steadyD [OF runs_steady [OF answers(3) assms(1-3) d]]
    obtain c where "at_write i = run_call I c (database s1)" "call_of_request sys a c"
      using answer_call [OF assms(1) _ S(2) answers(5)] S(6) [OF answers(4)] by blast
    with gone_answers [OF IH [OF answers(3)] answers(4)] answers(1,2) show ?thesis by simp
  next
    case (cleans_up s1 env)
    with IH [OF cleans_up(3)] run_call_known [of sid "database s1" "CallPurge env"] assms(1) show ?thesis
      by (auto simp: gone_def unseen_def)
  next
    case (disconnects s1 env)
    with IH [OF disconnects(3)] assms(1) show ?thesis by (auto simp: gone_def unseen_def Close_keeps)
  qed
qed

end

end
