(* ===== verification/Concurrent_Requests.thy ===== *)
theory Concurrent_Requests
  imports Concurrency
begin

text \<open>
  What holds of requests that are served at the same time, for both back ends: the properties
  of the interleaved runs of \<open>Concurrency\<close>, and a run in which a logout overtakes a renewal.
\<close>

text \<open>
  The rows of the first database can be read, with a correct cipher, and no id is drawn twice.
\<close>

definition sound_start :: "cipher option \<Rightarrow> store \<Rightarrow> turn list \<Rightarrow> bool" where
  "sound_start c st0 ts \<longleftrightarrow>
     cipher_correct c \<and> ids st0 \<subseteq> dom (stored c st0) \<and> distinct (drawn_uuids ts) \<and> set (drawn_uuids ts) \<inter> ids st0 = {}"

section \<open>One request after the other\<close>

text \<open>The turns of a history of whole requests and purges.\<close>

fun serial_turns :: "store system \<Rightarrow> event list \<Rightarrow> store \<Rightarrow> turn list" where
  "serial_turns sys [] st = []"
| "serial_turns sys (Request a # evs) st =
     [Arrive 0 a, LookUp 0, Check 0, Answer 0 (fst (serve_request sys a st))]
       @ serial_turns sys evs (serve sys (Request a) st)"
| "serial_turns sys (Tick env # evs) st = CleanUp env # serial_turns sys evs (serve sys (Tick env) st)"

lemma runs_trans:
  assumes "runs sys rd wr st1 us s" "runs sys rd wr st0 ts \<lparr>database = st1, flight = Map.empty\<rparr>"
  shows "runs sys rd wr st0 (ts @ us) s"
  using assms
proof (induction rule: runs.induct)
  case (looks_up us s n a)
  from runs.looks_up [OF looks_up.IH [OF looks_up.prems] looks_up.hyps(2)] show ?case by simp
next
  case (checks us s n a st1)
  from runs.checks [OF checks.IH [OF checks.prems] checks.hyps(2)] show ?case by simp
next
  case (answers us s n a st1 st2 hops i)
  from runs.answers [OF answers.IH [OF answers.prems] answers.hyps(2,3)] show ?case by simp
qed (auto simp flip: append_assoc intro: runs.intros)

lemma runs_request:
  assumes "\<And>env sid d. Update (m_impl (sys_manager sys)) env sid d st =
      (case rd env sid d st of Inl e \<Rightarrow> (Inl e, st) | Inr enc \<Rightarrow> wr env sid enc st)"
  shows "runs sys rd wr st [Arrive 0 a, LookUp 0, Check 0, Answer 0 (fst (serve_request sys a st))]
    \<lparr>database = snd (serve_request sys a st), flight = Map.empty\<rparr>"
proof -
  let ?s = "\<lambda>p. \<lparr>database = st, flight = [0 \<mapsto> (a, p)]\<rparr>"
  have "runs sys rd wr st [Arrive 0 a] (?s Arrived)"
    using arrives [OF idle, where n = 0] by simp
  from looks_up [OF this, where n = 0] have "runs sys rd wr st [Arrive 0 a, LookUp 0] (?s (LookedUp st))" by simp
  from checks [OF this, where n = 0] have c: "runs sys rd wr st [Arrive 0 a, LookUp 0, Check 0] (?s (Checked st st))" by simp
  have "serve_request (timed_system rd wr sys) a \<lparr>at_lookup = st, at_check = st, at_write = database (?s (Checked st st))\<rparr> =
      (fst (serve_request sys a st), at_once st (snd (serve_request sys a st)))"
    using serve_request_at_once [where sys = sys and st = st and rd = rd and wr = wr and a = a, OF assms] by (simp add: at_once_def prod_eq_iff)
  from answers [OF c _ this, where n = 0] show ?thesis by simp
qed

lemma runs_serial:
  assumes "\<And>env sid d st. Update (m_impl (sys_manager sys)) env sid d st =
      (case rd env sid d st of Inl e \<Rightarrow> (Inl e, st) | Inr enc \<Rightarrow> wr env sid enc st)"
  shows "runs sys rd wr st (serial_turns sys evs st) \<lparr>database = fold (serve sys) evs st, flight = Map.empty\<rparr>"
proof (induction evs arbitrary: st)
  case Nil
  show ?case by (simp add: idle)
next
  case (Cons ev evs)
  show ?case
  proof (cases ev)
    case (Request a)
    have "runs sys rd wr st [Arrive 0 a, LookUp 0, Check 0, Answer 0 (fst (serve_request sys a st))]
        \<lparr>database = snd (serve_request sys a st), flight = Map.empty\<rparr>"
      by (rule runs_request) (rule assms)
    from runs_trans [OF Cons.IH this] Request show ?thesis by (simp add: serve_def)
  next
    case (Tick env)
    have "runs sys rd wr st [CleanUp env] \<lparr>database = serve sys (Tick env) st, flight = Map.empty\<rparr>"
      using cleans_up [OF idle, where env = env] by (simp add: serve_def)
    from runs_trans [OF Cons.IH this] Tick show ?thesis by simp
  qed
qed

lemma reachable_fold: "reachable sys evs st \<Longrightarrow> st = fold (serve sys) evs \<lparr>table = Map.empty, conn_open = True\<rparr>"
  by (induction rule: reachable.induct) simp_all

section \<open>An example: a logout overtakes a renewal\<close>

definition ex_renewal :: incoming where
  "ex_renewal = ex_arrival\<lparr>arr_request := ex_alice,
     arr_http := ex_proxied\<lparr>pr_url := \<lparr>url_scheme = [], url_host = [], url_path = ''/userinfo'', url_query = []\<rparr>\<rparr>\<rparr>"

definition ex_logout :: incoming where
  "ex_logout = ex_arrival\<lparr>arr_env := ex_env\<lparr>db_write := ex_db_env ''uuid-2''\<rparr>, arr_request := ex_alice,
     arr_http := ex_proxied\<lparr>pr_url := \<lparr>url_scheme = [], url_host = [], url_path = ''/logout'', url_query = []\<rparr>\<rparr>\<rparr>"

text \<open>The renewal has read its row when the logout comes in and is answered.\<close>

definition ex_before :: "turn list" where
  "ex_before = [Arrive 0 ex_renewal, LookUp 0, Check 0, Arrive 1 ex_logout, LookUp 1, Check 1]"

abbreviation ex_runs :: "turn list \<Rightarrow> store running \<Rightarrow> bool" where
  "ex_runs \<equiv> runs ex_system (sqlite_Update_read None) sqlite_Update_write (ex_store 500)"

abbreviation ex_timed :: "store instants session_impl" where
  "ex_timed \<equiv> timed (sqlite_impl None) (sqlite_Update_read None) sqlite_Update_write"

definition ex_flight :: "nat \<rightharpoonup> incoming \<times> store progress" where
  "ex_flight = [0 \<mapsto> (ex_renewal, Checked (ex_store 500) (ex_store 500))]"

lemma ex_with_impl [simp]: "with_impl (ex_manager I) J = ex_manager J"
  by (simp add: with_impl_def ex_manager_def manager_base.extend_def manager_base.truncate_def)

lemma ex_runs_second:
  "ex_runs [Arrive 0 ex_renewal, LookUp 0, Check 0, Arrive 1 b, LookUp 1, Check 1] \<lparr>database = ex_store 500,
     flight = ex_flight(1 \<mapsto> (b, Checked (ex_store 500) (ex_store 500)))\<rparr>"
proof -
  let ?st = "ex_store 500"
  have "ex_runs [Arrive 0 ex_renewal] \<lparr>database = ?st, flight = [0 \<mapsto> (ex_renewal, Arrived)]\<rparr>"
    using arrives [OF idle, where n = 0] by simp
  from looks_up [OF this, where n = 0]
  have "ex_runs [Arrive 0 ex_renewal, LookUp 0] \<lparr>database = ?st, flight = [0 \<mapsto> (ex_renewal, LookedUp ?st)]\<rparr>" by simp
  from checks [OF this, where n = 0]
  have "ex_runs [Arrive 0 ex_renewal, LookUp 0, Check 0] \<lparr>database = ?st, flight = ex_flight\<rparr>" by (simp add: ex_flight_def)
  from arrives [OF this, where n = 1 and a = b]
  have "ex_runs [Arrive 0 ex_renewal, LookUp 0, Check 0, Arrive 1 b]
      \<lparr>database = ?st, flight = ex_flight(1 \<mapsto> (b, Arrived))\<rparr>" by (simp add: ex_flight_def)
  from looks_up [OF this, where n = 1]
  have "ex_runs [Arrive 0 ex_renewal, LookUp 0, Check 0, Arrive 1 b, LookUp 1]
      \<lparr>database = ?st, flight = ex_flight(1 \<mapsto> (b, LookedUp ?st))\<rparr>" by simp
  from checks [OF this, where n = 1] show ?thesis by simp
qed

lemma ex_runs_before:
  "ex_runs ex_before \<lparr>database = ex_store 500,
     flight = ex_flight(1 \<mapsto> (ex_logout, Checked (ex_store 500) (ex_store 500)))\<rparr>"
  unfolding ex_before_def by (rule ex_runs_second)

lemma ex_logout_dispatched:
  "mux_dispatch (sys_mux ex_system) (pr_method (arr_http ex_logout)) (pr_host (arr_http ex_logout)) (pr_url (arr_http ex_logout)) =
     Dispatch (Some LogoutRoute)"
proof -
  have "clean_path ''/logout'' = ''/logout''" by code_simp
  then show ?thesis
    by (simp add: ex_system_def ex_logout_def ex_proxied_def mux_dispatch_def should_redirect_def fixed_routes_def mux_handler_def mux_match_def)
qed

definition ex_logout_hops :: "hop list" where
  "ex_logout_hops = (from_context ex_alice @ [AddCookie ex_dropped_cookie])
     @ http_redirect ''GET'' (logout_url ex_config ''app:alice'' ''https://app/bye'') 302"

lemma ex_phases: "backend_phases None (m_impl (sys_manager ex_system)) (sqlite_Update_read None) sqlite_Update_write"
  by (simp add: backend_phases_def ex_system_def)

lemma phases_update:
  assumes "backend_phases c I rd wr"
  shows "Update I env sid d st = (case rd env sid d st of Inl e \<Rightarrow> (Inl e, st) | Inr enc \<Rightarrow> wr env sid enc st)"
  using assms by (rule backend_phases_store) (rule two_phase_store.Update_phases)

lemma phases_at_once:
  assumes "backend_phases c (m_impl (sys_manager sys)) rd wr"
  shows "serve_request (timed_system rd wr sys) a (at_once st st) = apsnd (at_once st) (serve_request sys a st)"
  by (rule serve_request_at_once) (rule phases_update [OF assms])

lemma ex_logout_served:
  "serve_request (timed_system (sqlite_Update_read None) sqlite_Update_write ex_system) ex_logout
     \<lparr>at_lookup = ex_store 500, at_check = ex_store 500, at_write = ex_store 500\<rparr> =
   (ex_logout_hops, \<lparr>at_lookup = ex_store 500, at_check = ex_store 500, at_write = ex_logged_out 500\<rparr>)"
proof -
  have "serve_request ex_system ex_logout (ex_store 500) = (ex_logout_hops, ex_logged_out 500)"
    by (simp add: serve_request_def Let_def ex_logout_dispatched)
       (simp add: ex_logout_def ex_system_def ex_arrival_def ex_logout_run_as ex_logout_hops_def)
  with phases_at_once [OF ex_phases, of ex_logout "ex_store 500"] show ?thesis by (simp add: at_once_def)
qed

text \<open>After the logout is answered the renewal writes, to no row, and passes.\<close>

definition ex_after_logout :: "store instants" where
  "ex_after_logout = \<lparr>at_lookup = ex_store 500, at_check = ex_store 500, at_write = ex_logged_out 500\<rparr>"

lemma ex_logged_out_run: "ex_runs (ex_before @ [Answer 1 ex_logout_hops]) \<lparr>database = ex_logged_out 500, flight = ex_flight\<rparr>"
proof -
  let ?s = "\<lparr>database = ex_store 500, flight = ex_flight(1 \<mapsto> (ex_logout, Checked (ex_store 500) (ex_store 500)))\<rparr>"
  have "flight ?s 1 = Some (ex_logout, Checked (ex_store 500) (ex_store 500))" by simp
  from answers [OF ex_runs_before this, of ex_logout_hops] ex_logout_served show ?thesis by (simp add: ex_flight_def)
qed

lemma ex_renewal_writes:
  assumes "sqlite_Update_write (ex_db_env ''uuid-1'') ''uuid-0'' ex_new_data db = (Inr (), db')"
  shows "\<exists>ck. passed_with (\<lambda>n. AuthenticationMiddleware ex_env (ex_manager ex_timed) ex_config n ex_alice
      \<lparr>at_lookup = ex_store 500, at_check = ex_store 500, at_write = db\<rparr>)
     (from_context ex_alice @ [AddCookie ck]) ''at1'' \<lparr>at_lookup = ex_store 500, at_check = ex_store 500, at_write = db'\<rparr>"
proof -
  let ?i = "\<lparr>at_lookup = ex_store 500, at_check = ex_store 500, at_write = db\<rparr>"
    and ?i' = "\<lparr>at_lookup = ex_store 500, at_check = ex_store 500, at_write = db'\<rparr>"
  let ?g = "ex_gsession [sessionIdName \<mapsto> VString ''uuid-0'']"
  let ?s = "(session_for (ex_manager ex_timed) ex_config ?g)\<lparr>sess_data := ex_data 500\<rparr>"
  have "Get ex_timed (ex_db_env []) ''uuid-0'' ?i = Inr (ex_data 500)"
    by (simp add: timed_def sqlite_Get_Inr_iff)
  note gs = ex_alice_session_of [OF this, of ex_config]
  have rd: "sqlite_Update_read None (ex_db_env ''uuid-1'') ''uuid-0'' ex_new_data (ex_store 500) = Inr ex_new_data"
    by (simp add: sqlite_Update_read_Inr_iff ex_new_data_def [THEN arg_cong [where f = Subject]])
  have upd: "Update ex_timed (db_write ex_env) ''uuid-0'' ex_new_data ?i = (Inr (), ?i')"
    by (simp add: timed_def rd assms)
  define s2 where "s2 = snd (saveSession ex_env ''uuid-0'' (?s\<lparr>sess_data := ex_new_data\<rparr>))"
  obtain ck where "fst (saveSession ex_env ''uuid-0'' (?s\<lparr>sess_data := ex_new_data\<rparr>)) = (None, [AddCookie ck])"
    by (simp add: saveSession_def Let_def save_cookie_def)
  then have "saveSession ex_env ''uuid-0'' (?s\<lparr>sess_data := ex_new_data\<rparr>) = ((None, [AddCookie ck]), s2)"
    by (simp add: s2_def prod_eq_iff)
  moreover have "newData ex_env ex_token ?s = Inr ex_new_data"
    using ex_newData [of "ex_manager ex_timed" ?g] unfolding newData_Inr_iff by simp
  ultimately have "Session_Update ex_env ex_token ?s ?i = ((None, [AddCookie ck]), s2, ?i')"
    using upd by (simp add: Session_Update_def)
  moreover have "sess_data s2 = ex_new_data" by (simp add: s2_def)
  moreover have "IsExpired (clock ex_env) (ex_data 500)" by (simp add: IsExpired_def from_unix_def)
  ultimately show ?thesis
    using middleware_renewed [OF gs, of ex_token "[AddCookie ck]" s2 ?i'] by (auto simp: ex_new_data_def)
qed

lemma ex_renewal_passes:
  "\<exists>ck. passed_with (\<lambda>n. AuthenticationMiddleware ex_env (ex_manager ex_timed) ex_config n ex_alice ex_after_logout)
     (from_context ex_alice @ [AddCookie ck]) ''at1'' ex_after_logout"
proof -
  have "''uuid-0'' \<notin> ids (ex_logged_out 500)" "conn_open (ex_logged_out 500)"
    by (simp_all add: ex_logged_out_def ids_def)
  then have "sqlite_Update_write (ex_db_env ''uuid-1'') ''uuid-0'' ex_new_data (ex_logged_out 500) = (Inr (), ex_logged_out 500)"
    by (simp add: sqlite_Update_write_Inr_iff)
  from ex_renewal_writes [OF this] show ?thesis by (simp add: ex_after_logout_def)
qed

section \<open>Rows\<close>

lemma timed_answer:
  assumes "serve_request (timed_system rd wr sys) a \<lparr>at_lookup = st1, at_check = st2, at_write = st\<rparr> = (hops, i)"
  shows "at_write i = st \<or> (\<exists>d. at_write i = snd (Add (m_impl (sys_manager sys)) (db_write (arr_env a)) d st)) \<or>
    (\<exists>sid enc. at_write i = snd (wr (db_write (arr_env a)) sid enc st)) \<or>
    (\<exists>sid. at_write i = snd (Delete (m_impl (sys_manager sys)) (db_write (arr_env a)) sid st))"
proof -
  let ?i = "\<lparr>at_lookup = st1, at_check = st2, at_write = st\<rparr>"
  have "at_write (snd (Update (timed I rd wr) env sid d ?i)) = st \<or>
      (\<exists>enc. at_write (snd (Update (timed I rd wr) env sid d ?i)) = snd (wr env sid enc st))" for I env sid d
    by (cases "rd env sid d st2") (auto simp: timed_def case_prod_beta Let_def)
  moreover have "at_write (snd (Add (timed I rd wr) env d ?i)) = snd (Add I env d st)"
    "at_write (snd (Delete (timed I rd wr) env sid ?i)) = snd (Delete I env sid st)" for I env d sid
    by (simp_all add: timed_def case_prod_beta Let_def)
  moreover have "m_impl (sys_manager (timed_system rd wr sys)) = timed (m_impl (sys_manager sys)) rd wr"
    by (simp add: timed_system_def)
  ultimately show ?thesis using serve_request_call [OF assms] by (metis instants.select_convs(3))
qed

lemma sqlite_not_postgresql [simp]: "sqlite_impl c \<noteq> postgresql_impl c'" "postgresql_impl c' \<noteq> sqlite_impl c"
proof -
  have "Get (sqlite_impl c) (ex_db_env []) [] \<lparr>table = Map.empty, conn_open = True\<rparr> = Inl SqlErrNoRows"
    "Get (postgresql_impl c') (ex_db_env []) [] \<lparr>table = Map.empty, conn_open = True\<rparr> = Inl PgxErrNoRows"
    by (simp_all add: sqlite_Get_unknown postgresql_Get_unknown ids_def)
  moreover have "SqlErrNoRows \<noteq> PgxErrNoRows" by (simp add: err_defs)
  ultimately show "sqlite_impl c \<noteq> postgresql_impl c'" "postgresql_impl c' \<noteq> sqlite_impl c" by (metis Inl_inject)+
qed

definition sqlite_ok :: "store \<Rightarrow> bool" where
  "sqlite_ok st \<longleftrightarrow> rows_ok sqlite_row_check st"

definition postgresql_ok :: "store \<Rightarrow> bool" where
  "postgresql_ok st \<longleftrightarrow> rows_ok postgresql_row_check st \<and> (\<forall>sid row. table st sid = Some row \<longrightarrow> int4 (row_expires_at row))"

lemma sqlite_calls_ok:
  assumes "sqlite_ok st"
  shows "sqlite_ok (snd (sqlite_Add c env d st))" "sqlite_ok (snd (sqlite_Update_write env sid enc st))"
    "sqlite_ok (snd (sqlite_Delete env sid st))" "sqlite_ok (snd (sqlite_Purge env st))" "sqlite_ok (snd (sqlite_CloseConnection env st))"
  using assms
  by (auto simp: sqlite_ok_def rows_ok_def sqlite_Add_def sqlite_Update_write_def sqlite_Delete_def sqlite_Purge_def
      sqlite_CloseConnection_def exec_def sql_insert_def sql_update_def sql_delete_def sql_purge_def Let_def
      split: sum.splits option.splits if_splits prod.splits)

lemma postgresql_calls_ok:
  assumes "postgresql_ok st"
  shows "postgresql_ok (snd (postgresql_Add c env d st))" "postgresql_ok (snd (postgresql_Update_write env sid enc st))"
    "postgresql_ok (snd (postgresql_Delete env sid st))" "postgresql_ok (snd (postgresql_Purge env st))"
    "postgresql_ok (snd (postgresql_CloseConnection env st))"
  using assms
  by (auto simp: postgresql_ok_def rows_ok_def postgresql_Add_def postgresql_Update_write_def postgresql_Delete_def
      postgresql_Purge_def postgresql_CloseConnection_def exec_def bind_int4_def sql_insert_def sql_update_def sql_delete_def
      sql_purge_def Let_def
      split: sum.splits option.splits if_splits prod.splits)

lemma runs_keep:
  assumes "runs sys rd wr st0 ts s" "P st0"
    and "\<And>env d st. P st \<Longrightarrow> P (snd (Add (m_impl (sys_manager sys)) env d st))"
    and "\<And>env sid enc st. P st \<Longrightarrow> P (snd (wr env sid enc st))"
    and "\<And>env sid st. P st \<Longrightarrow> P (snd (Delete (m_impl (sys_manager sys)) env sid st))"
    and "\<And>env st. P st \<Longrightarrow> P (snd (Purge (m_impl (sys_manager sys)) env st))"
    and "\<And>env st. P st \<Longrightarrow> P (snd (CloseConnection (m_impl (sys_manager sys)) env st))"
  shows "P (database s)"
  using assms(1,2)
proof (induction rule: runs.induct)
  case (answers ts s n a st1 st2 hops i)
  with timed_answer [OF answers.hyps(3)] assms(3-5) show ?case by auto
qed (simp_all add: assms(6,7))

lemma runs_vouched:
  assumes "runs sys rd wr st0 ts s" "backend_phases c (m_impl (sys_manager sys)) rd wr" "sound_start c st0 ts"
    and "stored c (database s) sid = Some d"
  shows "stored c st0 sid = Some d \<or>
    (\<exists>n a. Arrive n a \<in> set ts \<and>
       verified_for (oidc_lib (arr_env a)) (issuer (sys_oidc sys)) (ClientID (sys_oidc sys)) (IDToken d) (Subject d))"
proof -
  obtain no_rows where S: "two_phase_store (m_impl (sys_manager sys)) (stored c) ids conn_open no_rows (cipher_correct c) rd wr
      (\<lambda>env. encryptArgs c (env_nonces env))"
    using assms(2) by (rule backend_phases_store)
  show ?thesis
    using assms(3,4) unfolding sound_start_def by (intro two_phase_store.runs_provenance [OF S assms(1) refl]) simp_all
qed

lemma runs_authenticate:
  assumes "runs sys rd wr st0 ts s" "backend_phases c (m_impl (sys_manager sys)) rd wr" "sound_start c st0 ts"
    and "flight s n = Some (a, Checked st1 st2)" "zero_time < clock (arr_env a)" "refuses_empty_refresh (arr_env a) (sys_oidc sys)"
    and "passed_with (\<lambda>next_handler. AuthenticationMiddleware (arr_env a) (sys_manager (timed_system rd wr sys)) (sys_oidc sys)
        next_handler (arr_request a) \<lparr>at_lookup = st1, at_check = st2, at_write = database s\<rparr>) pre token i"
  shows "\<exists>sid d. presents (arr_env a) (sys_manager sys) (arr_request a) sid \<and> stored c st1 sid = Some d \<and>
    (\<not> IsExpired (clock (arr_env a)) d \<and> token = AccessToken d \<and> at_write i = database s \<or>
     IsExpired (clock (arr_env a)) d \<and>
       (\<exists>d'. renewed_by (arr_env a) (sys_oidc sys) d d' \<and> token = AccessToken d' \<and> sid \<in> ids st2 \<and>
          (if sid \<in> ids (database s) then stored c (at_write i) sid = Some (store_precision d') else at_write i = database s)))"
proof -
  obtain no_rows where S: "two_phase_store (m_impl (sys_manager sys)) (stored c) ids conn_open no_rows (cipher_correct c) rd wr
      (\<lambda>env. encryptArgs c (env_nonces env))"
    using assms(2) by (rule backend_phases_store)
  have "two_phase_store.steady (stored c) ids (two_phase_store.used_ids ids st0 ts (flight s)) (database s) (flight s)"
    using assms(3) unfolding sound_start_def by (intro two_phase_store.runs_steady [OF S assms(1) refl]) simp_all
  note D = two_phase_store.steadyD [OF S this]
  show ?thesis
    using assms(3,7) D(2) D(6) [OF assms(4)] unfolding sound_start_def timed_system_def system.simps
    by (intro two_phase_store.timed_middleware_passes [OF S refl assms(5,6)]) auto
qed

section \<open>Properties\<close>



text \<open>C6. Provenance: however the statements of the requests, the purges and the closing of the database
  interleave, every session that is stored at any time was in the first database, as it is, or its id token was
  verified by the provider, for this client and for the subject of the session, in one of the requests.\<close>

theorem sessions_are_vouched_for:
  assumes "runs sys rd wr st0 ts s" "backend_phases c (m_impl (sys_manager sys)) rd wr" "sound_start c st0 ts"
    and "stored c (database s) sid = Some d"
  shows "stored c st0 sid = Some d \<or>
    (\<exists>n a. Arrive n a \<in> set ts \<and>
       verified_for (oidc_lib (arr_env a)) (issuer (sys_oidc sys)) (ClientID (sys_oidc sys)) (IDToken d) (Subject d))"
  using assms by (rule runs_vouched)

theorem sessions_are_vouched_for_witness:
  "\<exists>n a. Arrive n a \<in> set (serial_turns ex_system [Request ex_arrival] \<lparr>table = Map.empty, conn_open = True\<rparr>) \<and>
     verified_for (oidc_lib (arr_env a)) ''https://idp'' ''app'' ''app:alice'' ''alice''"
proof -
  let ?st = "\<lparr>table = Map.empty, conn_open = True\<rparr> :: store"
  have db: "fold (serve ex_system) [Request ex_arrival] ?st = ex_database" using reachable_fold [OF ex_reachable] by simp
  have run: "runs ex_system (sqlite_Update_read None) sqlite_Update_write ?st (serial_turns ex_system [Request ex_arrival] ?st)
      \<lparr>database = ex_database, flight = Map.empty\<rparr>"
    unfolding db [symmetric] by (rule runs_serial) (rule phases_update [OF ex_phases])
  have "sound_start None ?st (serial_turns ex_system [Request ex_arrival] ?st)"
    by (simp add: sound_start_def cipher_correct_def ids_def)
  from sessions_are_vouched_for [OF run ex_phases this, of "''uuid-1''" ex_new_data] ex_database_stored
  show ?thesis by (simp add: stored_def ex_system_def ex_config_def ex_new_data_def)
qed

text \<open>C8. Authentication under interleaving: a request whose middleware runs its handler presents a session that was
  stored when it was looked up. Either its access token is still valid and is the one handed
  on, or it was renewed: by a verified id token for the subject of the session, with the row still there when
  the update read it. If the row is gone by the time of the write (a logout or purge came in between) nothing is
  stored, and the request passes all the same with the new token.\<close>

theorem interleaved_requests_authenticate:
  assumes "runs sys rd wr st0 ts s" "backend_phases c (m_impl (sys_manager sys)) rd wr" "sound_start c st0 ts"
    and "flight s n = Some (a, Checked st1 st2)" "zero_time < clock (arr_env a)" "refuses_empty_refresh (arr_env a) (sys_oidc sys)"
    and "passed_with (\<lambda>next_handler. AuthenticationMiddleware (arr_env a) (sys_manager (timed_system rd wr sys)) (sys_oidc sys)
        next_handler (arr_request a) \<lparr>at_lookup = st1, at_check = st2, at_write = database s\<rparr>) pre token i"
  shows "\<exists>sid d. presents (arr_env a) (sys_manager sys) (arr_request a) sid \<and> stored c st1 sid = Some d \<and>
    (\<not> IsExpired (clock (arr_env a)) d \<and> token = AccessToken d \<and> at_write i = database s \<or>
     IsExpired (clock (arr_env a)) d \<and>
       (\<exists>d'. renewed_by (arr_env a) (sys_oidc sys) d d' \<and> token = AccessToken d' \<and> sid \<in> ids st2 \<and>
          (if sid \<in> ids (database s) then stored c (at_write i) sid = Some (store_precision d') else at_write i = database s)))"
  using assms by (rule runs_authenticate)

theorem interleaved_requests_authenticate_witness:
  "\<exists>sid d. stored None (ex_store 500) sid = Some d \<and> IsExpired (clock ex_env) d \<and> sid \<notin> ids (ex_logged_out 500) \<and>
     (\<exists>d'. renewed_by ex_env ex_config d d' \<and> ''at1'' = AccessToken d')"
proof -
  obtain ck where pass: "passed_with (\<lambda>n. AuthenticationMiddleware ex_env (ex_manager ex_timed) ex_config n ex_alice ex_after_logout)
     (from_context ex_alice @ [AddCookie ck]) ''at1'' ex_after_logout"
    using ex_renewal_passes by blast
  let ?s = "\<lparr>database = ex_logged_out 500, flight = ex_flight\<rparr>"
  have env: "arr_env ex_renewal = ex_env" "arr_request ex_renewal = ex_alice" "sys_oidc ex_system = ex_config"
    "sys_manager ex_system = ex_manager (sqlite_impl None)"
    by (simp_all add: ex_renewal_def ex_arrival_def ex_system_def)
  have m: "sys_manager (timed_system (sqlite_Update_read None) sqlite_Update_write ex_system) = ex_manager ex_timed"
    by (simp add: timed_system_def env)
  have "sound_start None (ex_store 500) (ex_before @ [Answer 1 ex_logout_hops])"
    by (simp add: sound_start_def cipher_correct_def ex_before_def ex_renewal_def ex_logout_def ex_arrival_def) auto
  note start = this
  have fl: "flight ?s 0 = Some (ex_renewal, Checked (ex_store 500) (ex_store 500))" by (simp add: ex_flight_def)
  have hyps: "zero_time < clock (arr_env ex_renewal)" "refuses_empty_refresh (arr_env ex_renewal) (sys_oidc ex_system)"
    unfolding env by (rule ex_clock, rule ex_refuses_empty)
  have "passed_with (\<lambda>n. AuthenticationMiddleware (arr_env ex_renewal)
      (sys_manager (timed_system (sqlite_Update_read None) sqlite_Update_write ex_system)) (sys_oidc ex_system) n (arr_request ex_renewal)
      \<lparr>at_lookup = ex_store 500, at_check = ex_store 500, at_write = database ?s\<rparr>)
      (from_context ex_alice @ [AddCookie ck]) ''at1'' ex_after_logout"
    using pass unfolding env m by (simp add: ex_after_logout_def)
  from interleaved_requests_authenticate [OF ex_logged_out_run ex_phases start fl hyps this, unfolded env]
  obtain sid d where d: "stored None (ex_store 500) sid = Some d"
      "\<not> IsExpired (clock ex_env) d \<and> ''at1'' = AccessToken d \<or>
       IsExpired (clock ex_env) d \<and> (\<exists>d'. renewed_by ex_env ex_config d d' \<and> ''at1'' = AccessToken d')"
    by blast
  then have "sid = ''uuid-0''" "d = ex_data 500"
    by (cases "sid = ''uuid-0''"; simp)+
  with d show ?thesis by (intro exI [of _ sid] exI [of _ d]) (auto simp: ex_logged_out_def ids_def)
qed

text \<open>C7. Logout is final: once a logout of a stored session is answered with 302, its row is gone, and stays gone
  whatever the requests then in flight, renewals half way through among them, and all later ones do. No request
  that looks its session up after that finds it.\<close>

theorem logout_is_final:
  assumes "runs sys rd wr st0 ts s" "backend_phases c (m_impl (sys_manager sys)) rd wr" "sound_start c st0 (ts @ Answer n hops # us)"
    and "flight s n = Some (a, Checked st1 st2)" "presents (arr_env a) (sys_manager sys) (arr_request a) sid"
    and "mux_dispatch (sys_mux sys) (pr_method (arr_http a)) (pr_host (arr_http a)) (pr_url (arr_http a)) = Dispatch (Some LogoutRoute)"
    and "runs sys rd wr st0 (ts @ Answer n hops # us) s'" "client_status hops = Some 302"
  shows "sid \<notin> ids (database s') \<and>
    (\<forall>m b st. LookUp m \<in> set us \<and> (flight s' m = Some (b, LookedUp st) \<or> (\<exists>st2. flight s' m = Some (b, Checked st st2))) \<longrightarrow>
       sid \<notin> ids st)"
proof -
  let ?m = "sys_manager (timed_system rd wr sys)" and ?i = "\<lparr>at_lookup = st1, at_check = st2, at_write = database s\<rparr>"
  obtain no_rows where S: "two_phase_store (m_impl (sys_manager sys)) (stored c) ids conn_open no_rows (cipher_correct c) rd wr
      (\<lambda>env. encryptArgs c (env_nonces env))"
    using assms(2) by (rule backend_phases_store)
  note SS = two_phase_store.axioms(1) [OF S]
  have start: "cipher_correct c" "ids st0 \<subseteq> dom (stored c st0)" "distinct (drawn_uuids ts)" "set (drawn_uuids ts) \<inter> ids st0 = {}"
    using assms(3) by (auto simp: sound_start_def)
  note D = two_phase_store.steadyD [OF S two_phase_store.runs_steady [OF S assms(1) refl start]]
  obtain s1 where s1: "runs sys rd wr st0 (ts @ [Answer n hops]) s1"
    using runs_prefix [of sys rd wr st0 "ts @ [Answer n hops]" us s'] assms(7) by auto
  then obtain i where i: "serve_request (timed_system rd wr sys) a ?i = (hops, i)"
      "s1 = s\<lparr>database := at_write i, flight := (flight s)(n := None)\<rparr>"
    using runs_deterministic [OF assms(1)] assms(4) by (cases rule: runs_snoc_cases) auto
  have "LogoutHandlerOidc (arr_env a) ?m (sys_oidc sys) (sys_logout_uri sys) (arr_request a) ?i = (hops, i)"
    using i(1) assms(6) by (simp add: serve_request_def timed_system_def Let_def)
  then obtain d where d: "Get (m_impl ?m) (db_read (arr_env a)) sid ?i = Inr d"
      "Delete (m_impl ?m) (db_write (arr_env a)) sid ?i = (Inr (), i)"
  proof (rule logout_decides)
    assume "client_status hops = Some 500"
    with assms(8) show thesis by simp
  next
    fix g sid' d'
    assume h: "request_cookie (arr_env a) ?m (arr_request a) = (g, None)" "cookie_id g = Some sid'"
      "cookie_state g = None \<and> Get (m_impl ?m) (db_read (arr_env a)) sid' ?i = Inr d' \<or> cookie_state g \<noteq> None \<and> d' = empty_session_data"
      "Delete (m_impl ?m) (db_write (arr_env a)) sid' ?i = (Inr (), i)"
    have "request_cookie (arr_env a) ?m (arr_request a) = request_cookie (arr_env a) (sys_manager sys) (arr_request a)"
      by (simp add: request_cookie_def timed_system_def)
    with h assms(5) that show thesis by (auto simp: presents_def)
  qed
  have "stored c st1 sid = Some d"
    using d(1) session_store.Get_Inr [OF SS] by (simp add: timed_system_def two_phase_store.timed_simps [OF S])
  then have used: "sid \<in> two_phase_store.used_ids ids st0 ts (flight s)"
    using D(6) [OF assms(4)] stored_ids by blast
  have "Delete (m_impl (sys_manager sys)) (db_write (arr_env a)) sid (database s) = (Inr (), at_write i)"
    using d(2) by (auto simp: timed_system_def timed_def split: prod.splits)
  from session_store.Delete_Inr [OF SS this] have gone: "sid \<notin> ids (database s1)" by (simp add: i(2))
  have "flight s1 = (flight s)(n := None)" by (simp add: i(2))
  with used two_phase_store.used_ids_answered [OF S, of st0 ts "flight s" "[Answer n hops]" n]
  have "sid \<in> two_phase_store.used_ids ids st0 (ts @ [Answer n hops]) (flight s1)" by auto
  from two_phase_store.stays_out [OF S refl start(1,2) s1 this gone, of us s'] assms(3,7)
  show ?thesis by (auto simp: sound_start_def two_phase_store.gone_def [OF S] two_phase_store.unseen_def [OF S])
qed

theorem logout_is_final_witness:
  "\<exists>hops s'. ex_runs (ex_before @ [Answer 1 ex_logout_hops, Answer 0 hops]) s' \<and> ''uuid-0'' \<notin> ids (database s')"
proof -
  let ?st = "ex_store 500" and ?s = "\<lparr>database = ex_logged_out 500, flight = ex_flight\<rparr>"
  obtain hops i where r: "serve_request (timed_system (sqlite_Update_read None) sqlite_Update_write ex_system) ex_renewal
      \<lparr>at_lookup = ?st, at_check = ?st, at_write = database ?s\<rparr> = (hops, i)"
    by (metis prod.collapse)
  have "flight ?s 0 = Some (ex_renewal, Checked ?st ?st)" by (simp add: ex_flight_def)
  from answers [OF ex_logged_out_run this r]
  obtain s' where run: "ex_runs (ex_before @ Answer 1 ex_logout_hops # [Answer 0 hops]) s'" by auto
  have "sound_start None ?st (ex_before @ Answer 1 ex_logout_hops # [Answer 0 hops])"
    by (simp add: sound_start_def cipher_correct_def ex_before_def ex_renewal_def ex_logout_def ex_arrival_def) auto
  moreover have "presents (arr_env ex_logout) (sys_manager ex_system) (arr_request ex_logout) ''uuid-0''"
    by (simp add: presents_def request_cookie_def ex_logout_def ex_system_def ex_arrival_def ex_alice_def)
  moreover have "client_status ex_logout_hops = Some 302" unfolding ex_logout_hops_def by (rule ex_logout_status)
  ultimately have "''uuid-0'' \<notin> ids (database s')"
    using logout_is_final [OF ex_runs_before ex_phases _ _ _ ex_logout_dispatched run] by simp
  with run show ?thesis by auto
qed



end
