(* ===== verification/Concurrent_Failures.thy ===== *)
theory Concurrent_Failures
  imports Concurrent_Requests
begin

text \<open>
  What goes wrong between requests that are served at the same time, on both back ends: requests in flight while
  \<open>main\<close> closes the database, and two requests of one browser that renew the same session. The code
  guards against neither; here is what then happens, and what does not.
\<close>

section \<open>A closed database\<close>

lemma closed_calls:
  assumes "backend_phases c I rd wr" "\<not> conn_open st"
  shows "snd (Add I env d st) = st" "snd (wr env sid enc st) = st" "snd (Delete I env sid st) = st"
    "snd (Purge I env st) = st" "snd (CloseConnection I env st) = st"
    "isl (Get I env sid st)"
  using assms
  by (auto simp: backend_phases_def sqlite_Add_def postgresql_Add_def sqlite_Update_write_def postgresql_Update_write_def
      sqlite_Delete_def postgresql_Delete_def sqlite_Purge_def postgresql_Purge_def
      sqlite_CloseConnection_def postgresql_CloseConnection_def sqlite_Get_def postgresql_Get_def query_row_def exec_def Let_def
      split: sum.splits option.splits)

lemma close_closes:
  assumes "backend_phases c I rd wr"
  shows "\<not> conn_open (snd (CloseConnection I env st))" "table (snd (CloseConnection I env st)) = table st"
  using assms by (auto simp: backend_phases_def sqlite_CloseConnection_def postgresql_CloseConnection_def split: option.splits)

text \<open>What a request has been told by the database, at its look-up.\<close>

definition looked_up :: "store running \<Rightarrow> nat \<Rightarrow> store \<Rightarrow> bool" where
  "looked_up s n st \<longleftrightarrow>
     (\<exists>a. flight s n = Some (a, LookedUp st) \<or> (\<exists>st2. flight s n = Some (a, Checked st st2)))"

lemma runs_closed:
  assumes "backend_phases c (m_impl (sys_manager sys)) rd wr" "runs sys rd wr st0 ts s" "\<not> conn_open (database s)"
    and "runs sys rd wr st0 (ts @ us) s'"
  shows "database s' = database s \<and> (\<forall>n st. LookUp n \<in> set us \<and> looked_up s' n st \<longrightarrow> st = database s)"
  using assms(4)
proof (induction us arbitrary: s' rule: rev_induct)
  case Nil
  then show ?case using runs_deterministic [OF assms(2)] by simp
next
  case (snoc t us)
  have run: "runs sys rd wr st0 ((ts @ us) @ [t]) s'" using snoc.prems by simp
  note closed = closed_calls [OF assms(1,3)]
  from run show ?case
  proof (cases rule: runs_snoc_cases)
    case (arrives s1 n a)
    with snoc.IH [OF arrives(3)] show ?thesis by (auto simp: looked_up_def)
  next
    case (looks_up s1 n a)
    with snoc.IH [OF looks_up(3)] show ?thesis by (auto simp: looked_up_def)
  next
    case (checks s1 n a st1)
    with snoc.IH [OF checks(3)] show ?thesis by (fastforce simp: looked_up_def split: if_splits)
  next
    case (answers s1 n a st1 st2 hops i)
    have "database s1 = database s" using snoc.IH [OF answers(3)] by simp
    with timed_answer [OF answers(5)] have "at_write i = database s" by (auto simp: closed)
    with answers(1,2) snoc.IH [OF answers(3)] show ?thesis by (auto simp: looked_up_def)
  next
    case (cleans_up s1 env)
    with snoc.IH [OF cleans_up(3)] show ?thesis by (auto simp: looked_up_def closed)
  next
    case (disconnects s1 env)
    with snoc.IH [OF disconnects(3)] show ?thesis by (auto simp: looked_up_def closed)
  qed
qed

text \<open>Without a row, the middleware answers.\<close>

lemma closed_refuses:
  assumes "backend_phases c (m_impl m) rd wr" "\<not> conn_open (at_lookup i)" "zero_time < clock env" "refuses_empty_refresh env cfg"
  obtains code i' where "code \<in> {401, 500}"
    "answered_with (\<lambda>n. AuthenticationMiddleware env (with_impl m (timed (m_impl m) rd wr)) cfg n r i) code i'"
proof -
  let ?m = "with_impl m (timed (m_impl m) rd wr)"
  have get: "isl (Get (m_impl ?m) e sid i)" for e sid
    using closed_calls(6) [OF assms(1,2)] by (simp add: timed_def)
  show thesis
    using assms(3,4)
  proof (rule middleware_decides [of env cfg ?m r i])
    fix sid d assume "Get (m_impl ?m) (db_read env) sid i = Inr d"
    with get [of "db_read env" sid] show thesis by simp
  next
    fix sid d assume "Get (m_impl ?m) (db_read env) sid i = Inr d"
    with get [of "db_read env" sid] show thesis by simp
  qed (rule that)
qed

text \<open>With a row that has not expired, it passes the request on, whatever has become of the database since.\<close>

lemma timed_fresh_passes:
  assumes "backend_phases c (m_impl m) rd wr" "presents env m r sid" "conn_open (at_lookup i)" "env_fault (db_read env) = None"
    and "stored c (at_lookup i) sid = Some d" "\<not> IsExpired (clock env) d"
  shows "passed_with (\<lambda>n. AuthenticationMiddleware env (with_impl m (timed (m_impl m) rd wr)) cfg n r i) (from_context r) (AccessToken d) i"
proof -
  let ?m = "with_impl m (timed (m_impl m) rd wr)"
  have got: "Get (m_impl ?m) (db_read env) sid i = Inr d"
    using assms by (auto simp: timed_def backend_phases_def sqlite_Get_Inr_iff postgresql_Get_Inr_iff)
  have "presents env ?m r sid" using assms(2) by (simp add: presents_def request_cookie_def)
  then obtain g where "GetSession env ?m cfg r i = Inr ((session_for ?m cfg g)\<lparr>sess_data := d\<rparr>)"
    using got by (cases rule: GetSession_cases [of env ?m r cfg i]) (auto simp: presents_def)
  from middleware_fresh [OF this] assms(6) show ?thesis by simp
qed

section \<open>Two renewals\<close>

text \<open>The routes behind the middleware.\<close>

definition protected_route :: "'s system \<Rightarrow> incoming \<Rightarrow> bool" where
  "protected_route sys a \<longleftrightarrow>
     (case mux_dispatch (sys_mux sys) (pr_method (arr_http a)) (pr_host (arr_http a)) (pr_url (arr_http a)) of
        Dispatch (Some UserinfoRoute) \<Rightarrow> True
      | Dispatch (Some (ProxyRoute _)) \<Rightarrow> True
      | _ \<Rightarrow> False)"

lemma serve_protected:
  assumes "protected_route sys a"
  obtains f where "\<And>i. serve_request (timed_system rd wr sys) a i =
    AuthenticationMiddleware (arr_env a) (sys_manager (timed_system rd wr sys)) (sys_oidc sys) (\<lambda>t i. (f t, i)) (arr_request a) i"
  using assms that
  by (auto simp: protected_route_def serve_request_def UserInfoHandlerOidc_def Let_def timed_system_def
      split: mux_reply.splits option.splits route.splits)

text \<open>A refused renewal is answered with 401, whatever the database holds by then.\<close>

lemma refused_renewal:
  assumes "backend_phases c (m_impl (sys_manager sys)) rd wr" "protected_route sys b"
    and "presents (arr_env b) (sys_manager sys) (arr_request b) sid" "conn_open (at_lookup i)" "env_fault (db_read (arr_env b)) = None"
    and "stored c (at_lookup i) sid = Some d" "IsExpired (clock (arr_env b)) d"
    and "RefreshGrant (arr_env b) (sys_oidc sys) (RefreshToken d) = Inl err"
  obtains hops where "serve_request (timed_system rd wr sys) b i = (hops, i)" "client_status hops = Some 401"
proof -
  let ?m = "sys_manager (timed_system rd wr sys)"
  have m: "?m = with_impl (sys_manager sys) (timed (m_impl (sys_manager sys)) rd wr)" by (simp add: timed_system_def)
  have got: "Get (m_impl ?m) (db_read (arr_env b)) sid i = Inr d"
    using assms(1,4-6) by (auto simp: m timed_def backend_phases_def sqlite_Get_Inr_iff postgresql_Get_Inr_iff)
  have "presents (arr_env b) ?m (arr_request b) sid" using assms(3) by (simp add: m presents_def request_cookie_def)
  then obtain g where "GetSession (arr_env b) ?m (sys_oidc sys) (arr_request b) i = Inr ((session_for ?m (sys_oidc sys) g)\<lparr>sess_data := d\<rparr>)"
    using got by (cases rule: GetSession_cases [of "arr_env b" ?m "arr_request b" "sys_oidc sys" i]) (auto simp: presents_def)
  from middleware_not_renewed [OF this, of err] assms(7,8) obtain hops where
    "client_status hops = Some 401" "AuthenticationMiddleware (arr_env b) ?m (sys_oidc sys) k (arr_request b) i = (hops, i)" for k
    by (auto simp: answered_with_def)
  with assms(2) that show thesis by (elim serve_protected [of sys b rd wr]) simp
qed

section \<open>Properties\<close>

text \<open>C9. The end of the database: from the moment the shutdown closes the connection, while the HTTP server goes on, no request
  in flight, whatever it had begun, and no later one changes a row. The middleware answers 401 or 500 to every
  request that looks its session up after that; one that found its session before, with a token that has not
  expired, is still passed on.\<close>

theorem closing_is_final:
  assumes "runs sys rd wr st0 (ts @ Disconnect env # us) s'" "backend_phases c (m_impl (sys_manager sys)) rd wr"
    and "flight s' n = Some (a, Checked st1 st2)" "zero_time < clock (arr_env a)" "refuses_empty_refresh (arr_env a) (sys_oidc sys)"
    and "served = (\<lambda>next_handler. AuthenticationMiddleware (arr_env a) (sys_manager (timed_system rd wr sys)) (sys_oidc sys)
      next_handler (arr_request a) \<lparr>at_lookup = st1, at_check = st2, at_write = database s'\<rparr>)"
  shows "(\<exists>s. runs sys rd wr st0 ts s \<and> table (database s') = table (database s) \<and> \<not> conn_open (database s')) \<and>
    (LookUp n \<in> set us \<longrightarrow> (\<exists>code i. code \<in> {401, 500} \<and> answered_with served code i)) \<and>
    (conn_open st1 \<and> env_fault (db_read (arr_env a)) = None \<longrightarrow>
      (\<forall>sid d. presents (arr_env a) (sys_manager sys) (arr_request a) sid \<and> stored c st1 sid = Some d \<and> \<not> IsExpired (clock (arr_env a)) d \<longrightarrow>
        (\<exists>i. passed_with served (from_context (arr_request a)) (AccessToken d) i \<and> at_write i = database s')))"
proof -
  let ?i = "\<lparr>at_lookup = st1, at_check = st2, at_write = database s'\<rparr>"
  have served: "served = (\<lambda>k. AuthenticationMiddleware (arr_env a)
      (with_impl (sys_manager sys) (timed (m_impl (sys_manager sys)) rd wr)) (sys_oidc sys) k (arr_request a) ?i)"
    by (simp add: assms(6) timed_system_def)
  obtain s1 where s1: "runs sys rd wr st0 (ts @ [Disconnect env]) s1"
    using runs_prefix [of sys rd wr st0 "ts @ [Disconnect env]" us s'] assms(1) by auto
  then obtain s where s: "runs sys rd wr st0 ts s" "s1 = s\<lparr>database := snd (CloseConnection (m_impl (sys_manager sys)) env (database s))\<rparr>"
    by (cases rule: runs_snoc_cases) auto
  then have db: "\<not> conn_open (database s1)" "table (database s1) = table (database s)" using close_closes [OF assms(2)] by simp_all
  have "runs sys rd wr st0 ((ts @ [Disconnect env]) @ us) s'" using assms(1) by simp
  note later = runs_closed [OF assms(2) s1 db(1) this]
  show ?thesis
  proof (intro conjI impI allI)
    show "\<exists>s. runs sys rd wr st0 ts s \<and> table (database s') = table (database s) \<and> \<not> conn_open (database s')"
      using s(1) db later by auto
    assume "LookUp n \<in> set us"
    with later assms(3) have "st1 = database s1" by (auto simp: looked_up_def)
    with db(1) have "\<not> conn_open (at_lookup ?i)" by simp
    from closed_refuses [OF assms(2) this assms(4,5)]
    show "\<exists>code i. code \<in> {401, 500} \<and> answered_with served code i" unfolding served by metis
  next
    fix sid d
    assume h: "conn_open st1 \<and> env_fault (db_read (arr_env a)) = None"
      "presents (arr_env a) (sys_manager sys) (arr_request a) sid \<and> stored c st1 sid = Some d \<and> \<not> IsExpired (clock (arr_env a)) d"
    then have "passed_with served (from_context (arr_request a)) (AccessToken d) ?i"
      unfolding served by (intro timed_fresh_passes [OF assms(2), where sid = sid]) simp_all
    then show "\<exists>i. passed_with served (from_context (arr_request a)) (AccessToken d) i \<and> at_write i = database s'"
      by (intro exI [of _ ?i]) simp
  qed
qed

theorem closing_is_final_witness:
  "\<exists>s' code i. ex_runs [Disconnect (ex_db_env []), Arrive 0 ex_renewal, LookUp 0, Check 0] s' \<and>
     table (database s') = table (ex_store 500) \<and> code \<in> {401, 500} \<and>
     answered_with (\<lambda>n. AuthenticationMiddleware (arr_env ex_renewal)
       (sys_manager (timed_system (sqlite_Update_read None) sqlite_Update_write ex_system)) (sys_oidc ex_system) n (arr_request ex_renewal)
       \<lparr>at_lookup = database s', at_check = database s', at_write = database s'\<rparr>) code i"
proof -
  let ?d = "snd (CloseConnection (m_impl (sys_manager ex_system)) (ex_db_env []) (ex_store 500))"
  have "ex_runs [Disconnect (ex_db_env [])] \<lparr>database = ?d, flight = Map.empty\<rparr>"
    using disconnects [OF idle, where env = "ex_db_env []"] by simp
  from arrives [OF this, where n = 0 and a = ex_renewal]
  have "ex_runs [Disconnect (ex_db_env []), Arrive 0 ex_renewal] \<lparr>database = ?d, flight = [0 \<mapsto> (ex_renewal, Arrived)]\<rparr>" by simp
  from looks_up [OF this, where n = 0]
  have "ex_runs [Disconnect (ex_db_env []), Arrive 0 ex_renewal, LookUp 0] \<lparr>database = ?d, flight = [0 \<mapsto> (ex_renewal, LookedUp ?d)]\<rparr>" by simp
  from checks [OF this, where n = 0]
  have run: "ex_runs ([] @ Disconnect (ex_db_env []) # [Arrive 0 ex_renewal, LookUp 0, Check 0])
      \<lparr>database = ?d, flight = [0 \<mapsto> (ex_renewal, Checked ?d ?d)]\<rparr>" by simp
  have env: "arr_env ex_renewal = ex_env" "sys_oidc ex_system = ex_config"
    by (simp_all add: ex_renewal_def ex_arrival_def ex_system_def)
  have "zero_time < clock (arr_env ex_renewal)" "refuses_empty_refresh (arr_env ex_renewal) (sys_oidc ex_system)"
    unfolding env by (rule ex_clock, rule ex_refuses_empty)
  from closing_is_final [OF run ex_phases _ this refl, of 0 ?d ?d] obtain s code i where
    "ex_runs [] s" "table ?d = table (database s)" "code \<in> {401, 500}"
    "answered_with (\<lambda>n. AuthenticationMiddleware (arr_env ex_renewal)
       (sys_manager (timed_system (sqlite_Update_read None) sqlite_Update_write ex_system)) (sys_oidc ex_system) n (arr_request ex_renewal)
       \<lparr>at_lookup = ?d, at_check = ?d, at_write = ?d\<rparr>) code i"
    by auto
  moreover have "table ?d = table (ex_store 500)" using close_closes(2) [OF ex_phases] .
  ultimately show ?thesis using run by (intro exI [of _ "\<lparr>database = ?d, flight = [0 \<mapsto> (ex_renewal, Checked ?d ?d)]\<rparr>"]) auto
qed

text \<open>C38. Two renewals of one session: when two requests of a browser have both found its session expired, and the provider accepts
  a refresh token only once, the one that is renewed first gets through and leaves a session
  with a new token behind; the other one is then answered 401 although its session is stored and has just been renewed: a
  refused renewal does not look at the database again.\<close>

theorem renewals_collide:
  assumes "runs sys rd wr st0 ts s" "backend_phases c (m_impl (sys_manager sys)) rd wr" "sound_start c st0 ts"
    and "flight s n = Some (a, Checked st1 st2)" "flight s m = Some (b, Checked st3 st4)" "n \<noteq> m"
    and "protected_route sys a" "protected_route sys b"
    and "zero_time < clock (arr_env a)" "refuses_empty_refresh (arr_env a) (sys_oidc sys)"
    and "presents (arr_env a) (sys_manager sys) (arr_request a) sid" "presents (arr_env b) (sys_manager sys) (arr_request b) sid"
    and "stored c st1 sid = Some d" "stored c st3 sid = Some d" "IsExpired (clock (arr_env a)) d" "IsExpired (clock (arr_env b)) d"
    and "sid \<in> ids (database s)" "conn_open st3" "env_fault (db_read (arr_env b)) = None"
    and "passed_with (\<lambda>next_handler. AuthenticationMiddleware (arr_env a) (sys_manager (timed_system rd wr sys)) (sys_oidc sys)
        next_handler (arr_request a) \<lparr>at_lookup = st1, at_check = st2, at_write = database s\<rparr>) pre token i"
    and "RefreshGrant (arr_env b) (sys_oidc sys) (RefreshToken d) = Inl err"
  shows "\<exists>hops1 hops2 s' d'. runs sys rd wr st0 (ts @ [Answer n hops1, Answer m hops2]) s' \<and>
    renewed_by (arr_env a) (sys_oidc sys) d d' \<and> token = AccessToken d' \<and>
    stored c (database s') sid = Some (store_precision d') \<and> client_status hops2 = Some 401"
proof -
  let ?i = "\<lparr>at_lookup = st1, at_check = st2, at_write = database s\<rparr>"
  obtain sid' e where e: "presents (arr_env a) (sys_manager sys) (arr_request a) sid'" "stored c st1 sid' = Some e"
    "\<not> IsExpired (clock (arr_env a)) e \<and> token = AccessToken e \<and> at_write i = database s \<or>
     IsExpired (clock (arr_env a)) e \<and>
       (\<exists>d'. renewed_by (arr_env a) (sys_oidc sys) e d' \<and> token = AccessToken d' \<and> sid' \<in> ids st2 \<and>
          (if sid' \<in> ids (database s) then stored c (at_write i) sid' = Some (store_precision d') else at_write i = database s))"
    using runs_authenticate [OF assms(1-4,9,10,20)] by blast
  then have "sid' = sid" using assms(11) by (auto simp: presents_def)
  with e assms(13,15,17) obtain d' where d': "renewed_by (arr_env a) (sys_oidc sys) d d'" "token = AccessToken d'"
    "stored c (at_write i) sid = Some (store_precision d')" by auto
  obtain f where "serve_request (timed_system rd wr sys) a ?i =
      AuthenticationMiddleware (arr_env a) (sys_manager (timed_system rd wr sys)) (sys_oidc sys) (\<lambda>t i. (f t, i)) (arr_request a) ?i"
    using serve_protected [OF assms(7)] by metis
  then have "serve_request (timed_system rd wr sys) a ?i = (pre @ f token, i)"
    using assms(20) by (simp add: passed_with_def)
  from answers [OF assms(1,4) this]
  have run1: "runs sys rd wr st0 (ts @ [Answer n (pre @ f token)]) (s\<lparr>database := at_write i, flight := (flight s)(n := None)\<rparr>)" .
  let ?j = "\<lparr>at_lookup = st3, at_check = st4, at_write = at_write i\<rparr>"
  obtain hops2 where h: "serve_request (timed_system rd wr sys) b ?j = (hops2, ?j)" "client_status hops2 = Some 401"
    by (rule refused_renewal [OF assms(2,8,12), of ?j d err]) (use assms(14,16,18,19,21) in simp_all)
  have "flight (s\<lparr>database := at_write i, flight := (flight s)(n := None)\<rparr>) m = Some (b, Checked st3 st4)"
    using assms(5,6) by simp
  from answers [OF run1 this] h(1)
  have "runs sys rd wr st0 (ts @ [Answer n (pre @ f token), Answer m hops2])
      (s\<lparr>database := at_write i, flight := (flight s)(n := None, m := None)\<rparr>)" by simp
  with d' h(2) show ?thesis
    by (intro exI [of _ "pre @ f token"] exI [of _ hops2]
        exI [of _ "s\<lparr>database := at_write i, flight := (flight s)(n := None, m := None)\<rparr>"] exI [of _ d']) simp
qed

text \<open>The second request of the example, to a provider that takes a refresh token once.\<close>

definition ex_second :: incoming where
  "ex_second = ex_renewal\<lparr>arr_env := ex_env\<lparr>db_write := ex_db_env ''uuid-2'',
     RefreshGrant := (\<lambda>c rt. Inl (Errorf ''invalid_grant'' []))\<rparr>\<rparr>"

lemma ex_second_simps [simp]:
  "arr_env ex_renewal = ex_env" "arr_request ex_renewal = ex_alice" "arr_request ex_second = ex_alice"
  "db_read (arr_env ex_second) = ex_db_env []" "clock (arr_env ex_second) = clock ex_env"
  "RefreshGrant (arr_env ex_second) c rt = Inl (Errorf ''invalid_grant'' [])"
  "presents (arr_env ex_second) m ex_alice sid = presents ex_env m ex_alice sid"
  by (simp_all add: ex_second_def ex_renewal_def ex_arrival_def presents_def request_cookie_def)

lemma ex_protected: "protected_route ex_system ex_renewal" "protected_route ex_system ex_second"
proof -
  have "clean_path ''/userinfo'' = ''/userinfo''" by code_simp
  then show "protected_route ex_system ex_renewal" "protected_route ex_system ex_second"
    by (simp_all add: protected_route_def ex_second_def ex_renewal_def ex_system_def ex_proxied_def mux_dispatch_def
        should_redirect_def fixed_routes_def mux_handler_def mux_match_def)
qed

theorem renewals_collide_witness:
  "\<exists>hops1 hops2 s' d'.
     ex_runs [Arrive 0 ex_renewal, LookUp 0, Check 0, Arrive 1 ex_second, LookUp 1, Check 1, Answer 0 hops1, Answer 1 hops2] s' \<and>
     ''at1'' = AccessToken d' \<and> stored None (database s') ''uuid-0'' = Some (store_precision d') \<and> client_status hops2 = Some 401"
proof -
  let ?st = "ex_store 500" and ?ts = "[Arrive 0 ex_renewal, LookUp 0, Check 0, Arrive 1 ex_second, LookUp 1, Check 1]"
  let ?s = "\<lparr>database = ?st, flight = ex_flight(1 \<mapsto> (ex_second, Checked ?st ?st))\<rparr>"
  have sys: "sys_manager ex_system = ex_manager (sqlite_impl None)" "sys_oidc ex_system = ex_config"
    "sys_manager (timed_system (sqlite_Update_read None) sqlite_Update_write ex_system) = ex_manager ex_timed"
    by (simp_all add: ex_system_def timed_system_def)
  have start: "sound_start None ?st ?ts"
    by (simp add: sound_start_def cipher_correct_def ex_second_def ex_renewal_def ex_arrival_def) auto
  have fl: "flight ?s 0 = Some (ex_renewal, Checked ?st ?st)" "flight ?s 1 = Some (ex_second, Checked ?st ?st)"
    by (simp_all add: ex_flight_def)
  have "sqlite_Update_write (ex_db_env ''uuid-1'') ''uuid-0'' ex_new_data ?st = (Inr (), ex_new_store ''uuid-0'' ?st)"
    by (simp add: sqlite_Update_write_Inr_iff ex_new_store_def)
  from ex_renewal_writes [OF this] obtain ck where pass: "passed_with (\<lambda>n. AuthenticationMiddleware ex_env (ex_manager ex_timed) ex_config n ex_alice
      \<lparr>at_lookup = ?st, at_check = ?st, at_write = ?st\<rparr>) (from_context ex_alice @ [AddCookie ck]) ''at1''
      \<lparr>at_lookup = ?st, at_check = ?st, at_write = ex_new_store ''uuid-0'' ?st\<rparr>" by blast
  have exp: "IsExpired (clock ex_env) (ex_data 500)" by (simp add: IsExpired_def from_unix_def)
  have "presents ex_env (ex_manager (sqlite_impl None)) ex_alice ''uuid-0''" by simp
  with renewals_collide [OF ex_runs_second ex_phases start fl _ ex_protected, where sid = "''uuid-0''" and d = "ex_data 500"
      and pre = "from_context ex_alice @ [AddCookie ck]" and token = "''at1''" and err = "Errorf ''invalid_grant'' []"
      and i = "\<lparr>at_lookup = ?st, at_check = ?st, at_write = ex_new_store ''uuid-0'' ?st\<rparr>"]
    pass exp ex_clock ex_refuses_empty
  show ?thesis by (auto simp: sys)
qed

end
