(* ===== verification/Json_Replies.thy ===== *)
theory Json_Replies
  imports Zlogger
begin

text \<open>
  What a client reads in an error reply of \<open>JsonError\<close> (\<open>zlogger/logger.go\<close>): a reader of JSON objects without blanks,
  as \<open>encoding/json\<close> writes them, whose values are strings and natural numbers. A reader takes a value off
  the front of a text and returns the rest with it.
\<close>

section \<open>A reader of JSON\<close>

datatype json_value = JText string | JNumber nat

type_synonym 'a reader = "string \<Rightarrow> ('a \<times> string) option"

definition hex_value :: "char \<Rightarrow> nat option" where
  "hex_value c =
     (let n = of_char c in
      if 48 \<le> n \<and> n \<le> 57 then Some (n - 48)
      else if 97 \<le> n \<and> n \<le> 102 then Some (n - 87)
      else if 65 \<le> n \<and> n \<le> 70 then Some (n - 55)
      else None)"

text \<open>The escapes of one letter; those of four hexadecimal digits are read where they stand for a byte.\<close>

definition escapes :: "(char \<times> char) list" where
  "escapes =
     [(CHR 0x22, CHR 0x22), (CHR 0x5C, CHR 0x5C), (CHR ''/'', CHR ''/''), (CHR ''b'', CHR 0x08),
      (CHR ''f'', CHR 0x0C), (CHR ''n'', CHR 0x0A), (CHR ''r'', CHR 0x0D), (CHR ''t'', CHR 0x09)]"

fun read_unicode :: "char reader" where
  "read_unicode (a # b # h # l # s) =
     (case (hex_value a, hex_value b, hex_value h, hex_value l) of
        (Some 0, Some 0, Some m, Some n) \<Rightarrow> Some (char_of (16 * m + n), s)
      | _ \<Rightarrow> None)"
| "read_unicode _ = None"

definition read_escape :: "char reader" where
  "read_escape s =
     (case s of
        [] \<Rightarrow> None
      | e # s' \<Rightarrow>
          if e = CHR ''u'' then read_unicode s'
          else map_option (\<lambda>c. (c, s')) (map_of escapes e))"

lemma read_escape_less: "read_escape s = Some (c, s') \<Longrightarrow> length s' < length s"
proof -
  have "read_unicode t = Some (c, s') \<Longrightarrow> length s' < length t" for t
    by (cases t rule: read_unicode.cases) (auto split: option.splits nat.splits)
  then show "read_escape s = Some (c, s') \<Longrightarrow> length s' < length s"
    by (fastforce simp: read_escape_def split: list.splits if_splits)
qed

text \<open>The rest of a string, after its opening quote. A control character may not stand in it.\<close>

function read_chars :: "string reader" where
  "read_chars [] = None"
| "read_chars (c # s) =
     (if c = CHR 0x22 then Some ([], s)
      else if c = CHR 0x5C then
        (case read_escape s of
           None \<Rightarrow> None
         | Some (x, s') \<Rightarrow> map_option (apfst (Cons x)) (read_chars s'))
      else if of_char c < (32::nat) then None
      else map_option (apfst (Cons c)) (read_chars s))"
  by pat_completeness auto
termination
  by (relation "measure length") (auto dest: read_escape_less)

lemma read_chars_less: "read_chars s = Some (x, s') \<Longrightarrow> length s' < length s"
proof (induction s arbitrary: x rule: read_chars.induct)
  case (2 c s)
  then show ?case by (fastforce split: if_splits option.splits dest: read_escape_less)
qed simp

definition read_string :: "string reader" where
  "read_string s = (case s of [] \<Rightarrow> None | c # s' \<Rightarrow> if c = CHR 0x22 then read_chars s' else None)"

definition is_digit :: "char \<Rightarrow> bool" where
  "is_digit c \<longleftrightarrow> 48 \<le> (of_char c :: nat) \<and> (of_char c :: nat) \<le> 57"

definition digits_value :: "string \<Rightarrow> nat" where
  "digits_value ds = foldl (\<lambda>n c. 10 * n + (of_char c - 48)) 0 ds"

definition read_number :: "nat reader" where
  "read_number s =
     (let ds = takeWhile is_digit s in if ds = [] then None else Some (digits_value ds, dropWhile is_digit s))"

definition read_value :: "json_value reader" where
  "read_value s =
     (case s of
        [] \<Rightarrow> None
      | c # _ \<Rightarrow>
          if c = CHR 0x22 then map_option (apfst JText) (read_string s)
          else map_option (apfst JNumber) (read_number s))"

definition expect :: "char \<Rightarrow> unit reader" where
  "expect c s = (case s of [] \<Rightarrow> None | c' # s' \<Rightarrow> if c' = c then Some ((), s') else None)"

definition read_pair :: "(string \<times> json_value) reader" where
  "read_pair s =
     (case read_string s of
        None \<Rightarrow> None
      | Some (k, s1) \<Rightarrow>
          (case expect (CHR '':'') s1 of
             None \<Rightarrow> None
           | Some (_, s2) \<Rightarrow> map_option (apfst (Pair k)) (read_value s2)))"

lemma read_string_less: "read_string s = Some (x, s') \<Longrightarrow> length s' < length s"
  by (auto simp: read_string_def dest: read_chars_less split: list.splits if_splits)

lemma read_value_le: "read_value s = Some (v, s') \<Longrightarrow> length s' \<le> length s"
  by (auto simp: read_value_def read_number_def Let_def dest!: read_string_less intro: le_SucI length_dropWhile_le
      split: list.splits if_splits)

lemma read_pair_less: "read_pair s = Some (p, s') \<Longrightarrow> length s' < length s"
  by (auto simp: read_pair_def expect_def dest!: read_string_less read_value_le split: option.splits list.splits if_splits)

function read_members :: "(string \<times> json_value) list reader" where
  "read_members s =
     (case read_pair s of
        None \<Rightarrow> None
      | Some (p, s1) \<Rightarrow>
          (case s1 of
             [] \<Rightarrow> None
           | c # s2 \<Rightarrow>
               if c = CHR '','' then map_option (apfst (Cons p)) (read_members s2)
               else if c = CHR ''}'' then Some ([p], s2)
               else None))"
  by pat_completeness auto
termination
  by (relation "measure length") (auto dest: read_pair_less)

declare read_members.simps [simp del]

definition read_object :: "(string \<times> json_value) list reader" where
  "read_object s = (case expect (CHR ''{'') s of None \<Rightarrow> None | Some (_, s') \<Rightarrow> read_members s')"

section \<open>Reading what was written\<close>

lemma hex_value_digit: "n < 16 \<Longrightarrow> hex_value (lower_hex ! n) = Some n"
proof -
  have "list_all (\<lambda>n. hex_value (lower_hex ! n) = Some n) [0..<16]" by code_simp
  then show "n < 16 \<Longrightarrow> hex_value (lower_hex ! n) = Some n" by (simp add: list_all_iff)
qed

lemma read_json_char: "read_chars (json_char c @ s) = map_option (apfst (Cons c)) (read_chars s)"
proof -
  have n: "of_char c div 16 < (16::nat)" "of_char c mod 16 < (16::nat)"
    using nat_of_char_less_256 [of c] by (simp_all del: nat_of_char_less_256)
  have zero: "hex_value (CHR ''0'') = Some 0" by code_simp
  have "read_unicode (''00'' @ [lower_hex ! (of_char c div 16), lower_hex ! (of_char c mod 16)] @ s) = Some (c, s)"
    using n zero by (simp add: hex_value_digit)
  then show ?thesis
    by (auto simp: json_char_def read_escape_def escapes_def)
qed

lemma read_json_string: "read_string (json_string t @ s) = Some (t, s)"
proof -
  have "read_chars (concat (map json_char t) @ CHR 0x22 # s) = Some (t, s)"
    by (induction t) (simp_all add: read_json_char)
  then show ?thesis by (simp add: json_string_def read_string_def)
qed

lemma show_nat_reads: "list_all is_digit (show_nat n) \<and> show_nat n \<noteq> [] \<and> digits_value (show_nat n) = n"
proof (induction n rule: show_nat.induct)
  case (1 n)
  have digit: "is_digit (char_of (48 + m))" "of_char (char_of (48 + m) :: char) = 48 + m" if "m < 10" for m :: nat
    using that by (simp_all add: is_digit_def)
  show ?case
  proof (cases "n < 10")
    case True
    then show ?thesis by (simp add: show_nat.simps [of n] digit digits_value_def)
  next
    case False
    then have "list_all is_digit (show_nat (n div 10))" "digits_value (show_nat (n div 10)) = n div 10" using 1 by simp_all
    with False show ?thesis
      by (simp add: show_nat.simps [of n] digit digits_value_def)
  qed
qed

lemma read_show_nat:
  assumes "\<not> is_digit c"
  shows "read_number (show_nat n @ c # s) = Some (n, c # s)"
  using show_nat_reads [of n] assms by (simp add: read_number_def Let_def list_all_iff takeWhile_append2 dropWhile_append2)

lemma read_pair_text: "read_pair (json_string k @ CHR '':'' # json_string t @ s) = Some ((k, JText t), s)"
proof -
  have "json_string t @ s = CHR 0x22 # concat (map json_char t) @ CHR 0x22 # s" by (simp add: json_string_def)
  then have "read_value (json_string t @ s) = Some (JText t, s)"
    using read_json_string [of t s] by (simp add: read_value_def)
  then show ?thesis by (simp add: read_pair_def read_json_string expect_def)
qed

lemma read_pair_number:
  assumes "\<not> is_digit c"
  shows "read_pair (json_string k @ CHR '':'' # show_nat n @ c # s) = Some ((k, JNumber n), c # s)"
proof -
  have "hd (show_nat n @ c # s) \<noteq> CHR 0x22" "show_nat n @ c # s \<noteq> []"
    using show_nat_reads [of n] by (cases "show_nat n"; auto simp: is_digit_def)+
  then have "read_value (show_nat n @ c # s) = Some (JNumber n, c # s)"
    using read_show_nat [OF assms, of n s] by (cases "show_nat n @ c # s") (simp_all add: read_value_def)
  then show ?thesis by (simp add: read_pair_def read_json_string expect_def)
qed

text \<open>The members of an error reply, in order.\<close>

definition error_members :: "nat \<Rightarrow> string \<Rightarrow> string \<Rightarrow> (string \<times> json_value) list" where
  "error_members code description timestamp =
     [(''code'', JNumber code), (''status'', JText (StatusText code))]
     @ (if description = [] then [] else [(''message'', JText description)])
     @ [(''timestamp'', JText timestamp)]"

lemma read_error_body:
  "read_object (error_body code description timestamp) = Some (error_members code description timestamp, [CHR 0x0A])"
proof -
  have comma: "\<not> is_digit (CHR '','')" by (simp add: is_digit_def)
  note more = read_members.simps [of "json_string k @ CHR '':'' # v" for k v]
  show ?thesis
    by (simp add: error_body_def error_members_def read_object_def expect_def more read_pair_text read_pair_number [OF comma])
qed

text \<open>None of the characters that matter to HTML is in the text.\<close>

lemma json_char_html: "set (json_char c) \<inter> set ''<>&'' = {}"
proof -
  define safe where "safe x \<longleftrightarrow> x \<notin> set ''<>&''" for x :: char
  have "list_all (\<lambda>n. lower_hex ! n \<notin> set ''<>&'') [0..<16]" by code_simp
  then have hex: "safe (lower_hex ! n)" if "n < 16" for n using that by (simp add: list_all_iff safe_def)
  have n: "of_char c div 16 < (16::nat)" "of_char c mod 16 < (16::nat)"
    using nat_of_char_less_256 [of c] by (simp_all del: nat_of_char_less_256)
  have letters: "safe (CHR 0x5C)" "safe (CHR 0x22)" "safe (CHR ''n'')" "safe (CHR ''r'')" "safe (CHR ''t'')"
    "safe (CHR ''u'')" "safe (CHR ''0'')"
    by (simp_all add: safe_def)
  have "json_char c =
     (if c = CHR 0x22 \<or> c = CHR 0x5C then [CHR 0x5C, c]
      else if c = CHR 0x0A then [CHR 0x5C, CHR ''n'']
      else if c = CHR 0x0D then [CHR 0x5C, CHR ''r'']
      else if c = CHR 0x09 then [CHR 0x5C, CHR ''t'']
      else if of_char c < (32::nat) \<or> \<not> safe c then
        CHR 0x5C # ''u00'' @ [lower_hex ! (of_char c div 16), lower_hex ! (of_char c mod 16)]
      else [c])"
    by (simp add: json_char_def safe_def)
  then have "list_all safe (json_char c)" using letters hex [OF n(1)] hex [OF n(2)] by (auto split: if_splits)
  then show ?thesis by (auto simp: list_all_iff safe_def)
qed

lemma json_string_html: "set (json_string t) \<inter> set ''<>&'' = {}"
  using json_char_html by (auto simp: json_string_def)

lemma error_body_html: "set (error_body code description timestamp) \<inter> set ''<>&'' = {}"
proof -
  have "set (show_nat code) \<inter> set ''<>&'' = {}"
    using show_nat_reads [of code] by (auto simp: list_all_iff is_digit_def)
  moreover have "set (json_string t) \<inter> set ''<>&'' = {}" for t by (rule json_string_html)
  ultimately show ?thesis by (simp add: error_body_def disjoint_iff)
qed

lemma quiet_body: "list_all quiet hops \<Longrightarrow> res_body (fold resp_step hops r) = res_body r"
proof (induction hops arbitrary: r)
  case (Cons h hops)
  then show ?case by (cases h) simp_all
qed simp

text \<open>All descriptions of the code are ASCII text, for which \<open>json_char\<close> is what \<open>encoding/json\<close> does.\<close>

definition ascii :: "string \<Rightarrow> bool" where
  "ascii s \<longleftrightarrow> list_all (\<lambda>c. of_char c < (128::nat)) s"

section \<open>Properties\<close>

text \<open>C39. Error replies arrive: after calls that have not answered yet, \<open>JsonError\<close> answers with its status and a body of
  type JSON that a client reads back as the status, its text, the description (ASCII text) when there is one, and the time; nothing else.
  The body depends on the description only, not on the error itself, which goes to the log, and no
  description can bring a character into it that matters to HTML.\<close>

theorem error_replies_read_back:
  assumes "list_all quiet pre" "hops = pre @ JsonError timestamp code description err" "ascii description" "ascii timestamp"
  shows "client_status hops = Some code \<and>
    client_header hops ''Content-Type'' = Some ''application/json; charset=utf-8'' \<and>
    client_header hops ''X-Content-Type-Options'' = Some ''nosniff'' \<and>
    read_object (res_body (client_view hops)) = Some (error_members code description timestamp, [CHR 0x0A]) \<and>
    (\<forall>err'. client_view (pre @ JsonError timestamp code description err') = client_view hops) \<and>
    set (res_body (client_view hops)) \<inter> set ''<>&'' = {}"
proof -
  let ?r = "fold resp_step pre fresh_response"
  have r: "res_sent ?r = None" "res_panic ?r = False" "res_body ?r = []"
    using quiet_fold [OF assms(1), of fresh_response] quiet_body [OF assms(1), of fresh_response] by (simp_all add: fresh_response_def)
  have "res_body (client_view hops) = error_body code description timestamp"
    using r by (simp add: client_view_def assms(2) JsonError_def)
  then show ?thesis
    using r read_error_body error_body_html
    by (simp add: client_status_def client_header_def client_view_def assms(2) JsonError_def set_header_def)
qed

theorem error_replies_read_back_witness:
  "read_object (res_body (client_view ([FromCtx [] []] @ JsonError ''now'' 401 ''no <session>'' None))) =
     Some ([(''code'', JNumber 401), (''status'', JText ''Unauthorized''), (''message'', JText ''no <session>''),
       (''timestamp'', JText ''now'')], [CHR 0x0A])"
  using error_replies_read_back [of "[FromCtx [] []]" _ "''now''" 401 "''no <session>''" None, OF _ refl]
  by (simp add: error_members_def StatusText_def status_table_def ascii_def)

end
