(* ===== verification/Spec2Isabelle.thy ===== *)
theory Spec2Isabelle
  imports Go_Prelude Go_Encoding Go_Query Go_Http Zlogger Backends Config Access Cleaner Shared_Logger Examples Store_Properties Proxy Startup Routes System
    Opentelemetry Statements Logger_Progress Token_Secrecy Cookie_Policy Trace_Secrecy Program Test_Backend Concurrent_Failures Json_Replies
begin

text \<open>
  A verification of \<open>go-token-handler\<close>, a service that signs users in at an OpenID Connect
  provider on behalf of a browser application. The tokens of a user stay in a database of the
  service; the browser only gets a cookie with the id of its session. Requests to configured
  endpoints are forwarded to back-end services with the access token of the session.

  \<^bold>\<open>The program and its model.\<close> Each part of the program, the files under \<open>src/\<close> it
  consists of, and the theory that models it:

  \<^item> \<open>main.go\<close>: \<open>Startup\<close> has the sequence of constructors (\<open>start\<close>), \<open>Routes\<close> the
    \<open>http.ServeMux\<close> with its redirects and the registered paths, \<open>Program\<close> the whole of \<open>main\<close> with its
    proxies, its listener, the signal and the deferred functions (\<open>main_run\<close>), and
    \<open>System\<close> the running program: \<open>serve_request\<close> sends a request to its handler, and
    \<open>reachable\<close> is any sequence of requests and purges from an empty database. In \<open>Concurrency\<close> requests are
    served at the same time: \<open>runs\<close> interleaves the SQL statements of any number of them with
    those of the cleaner and with the closing of the connection.
  \<^item> \<open>config/config.go\<close>: \<open>Config\<close>, with \<open>LoadConfig\<close>, \<open>configValidate\<close> and \<open>ReadProxyConfig\<close>.
  \<^item> \<open>sessions/configuration.go\<close>, \<open>manager.go\<close>, \<open>session.go\<close>, \<open>handler.go\<close>,
    \<open>middleware.go\<close>: \<open>Session_Keys\<close> (the key pairs of the cookie), \<open>Manager\<close> (\<open>NewManager\<close>,
    \<open>NewSession\<close>, \<open>GetSession\<close>), \<open>Session\<close> (\<open>Save\<close>, \<open>Update\<close>, \<open>Delete\<close> and the methods below
    them), \<open>Handlers\<close> (login, callback, logout, userinfo, \<open>AuthenticationMiddleware\<close>), \<open>Handler_Outcomes\<close>
    (how each of them can end, on any back end) and
    \<open>Cleaner\<close> (the goroutine that purges, and the shutdown that waits for it).
  \<^item> \<open>database/database.go\<close>, \<open>sqlite.go\<close>, \<open>postgresql.go\<close>: \<open>Session_Data\<close> (data, expiry,
    encryption of tokens), \<open>Sql_Sessions\<close> (the table and its statements), \<open>Session_Impl\<close> (the
    interface), \<open>Sqlite\<close>, \<open>Postgresql\<close> (the methods), \<open>Backends\<close> (the constructors with
    their \<open>sync.Once\<close>), \<open>Statements\<close> (the statements of concurrent calls).
  \<^item> \<open>oidc/oidc.go\<close>, \<open>endpoints.go\<close>: \<open>Oidc\<close>, with \<open>GetIdToken\<close> and the discovery.
  \<^item> \<open>proxy.go\<close>: \<open>Proxy\<close>, with \<open>NewProxy\<close>, its \<open>Director\<close> and \<open>ErrorHandler\<close>, and what
    \<open>httputil.ReverseProxy\<close> does around them.
  \<^item> \<open>zlogger/logger.go\<close>, \<open>status.go\<close>: \<open>Zlogger\<close> for one request, \<open>Shared_Logger\<close> and
    \<open>Logger_Progress\<close> for requests that overlap.
  \<^item> \<open>opentelemetry/tracer.go\<close>: \<open>Opentelemetry\<close>; \<open>Db_Spans\<close> has the spans of both back ends, with their
    attributes and status, \<open>Tracing\<close> those of all other operations.
  \<^item> \<open>test/backend_services\<close>: \<open>Test_Backend\<close>, the service behind the proxy in the tests.

  \<open>Go_Prelude\<close>, \<open>Go_Encoding\<close>, \<open>Go_Query\<close>, \<open>Go_Path\<close> and \<open>Go_Http\<close> hold what is used of Go and its
  standard library: errors and how they wrap and compare, instants, base64 and query
  encoding, cleaning of paths, responses. \<open>Examples\<close> has one concrete instance of every parameter, on which the
  properties are evaluated.

  \<^bold>\<open>How code becomes definitions.\<close> A struct is a record, an error a value of \<open>go_error\<close>, a call
  that may fail returns a sum. A handler returns the list of the calls it makes (\<open>hop list\<close>),
  in order, on its response and on the logger, and the database afterwards; \<open>client_view\<close> reads
  off the response the client gets, \<open>recorder_step\<close> and \<open>logger_step\<close> what the logger sees. A nil
  dereference is the call \<open>Panic\<close>. The database is a record of its table and whether the
  connection is open (\<open>store\<close>). Code that is not in the repository is a parameter: the
  provider and \<open>go-oidc\<close>, \<open>oauth2\<close>, the cookie library (\<open>cookie_lib\<close>), the cipher, \<open>zap\<close>, the
  readers of the configuration, \<open>url.Parse\<close>, the transport behind the proxy; so are the clock,
  random bytes, UUIDs, nonces and faults of the database. Where a property needs more of them
  than their types it says so: \<open>cipher_correct\<close> (decryption undoes encryption), \<open>total_cipher\<close>,
  \<open>keeps_options\<close> (the cookie library copies the options of its store), \<open>injects_trace_only\<close> (the propagator only
  writes its own headers), \<open>refuses_empty_refresh\<close> (no token for an empty refresh token).

  \<^bold>\<open>Interfaces.\<close> \<open>session_store\<close> (theory \<open>Session_Impl\<close>) is the contract of a back end over the map of
  sessions it stands for; what the users of a back end rely on is proved in it
  once. \<open>two_phase_store\<close> (\<open>Statements\<close>) adds an \<open>Update\<close> in two statements; the invariants of interleaved
  requests are proved in it. \<open>renaming_store\<close> (\<open>Token_Secrecy\<close>) adds that the back end does not look into tokens,
  \<open>renaming_traces\<close> (\<open>Trace_Secrecy\<close>) that its spans do not either, and \<open>traced_impl\<close> (\<open>Db_Spans\<close>) is what
  tracing relies on. Both back ends interpret all five.

  \<^bold>\<open>What is shown.\<close>

  \<^item> Access (this theory, \<open>Access\<close>, \<open>System\<close>): the middleware lets a request through only
    with a stored session and its unexpired or renewed token; what goes to a back-end
    service carries the token of the session and no other; every stored session was vouched
    for by the provider; logout ends a session for good; every branch of login, callback and
    logout.
  \<^item> Concurrency (\<open>Concurrent_Requests\<close>, \<open>Statements\<close>): the same of requests that run at the same time. However their
    statements interleave, stored sessions are vouched for, a request that gets through had a
    session, a logout is final even for requests in flight, the rows satisfy the constraints of the
    table; and serving one request after the other is a special case. \<open>Concurrent_Failures\<close> has what the code does not
    guard against: requests in flight while the database is closed, two renewals of one session.
  \<^item> Secrecy (\<open>Token_Secrecy\<close>, \<open>Trace_Secrecy\<close>, \<open>Cookie_Policy\<close>): two runs that differ only in their tokens cannot be told
    apart by browser, log or tracer; every cookie is hardened.
  \<^item> Storage (\<open>Store_Properties\<close>, \<open>Statements\<close>): both back ends refine a map, agree
    with each other within 32-bit times, give back what was added; interleaved statements
    amount to atomic calls.
  \<^item> Life of the process (\<open>Startup\<close>, \<open>Program\<close>, \<open>Cleaner\<close>, \<open>Routes\<close>): which configurations are
    accepted and start, how \<open>main\<close> ends on every way out, when the shutdown can end, which
    handler serves which path, that every path leads to a handler after one redirect at most.
  \<^item> Logging and tracing (\<open>Shared_Logger\<close>, \<open>Logger_Progress\<close>, \<open>Tracing\<close>): what one
    request logs, how overlapping requests interfere, that every request comes to an end and
    is logged once, that no request panics for want of a tracer, that failing calls of the database show in the trace.
    \<open>Json_Replies\<close>: a client reads back what an error reply says.

  Several theorems describe what the code does where it does not do what it means to: key
  rotation (\<open>old_keys_replace_new\<close>), a callback without state (\<open>callback_without_login\<close>), errors
  logged with another request (\<open>concurrent_requests_swap_errors\<close>), renewable sessions purged
  (\<open>purge_ends_renewable_session\<close>), a renewal that a logout overtakes and that still passes
  (\<open>interleaved_requests_authenticate\<close>), renewals that collide (\<open>renewals_collide\<close>), a bad proxy endpoint that hangs the process (\<open>main_ends\<close>).

  \<^bold>\<open>Bounds.\<close> There is no fuel: every function is total by structural recursion or a measure. Loops
  that may run for ever, the cleaner, the server and the schedules, are step relations.
  Expiries are unbounded integers of nanoseconds; the 32-bit column of PostgreSQL is checked at
  its width (\<open>int4\<close>). The random bytes of the login state are 8-bit words.

  \<^bold>\<open>Not modelled.\<close> The insides of third-party code; protocol upgrades and trailers in the reverse
  proxy; text that is not ASCII in the JSON of error replies; the text of times and of
  library errors in attributes of spans; requests that interleave other than at the statements of the database
  (\<open>Concurrency\<close>) and at the logger (\<open>Shared_Logger\<close>), since handlers share nothing else; the scheduling inside the drivers,
  of which \<open>pgx\<close> refuses a statement while another one runs on the same connection (a fault of the
  environment here).
\<close>

section \<open>The middleware\<close>

text \<open>C1. Authentication: the wrapped handler only ever runs for a request whose cookie decodes to a
  session id, on a session that is in the database. Either the stored access token is still
  valid and is the one handed on, or the session was renewed first: the provider's new id token
  was verified for this client, has the subject of the stored session, and the new data were
  written to the same row before the new token was handed on.\<close>

theorem middleware_authenticates:
  assumes "backend c I" "m_impl m = I" "zero_time < clock env" "refuses_empty_refresh env cfg"
    and "passed_with (\<lambda>n. AuthenticationMiddleware env m cfg n r st) pre token st1"
  shows "\<exists>sid d. presents env m r sid \<and> stored c st sid = Some d \<and>
    (\<not> IsExpired (clock env) d \<and> token = AccessToken d \<and> st1 = st \<or>
     IsExpired (clock env) d \<and>
       (\<exists>d'. renewed_by env cfg d d' \<and> token = AccessToken d' \<and>
          Update I (db_write env) sid d' st = (Inr (), st1)))"
  using assms(1) by (rule backend_store) (rule session_store.middleware_passes [OF _ assms(2-5)])

theorem middleware_authenticates_witness:
  "\<exists>sid d. presents ex_env (ex_manager (sqlite_impl None)) ex_alice sid \<and>
    stored None (ex_store 2000) sid = Some d \<and>
    (\<not> IsExpired (clock ex_env) d \<and> ''at0'' = AccessToken d \<and> ex_store 2000 = ex_store 2000 \<or>
     IsExpired (clock ex_env) d \<and>
       (\<exists>d'. renewed_by ex_env ex_config d d' \<and> ''at0'' = AccessToken d' \<and>
          Update (sqlite_impl None) (db_write ex_env) sid d' (ex_store 2000) = (Inr (), ex_store 2000)))"
  by (rule middleware_authenticates [OF backend_simps(1) _ ex_clock ex_refuses_empty ex_alice_passes]) simp

text \<open>C14. Admission: a request with the id of a stored session gets through. With an unexpired
  access token it is handed on at once, and the database is not touched. With an expired one it
  is handed on after renewal, if the provider grants a new token whose id token it verifies and
  the row and the cookie can be written.\<close>

theorem middleware_admits:
  assumes "backend c I" "m_impl m = I" "request_cookie env m r = (g, None)" "cookie_state g = None" "cookie_id g = Some sid"
    and "conn_open st" "env_fault (db_read env) = None" "stored c st sid = Some d"
  shows "(\<not> IsExpired (clock env) d \<longrightarrow>
      passed_with (\<lambda>n. AuthenticationMiddleware env m cfg n r st) (from_context r) (AccessToken d) st) \<and>
    (\<forall>token d' st' ck. IsExpired (clock env) d \<and> RefreshGrant env cfg (RefreshToken d) = Inr token \<and>
      newData env token (session_for m cfg g) = Inr d' \<and> Update I (db_write env) sid d' st = (Inr (), st') \<and>
      lib_Save (cookies_lib env) (with_max_age (go_div (m_sessionTimeout m) second)
        (g\<lparr>Values := (Values g)(sessionStateName := None, sessionIdName \<mapsto> VString sid)\<rparr>)) = Inr ck \<longrightarrow>
      passed_with (\<lambda>n. AuthenticationMiddleware env m cfg n r st) (from_context r @ [AddCookie ck]) (AccessToken d') st')"
proof -
  obtain no_rows where S: "session_store I (stored c) ids conn_open no_rows (cipher_correct c)"
    using assms(1) by (rule backend_store)
  have "Get (m_impl m) (db_read env) sid st = Inr d"
    using session_store.Get_view [OF S assms(6-8)] assms(2) by simp
  then have gs: "GetSession env m cfg r st = Inr ((session_for m cfg g)\<lparr>sess_data := d\<rparr>)"
    using assms(3-5) by (cases rule: GetSession_cases [of env m r cfg st]) (auto simp: presents_def)
  show ?thesis
  proof (intro conjI allI impI)
    show "passed_with (\<lambda>n. AuthenticationMiddleware env m cfg n r st) (from_context r) (AccessToken d) st"
      if "\<not> IsExpired (clock env) d"
      using middleware_fresh [OF gs] that by simp
  next
    fix token d' st' ck
    let ?s = "(session_for m cfg g)\<lparr>sess_data := d\<rparr>"
    assume h: "IsExpired (clock env) d \<and> RefreshGrant env cfg (RefreshToken d) = Inr token \<and>
      newData env token (session_for m cfg g) = Inr d' \<and> Update I (db_write env) sid d' st = (Inr (), st') \<and>
      lib_Save (cookies_lib env) (with_max_age (go_div (m_sessionTimeout m) second)
        (g\<lparr>Values := (Values g)(sessionStateName := None, sessionIdName \<mapsto> VString sid)\<rparr>)) = Inr ck"
    then have nd: "newData env token ?s = Inr d'" by (simp add: newData_Inr_iff)
    define s2 where "s2 = snd (saveSession env sid (?s\<lparr>sess_data := d'\<rparr>))"
    have "fst (saveSession env sid (?s\<lparr>sess_data := d'\<rparr>)) = (None, [AddCookie ck])"
      using h by (simp add: saveSession_def Let_def save_cookie_def)
    then have "saveSession env sid (?s\<lparr>sess_data := d'\<rparr>) = ((None, [AddCookie ck]), s2)"
      by (simp add: s2_def prod_eq_iff)
    then have "Session_Update env token ?s st = ((None, [AddCookie ck]), s2, st')"
      using nd h assms(2,5) by (simp add: Session_Update_def)
    moreover have "AccessToken (sess_data s2) = AccessToken d'" by (simp add: s2_def)
    ultimately show "passed_with (\<lambda>n. AuthenticationMiddleware env m cfg n r st) (from_context r @ [AddCookie ck]) (AccessToken d') st'"
      using middleware_renewed [OF gs] h by fastforce
  qed
qed

theorem middleware_admits_witness:
  "passed_with (\<lambda>n. AuthenticationMiddleware ex_env (ex_manager (sqlite_impl None)) ex_config n ex_alice (ex_store 2000))
     (from_context ex_alice) ''at0'' (ex_store 2000) \<and>
   (\<exists>ck. passed_with (\<lambda>n. AuthenticationMiddleware ex_env (ex_manager (sqlite_impl None)) ex_config n ex_alice (ex_store 500))
     (from_context ex_alice @ [AddCookie ck]) ''at1'' (ex_new_store ''uuid-0'' (ex_store 500)))"
proof -
  have H: "backend None (sqlite_impl None)" "m_impl (ex_manager (sqlite_impl None)) = sqlite_impl None"
    "request_cookie ex_env (ex_manager (sqlite_impl None)) ex_alice = (ex_gsession [sessionIdName \<mapsto> VString ''uuid-0''], None)"
    "cookie_state (ex_gsession [sessionIdName \<mapsto> VString ''uuid-0'']) = None"
    "cookie_id (ex_gsession [sessionIdName \<mapsto> VString ''uuid-0'']) = Some ''uuid-0''"
    "conn_open (ex_store t)" "env_fault (db_read ex_env) = None" "stored None (ex_store t) ''uuid-0'' = Some (ex_data t)" for t
    by simp_all
  note admits = middleware_admits [OF H, of _ ex_config]
  have "\<not> IsExpired (clock ex_env) (ex_data 2000)" "IsExpired (clock ex_env) (ex_data 500)"
    by (simp_all add: IsExpired_def from_unix_def)
  with admits [of 2000] admits [of 500, THEN conjunct2, THEN spec [of _ ex_token], THEN spec [of _ ex_new_data]]
  show ?thesis by (auto simp: ex_new_data_def [THEN arg_cong [where f = AccessToken]])
qed



text \<open>The same request gets different answers from the two back ends: when the session id of its
  cookie has no row any more (it was purged, or logged out elsewhere), the middleware answers
  401 on SQLite and 500 on PostgreSQL, whose \<open>pgx.ErrNoRows\<close> is not the \<open>sql.ErrNoRows\<close> that
  \<open>dataFromDB\<close> looks for.\<close>

lemma missing_row_status:
  assumes "presents env m r sid" "conn_open st" "env_fault (db_read env) = None" "sid \<notin> ids st"
  shows "(m_impl m = sqlite_impl c \<longrightarrow> answered_with (\<lambda>n. AuthenticationMiddleware env m cfg n r st) 401 st) \<and>
    (m_impl m = postgresql_impl c \<longrightarrow> answered_with (\<lambda>n. AuthenticationMiddleware env m cfg n r st) 500 st)"
proof (intro conjI impI)
  show "answered_with (\<lambda>n. AuthenticationMiddleware env m cfg n r st) 401 st" if "m_impl m = sqlite_impl c"
    using middleware_failed_get [OF assms(1), of st SqlErrNoRows cfg] that assms by (simp add: sqlite_Get_unknown)
  show "answered_with (\<lambda>n. AuthenticationMiddleware env m cfg n r st) 500 st" if "m_impl m = postgresql_impl c"
    using middleware_failed_get [OF assms(1), of st PgxErrNoRows cfg] that assms
    by (simp add: postgresql_Get_unknown SqlErrNoRows_def PgxErrNoRows_def)
qed

section \<open>Login\<close>


text \<open>The state of a login has 172 characters of the URL-safe base64 alphabet, and different
  random bytes give different states, so it carries all 128 bytes. It is only as random as the
  bytes are: the error of \<open>rand.Read\<close> is dropped, and when it delivered nothing the state is
  the same constant for everyone.\<close>

lemma oauth_state:
  "length (generateOAuthState env) = 172 \<and>
   set (generateOAuthState env) \<subseteq> insert (CHR ''='') (set b64_alphabet) \<and>
   (length (fst (random_bytes env)) = 128 \<and> length (fst (random_bytes env')) = 128 \<longrightarrow>
      (generateOAuthState env = generateOAuthState env' \<longleftrightarrow> fst (random_bytes env) = fst (random_bytes env'))) \<and>
   (fst (random_bytes env) = [] \<longrightarrow> generateOAuthState env = b64_encode (replicate 128 0))"
  using set_b64_encode by (auto simp: generateOAuthState_def length_b64_encode state_bytes_def)

section \<open>Callback\<close>

text \<open>C11. A callback that answers 302 has logged somebody in, properly: the state of the query is the
  state of the cookie; the code was exchanged; the id token was verified for this client; its
  data are in a row under an id the table did not hold before (the id of a cookie that came with
  the request is never reused), and no other row changed; the one cookie of the reply holds the new id and no state.
  If the cookie holds no state there is no login in progress: then the query must have no
  state either and the cookie that of a stored session.\<close>

theorem callback_authenticates:
  assumes "backend c I" "m_impl m = I" "CallbackHandlerOidc env m cfg uri r st = (hops, st')"
    and "client_status hops = Some 302"
  shows "\<exists>g token d sid ck g'. request_cookie env m r = (g, None) \<and>
    (case cookie_state g of
       Some state \<Rightarrow> query_value r sessionStateName = state
     | None \<Rightarrow> query_value r sessionStateName = [] \<and> (\<exists>old x. cookie_id g = Some old \<and> stored c st old = Some x)) \<and>
    Exchange env cfg (form_value r ''code'') = Inr token \<and>
    tok_Extra token ''id_token'' = Some (VString (IDToken d)) \<and>
    verified_for (oidc_lib env) (issuer cfg) (ClientID cfg) (IDToken d) (Subject d) \<and>
    AccessToken d = tok_AccessToken token \<and> RefreshToken d = tok_RefreshToken token \<and>
    sid \<notin> ids st \<and> ids st' = insert sid (ids st) \<and> (\<forall>x. x \<noteq> sid \<longrightarrow> stored c st' x = stored c st x) \<and>
    (cipher_correct c \<longrightarrow> stored c st' sid = Some (store_precision d)) \<and>
    client_cookies hops = [ck] \<and> lib_Save (cookies_lib env) g' = Inr ck \<and>
    cookie_id g' = Some sid \<and> cookie_state g' = None"
proof -
  obtain no_rows where S: "session_store I (stored c) ids conn_open no_rows (cipher_correct c)"
    using assms(1) by (rule backend_store)
  show ?thesis
  proof (rule callback_outcome [OF assms(3), unfolded assms(2)])
    fix code :: nat assume "code \<in> {401, 500}" "client_status hops = Some code"
    with assms(4) show ?thesis by auto
  next
    fix s token g0 d sid g' ck
    assume h: "GetSession env m cfg r st = Inr s" "getState s = query_value r sessionStateName"
      "Exchange env cfg (form_value r ''code'') = Inr token" "newData env token (session_for m cfg g0) = Inr d"
      "Add I (db_write env) d st = (Inr sid, st')" "cookie_id g' = Some sid" "cookie_state g' = None"
      "lib_Save (cookies_lib env) g' = Inr ck"
      "hops = (from_context r @ [AddCookie ck]) @ http_redirect (req_method r) uri 302"
    have ck: "client_cookies hops = [ck]" by (simp add: h(9) redirect_client del: append_assoc)
    have cookie: "\<exists>g. request_cookie env m r = (g, None) \<and> (case cookie_state g of
        Some state \<Rightarrow> query_value r sessionStateName = state
      | None \<Rightarrow> query_value r sessionStateName = [] \<and> (\<exists>old x. cookie_id g = Some old \<and> stored c st old = Some x))"
    proof (rule GetSession_cases [of env m r cfg st])
      fix g assume "request_cookie env m r = (g, None)" "cookie_state g \<noteq> None"
        "GetSession env m cfg r st = Inr (session_for m cfg g)"
      with h(1,2) show ?thesis by (auto simp: getState_def)
    next
      fix g sid' x assume "request_cookie env m r = (g, None)" "cookie_id g = Some sid'" "cookie_state g = None"
        "Get (m_impl m) (db_read env) sid' st = Inr x"
        "GetSession env m cfg r st = Inr ((session_for m cfg g)\<lparr>sess_data := x\<rparr>)"
      with h(1,2) assms(2) session_store.Get_Inr [OF S] show ?thesis by (auto simp: getState_def)
    qed (use h(1) in auto)
    show ?thesis
      using cookie h(3,4,6-8) ck session_store.Add_Inr [OF S h(5)] session_store.Add_view [OF S _ h(5)]
      by (auto simp: newData_Inr_iff)
  qed
qed

theorem callback_authenticates_witness:
  "\<exists>d sid. verified_for (oidc_lib ex_env) (issuer ex_config) (ClientID ex_config) (IDToken d) (Subject d) \<and>
    sid \<notin> ids (ex_store 500) \<and> stored None (ex_new_store ''uuid-1'' (ex_store 500)) sid = Some (store_precision d)"
proof -
  have run: "CallbackHandlerOidc ex_env (ex_manager (sqlite_impl None)) ex_config uri ex_callback (ex_store 500) =
     ((from_context ex_callback @ [AddCookie \<lparr>cookie_name = ''session'', cookie_value = ''iuuid-1'',
        cookie_options = (manager_cookie_options ''localhost'')\<lparr>MaxAge := 1800\<rparr>\<rparr>])
        @ http_redirect ''GET'' uri 302, ex_new_store ''uuid-1'' (ex_store 500))" for uri
    by (rule ex_callback_run) simp_all
  show ?thesis
    using callback_authenticates [OF backend_simps(1) _ run] redirect_client(1)
    by (fastforce simp: cipher_correct_def simp del: append_assoc)
qed



text \<open>The state check lets a callback through that no login started: the browser of a signed-in
  user, whose cookie holds a session id and no state, passes it with a query that has a code but
  no state. The code is exchanged, the session that comes of it is stored, and the browser is
  signed in as whoever the code belongs to; the row of the user's own session stays behind.\<close>

lemma callback_without_login:
  assumes "backend c (m_impl m)" "request_cookie env m r = (g, None)" "cookie_state g = None" "cookie_id g = Some old"
    and "conn_open st" "env_fault (db_read env) = None" "stored c st old = Some mine"
    and "req_query r = ''code='' @ query_escape code" "req_post_form r = []" "Exchange env cfg code = Inr token"
    and "lib_New (cookies_lib env) (m_store m) (req_cookies r) (m_cookieName m) = (g0, None)"
    and "newData env token (session_for m cfg g0) = Inr d"
    and "Add (m_impl m) (db_write env) d st = (Inr sid, st')"
    and "lib_Save (cookies_lib env) (with_max_age (go_div (m_sessionTimeout m) second)
      (g0\<lparr>Values := (Values g0)(sessionStateName := None, sessionIdName \<mapsto> VString sid)\<rparr>)) = Inr ck"
  shows "\<exists>hops. CallbackHandlerOidc env m cfg uri r st = (hops, st') \<and> client_status hops = Some 302 \<and>
    client_cookies hops = [ck] \<and> stored c st' old = Some mine"
proof -
  obtain no_rows where S: "session_store (m_impl m) (stored c) ids conn_open no_rows (cipher_correct c)"
    using assms(1) by (rule backend_store)
  have "Get (m_impl m) (db_read env) old st = Inr mine"
    by (rule session_store.Get_view [OF S assms(5-7)])
  then have gs: "GetSession env m cfg r st = Inr ((session_for m cfg g)\<lparr>sess_data := mine\<rparr>)"
    using assms(2-4) by (cases rule: GetSession_cases [of env m r cfg st]) (auto simp: presents_def)
  have "parse_query (req_query r) = [(''code'', code)]"
    using parse_query_one [of "''code''" code] assms(8) by simp
  then have vals: "query_value r sessionStateName = []" "form_value r ''code'' = code"
    using assms(9) by (simp_all add: query_value_def form_value_def values_get_def sessionStateName_def)
  have "CallbackHandlerOidc env m cfg uri r st =
      ((from_context r @ [AddCookie ck]) @ http_redirect (req_method r) uri 302, st')"
    using vals assms(3,10) by (intro callback_run [OF gs _ _ assms(11-14)]) (simp_all add: getState_def)
  moreover have "stored c st' old = Some mine"
    using session_store.Add_Inr [OF S assms(13)] assms(7) stored_ids by metis
  ultimately show ?thesis by (simp add: redirect_client del: append_assoc)
qed

definition ex_injected :: request where
  "ex_injected = ex_request ''code=code'' [(''session'', ''iuuid-0'')]"

lemma ex_injected_steps:
  "request_cookie ex_env (ex_manager I) ex_injected = (ex_gsession [sessionIdName \<mapsto> VString ''uuid-0''], None)"
  "req_query ex_injected = ''code='' @ query_escape ''code''" "req_post_form ex_injected = []"
  "lib_New (cookies_lib ex_env) (m_store (ex_manager I)) (req_cookies ex_injected) (m_cookieName (ex_manager I)) =
     (ex_gsession [sessionIdName \<mapsto> VString ''uuid-0''], None)"
  by (simp_all add: ex_injected_def request_cookie_def query_escape_def escape_char_def unreserved_def)

section \<open>Logout\<close>

text \<open>C10. Logout revokes: a logout that answers 302 has deleted the row of the cookie's session and no
  other, its one cookie tells the browser to drop the session cookie, and from then on, whatever
  other requests and purges do to the database, the middleware answers every request that
  presents the old id with 401 or 500 as long as no new session happens to draw that id.\<close>

theorem logout_revokes:
  assumes "backend c I" "m_impl m = I" "LogoutHandlerOidc env m cfg uri r st = (hops, st')"
    and "client_status hops = Some 302"
  shows "\<exists>g sid ck. request_cookie env m r = (g, None) \<and> cookie_id g = Some sid \<and>
    ids st' = ids st - {sid} \<and> stored c st' = (stored c st)(sid := None) \<and>
    lib_Save (cookies_lib env) (with_max_age (- 1) g) = Inr ck \<and> client_cookies hops = [ck] \<and>
    (\<forall>calls env' r'. Some sid \<notin> uuid_of_call ` set calls \<and> presents env' m r' sid \<longrightarrow>
      (\<exists>code\<in>{401, 500}. answered_with (\<lambda>n. AuthenticationMiddleware env' m cfg n r' (run_calls I calls st')) code
        (run_calls I calls st')))"
proof -
  obtain no_rows where S: "session_store I (stored c) ids conn_open no_rows (cipher_correct c)"
    using assms(1) by (rule backend_store)
  show ?thesis
  proof (rule session_store.logout_outcome [OF S assms(2,3)])
    assume "client_status hops = Some 500"
    with assms(4) show ?thesis by simp
  next
    fix g sid d ck
    assume h: "request_cookie env m r = (g, None)" "cookie_id g = Some sid"
      "Delete I (db_write env) sid st = (Inr (), st')"
      "lib_Save (cookies_lib env) (with_max_age (- 1) g) = Inr ck"
      "hops = (from_context r @ [AddCookie ck]) @ http_redirect (req_method r) (logout_url cfg (IDToken d) uri) 302"
    have later: "\<exists>code\<in>{401, 500}. answered_with (\<lambda>n. AuthenticationMiddleware env' m cfg n r' (run_calls I calls st')) code
        (run_calls I calls st')"
      if "Some sid \<notin> uuid_of_call ` set calls" "presents env' m r' sid" for calls env' r'
      using session_store.deleted_stays_deleted [OF S h(3) that(1)]
      by (rule session_store.middleware_rejects_unknown [OF S assms(2) that(2)])
    show ?thesis
      using h(1,2,4) session_store.Delete_Inr [OF S h(3)] later
      by (intro exI [of _ g] exI [of _ sid] exI [of _ ck]) (simp add: h(5) redirect_client del: append_assoc)
  qed
qed

theorem logout_revokes_witness:
  "stored None (ex_logged_out 2000) = (stored None (ex_store 2000))(''uuid-0'' := None) \<and>
   (\<exists>code\<in>{401, 500}. answered_with (\<lambda>n. AuthenticationMiddleware ex_env (ex_manager (sqlite_impl None)) ex_config n ex_alice
      (run_calls (sqlite_impl None) [CallPurge (ex_db_env [])] (ex_logged_out 2000))) code
      (run_calls (sqlite_impl None) [CallPurge (ex_db_env [])] (ex_logged_out 2000)))"
proof -
  note L = logout_revokes [OF backend_simps(1) ex_manager_simps(1) ex_logout_run ex_logout_status, of 2000]
  obtain calls where c: "calls = [CallPurge (ex_db_env [])]" "Some ''uuid-0'' \<notin> uuid_of_call ` set calls" by simp
  from L c(2) show ?thesis unfolding c(1) [symmetric] by fastforce
qed



section \<open>Sessions, the cleaner and the proxy together\<close>

text \<open>A purge ends sessions that could still be renewed: it goes by the expiry of the access token,
  so a session whose refresh token would have got its next request through, as it did before the
  purge, is gone after it, and the same request is answered with 401 or 500.\<close>

lemma purge_ends_renewable_session:
  assumes "backend c I" "m_impl m = I" "zero_time < clock env" "refuses_empty_refresh env cfg"
    and "presents env m r sid" "stored c st sid = Some d" "unix (ExpiresAt d) < unix (env_now penv)"
    and "passed_with (\<lambda>n. AuthenticationMiddleware env m cfg n r st) pre token st1"
    and "Purge I penv st = (Inr (), st')"
  shows "\<exists>code\<in>{401, 500}. answered_with (\<lambda>n. AuthenticationMiddleware env m cfg n r st') code st'"
proof -
  obtain no_rows where S: "session_store I (stored c) ids conn_open no_rows (cipher_correct c)"
    using assms(1) by (rule backend_store)
  have "stored c st' sid = None"
    using session_store.Purge_Inr [OF S assms(9)] assms(6,7) by (simp add: spec_purge_def)
  with session_store.middleware_rejects_unknown [OF S assms(2,5)] show ?thesis by blast
qed

lemma ex_alice_renewed:
  "passed_with (\<lambda>n. AuthenticationMiddleware ex_env (ex_manager (sqlite_impl None)) ex_config n ex_alice (ex_store 500))
     (from_context ex_alice @ [AddCookie \<lparr>cookie_name = ''session'', cookie_value = ''iuuid-0'',
        cookie_options = (manager_cookie_options ''localhost'')\<lparr>MaxAge := 1800\<rparr>\<rparr>]) ''at1'' (ex_new_store ''uuid-0'' (ex_store 500))"
proof -
  let ?g = "ex_gsession [sessionIdName \<mapsto> VString ''uuid-0'']"
  let ?s = "(session_for (ex_manager (sqlite_impl None)) ex_config ?g)\<lparr>sess_data := ex_data 500\<rparr>"
  have "newData ex_env ex_token ?s = Inr ex_new_data"
    using ex_newData [of "ex_manager (sqlite_impl None)" ?g] unfolding newData_Inr_iff by simp
  then obtain s' where "Session_Update ex_env ex_token ?s (ex_store 500) = ((None, [AddCookie \<lparr>cookie_name = ''session'',
      cookie_value = ''iuuid-0'', cookie_options = (manager_cookie_options ''localhost'')\<lparr>MaxAge := 1800\<rparr>\<rparr>]), s', ex_new_store ''uuid-0'' (ex_store 500))"
      "sess_data s' = ex_new_data"
    by (simp add: Session_Update_def saveSession_def Let_def save_cookie_def)
       (simp add: ex_gsession_def ex_encode_def with_max_age_def go_div_def minute_def second_def)
  then show ?thesis
    using middleware_renewed [OF ex_alice_session, of 500 ex_config ex_token]
    by (simp add: IsExpired_def from_unix_def ex_new_data_def)
qed


definition ex_proxy_system :: "store system" where
  "ex_proxy_system = ex_system\<lparr>sys_mux := fixed_routes @ [(''/proxy'', ProxyRoute ex_target), (''/'', RootRoute)]\<rparr>"

definition ex_proxy_arrival :: incoming where
  "ex_proxy_arrival = ex_arrival\<lparr>arr_request := ex_alice, arr_http := ex_proxied\<lparr>pr_url := \<lparr>url_scheme = [], url_host = [],
     url_path = ''/proxy'', url_query = []\<rparr>\<rparr>\<rparr>"


section \<open>The program that runs\<close>

text \<open>What \<open>main\<close> serves once it has started.\<close>

definition system_of :: "started \<Rightarrow> mux \<Rightarrow> store system option" where
  "system_of x t =
     map_option (\<lambda>m. \<lparr>sys_manager = m, sys_oidc = st_oidc x,
         sys_login_uri = OidcPostLoginRedirectURL (st_config x),
         sys_logout_uri = OidcPostLogoutRedirectURL (st_config x), sys_mux = t\<rparr>)
       (manager_of (st_manager x, st_iface x))"



end
